(* ===== verification/Deeb_Prelude.thy ===== *)
theory Deeb_Prelude
  imports Main "HOL-Library.Word"
begin

text \<open>
  Shared vocabulary of the development: the Go values the model uses (64-bit unsigned
  integers, byte strings, \<open>error\<close> values), the result of a Go call (a value, a returned error or
  a panic), state passing for code that mutates an object and may fail, the environment's
  faults, and the generic lemmas the component theories share.
\<close>

section \<open>Machine integers and error values\<close>

type_synonym u64 = "64 word"

text \<open>
  Go \<open>error\<close> values. \<open>ENew\<close> is \<open>errors.New\<close> / \<open>fmt.Errorf\<close>, \<open>EWrap e m\<close> is
  \<open>errors.Wrap(e, m)\<close> / \<open>errors.Wrapf(e, m, ...)\<close> (a formatted message is represented by its
  format string), \<open>ENoRows\<close> is \<open>sql.ErrNoRows\<close>, \<open>ESqlite\<close> and \<open>EMySQL\<close> are the two drivers'
  typed errors with their code or number, \<open>EDriver\<close> any other error of a driver, of the
  operating system or of a connection, \<open>ECompacted\<close> and \<open>EUnavailable\<close> the two errors of the
  \<open>raft.Storage\<close> contract, \<open>EDBError\<close> is \<open>backend.DBError\<close>, \<open>EConnRefused\<close> is
  \<open>syscall.ECONNREFUSED\<close>, \<open>EOpError\<close> is \<open>net.OpError\<close> with its \<open>Err\<close> field, and \<open>ECtx\<close> is what
  \<open>ctx.Err()\<close> returns.
\<close>

datatype goerr =
    ENew string
  | EWrap goerr string
  | ENoRows
  | ESqlite nat
  | EMySQL nat
  | EDriver string
  | ECompacted
  | EUnavailable
  | EDBError goerr
  | EConnRefused
  | EOpError "goerr option"
  | ECtx

text \<open>What a Go call does: return a value, return an error, or panic.\<close>

datatype 'a res = Ok 'a | Err goerr | Panic goerr

fun is_ok :: "'a res \<Rightarrow> bool" where
  "is_ok (Ok _) = True"
| "is_ok _ = False"

text \<open>The \<open>err\<close> half of a \<open>(value, err)\<close> pair, \<open>None\<close> for nil.\<close>

fun res_err :: "'a res \<Rightarrow> goerr option" where
  "res_err (Ok _) = None"
| "res_err (Err e) = Some e"
| "res_err (Panic e) = Some e"

lemma is_ok_iff: "is_ok r \<longleftrightarrow> (\<exists>x. r = Ok x)"
  by (cases r) auto

section \<open>State passing with errors and panics\<close>

type_synonym ('s, 'a) op = "'s \<Rightarrow> 'a res \<times> 's"

named_theorems op_defs \<open>unfolding of the state-passing combinators\<close>
named_theorems keeps_intros \<open>rules that an operation keeps a state predicate on every outcome\<close>
named_theorems calm_simps \<open>what an operation does when the environment injects no fault\<close>

definition op_ret :: "'a \<Rightarrow> ('s, 'a) op" where
  [op_defs]: "op_ret x = (\<lambda>s. (Ok x, s))"

definition op_err :: "goerr \<Rightarrow> ('s, 'a) op" where
  [op_defs]: "op_err e = (\<lambda>s. (Err e, s))"

definition op_panic :: "goerr \<Rightarrow> ('s, 'a) op" where
  [op_defs]: "op_panic e = (\<lambda>s. (Panic e, s))"

text \<open>Sequencing: an error returns early, a panic unwinds.\<close>

definition op_bind :: "('s, 'a) op \<Rightarrow> ('a \<Rightarrow> ('s, 'b) op) \<Rightarrow> ('s, 'b) op" where
  [op_defs]: "op_bind m f = (\<lambda>s. case m s of
      (Ok x, s') \<Rightarrow> f x s'
    | (Err e, s') \<Rightarrow> (Err e, s')
    | (Panic e, s') \<Rightarrow> (Panic e, s'))"

text \<open>\<open>x, err := m\<close>: the error becomes a value the code inspects; a panic still unwinds.\<close>

definition attempt :: "('s, 'a) op \<Rightarrow> ('s, goerr + 'a) op" where
  [op_defs]: "attempt m = (\<lambda>s. case m s of
      (Ok x, s') \<Rightarrow> (Ok (Inr x), s')
    | (Err e, s') \<Rightarrow> (Ok (Inl e), s')
    | (Panic e, s') \<Rightarrow> (Panic e, s'))"

text \<open>\<open>if err != nil { return errors.Wrap(err, msg) }\<close>\<close>

definition wrap_err :: "string \<Rightarrow> ('s, 'a) op \<Rightarrow> ('s, 'a) op" where
  [op_defs]: "wrap_err msg m = (\<lambda>s. case m s of
      (Ok x, s') \<Rightarrow> (Ok x, s')
    | (Err e, s') \<Rightarrow> (Err (EWrap e msg), s')
    | (Panic e, s') \<Rightarrow> (Panic e, s'))"

text \<open>\<open>_ = m\<close>: an error is dropped.\<close>

definition ignore_err :: "('s, 'a) op \<Rightarrow> ('s, unit) op" where
  [op_defs]: "ignore_err m = op_bind (attempt m) (\<lambda>_. op_ret ())"

text \<open>Reading the state.\<close>

definition op_get :: "('s \<Rightarrow> 'a) \<Rightarrow> ('s, 'a) op" where
  [op_defs]: "op_get g = (\<lambda>s. (Ok (g s), s))"

definition op_mod :: "('s \<Rightarrow> 's) \<Rightarrow> ('s, unit) op" where
  [op_defs]: "op_mod g = (\<lambda>s. (Ok (), g s))"

text \<open>A \<open>for\<close> loop over a slice that stops at the first error.\<close>

fun op_foreach :: "('x \<Rightarrow> ('s, unit) op) \<Rightarrow> 'x list \<Rightarrow> ('s, unit) op" where
  "op_foreach f [] = op_ret ()"
| "op_foreach f (x # xs) = op_bind (f x) (\<lambda>_. op_foreach f xs)"

text \<open>
  The monad laws, so that a model may be read up to association of its steps.
\<close>

lemma op_bind_ret_left [simp]: "op_bind (op_ret x) f = f x"
  by (simp add: op_bind_def op_ret_def)

lemma op_bind_ret_right [simp]: "op_bind m op_ret = m"
  by (auto simp: op_bind_def op_ret_def fun_eq_iff split: prod.splits res.splits)

lemma op_bind_assoc: "op_bind (op_bind m f) g = op_bind m (\<lambda>x. op_bind (f x) g)"
  by (auto simp: op_bind_def fun_eq_iff split: prod.splits res.splits)

lemma op_bind_get: "op_bind (op_get g) f s = f (g s) s"
  by (simp add: op_bind_def op_get_def)

lemma op_bind_Ok_iff:
  "op_bind m f s = (Ok y, t) \<longleftrightarrow> (\<exists>x u. m s = (Ok x, u) \<and> f x u = (Ok y, t))"
  by (auto simp: op_bind_def split: prod.splits res.splits)

lemma wrap_err_Ok_iff [simp]: "wrap_err msg m s = (Ok x, t) \<longleftrightarrow> m s = (Ok x, t)"
  by (auto simp: wrap_err_def split: prod.splits res.splits)

lemma snd_wrap_err [simp]: "snd (wrap_err msg m s) = snd (m s)"
  by (auto simp: wrap_err_def split: prod.splits res.splits)

lemma snd_attempt [simp]: "snd (attempt m s) = snd (m s)"
  by (auto simp: attempt_def split: prod.splits res.splits)

lemma attempt_Ok_Inr_iff [simp]: "attempt m s = (Ok (Inr x), t) \<longleftrightarrow> m s = (Ok x, t)"
  by (auto simp: attempt_def split: prod.splits res.splits)

lemma attempt_not_Err [simp]: "attempt m s \<noteq> (Err e, t)"
  by (auto simp: attempt_def split: prod.splits res.splits)

lemma op_bind_eq_of_Ok: "m s = (Ok x, t) \<Longrightarrow> op_bind m f s = f x t"
  by (simp add: op_bind_def)

lemma op_bind_eq_of_Err: "m s = (Err e, t) \<Longrightarrow> op_bind m f s = (Err e, t)"
  by (simp add: op_bind_def)

section \<open>Predicates kept on every outcome\<close>

text \<open>
  \<open>keeps P m\<close>: whatever \<open>m\<close> does (returns, fails at any point, panics), a state that
  satisfies \<open>P\<close> is left in a state that satisfies \<open>P\<close>. A frame condition is
  \<open>keeps (\<lambda>s. f s = c) m\<close> for every \<open>c\<close>.
\<close>

definition keeps :: "('s \<Rightarrow> bool) \<Rightarrow> ('s, 'a) op \<Rightarrow> bool" where
  "keeps P m \<longleftrightarrow> (\<forall>s. P s \<longrightarrow> P (snd (m s)))"

lemma keepsD: "keeps P m \<Longrightarrow> P s \<Longrightarrow> P (snd (m s))"
  by (simp add: keeps_def)

lemma keepsI: "(\<And>s. P s \<Longrightarrow> P (snd (m s))) \<Longrightarrow> keeps P m"
  by (simp add: keeps_def)

lemma keeps_eqD: "keeps P m \<Longrightarrow> P s \<Longrightarrow> m s = (r, t) \<Longrightarrow> P t"
  by (metis keepsD snd_conv)

lemma keeps_ret [keeps_intros, simp]: "keeps P (op_ret x)"
  by (simp add: keeps_def op_ret_def)

lemma keeps_err [keeps_intros, simp]: "keeps P (op_err e)"
  by (simp add: keeps_def op_err_def)

lemma keeps_panic [keeps_intros, simp]: "keeps P (op_panic e)"
  by (simp add: keeps_def op_panic_def)

lemma keeps_get [keeps_intros, simp]: "keeps P (op_get g)"
  by (simp add: keeps_def op_get_def)

lemma keeps_bind [keeps_intros]:
  assumes "keeps P m" and "\<And>x. keeps P (f x)"
  shows "keeps P (op_bind m f)"
proof (rule keepsI)
  fix s assume "P s"
  then have "P (snd (m s))" using assms(1) by (simp add: keeps_def)
  moreover have "P t \<Longrightarrow> P (snd (f x t))" for x t
    using assms(2) by (rule keepsD)
  ultimately show "P (snd (op_bind m f s))"
    by (auto simp: op_bind_def split: prod.splits res.splits)
qed

lemma keeps_after: "P (snd (m s)) \<Longrightarrow> (\<And>x. keeps P (f x)) \<Longrightarrow> P (snd (op_bind m f s))"
  by (auto simp: op_bind_def keepsD split: prod.splits res.splits)

lemma keeps_wrap [keeps_intros]: "keeps P m \<Longrightarrow> keeps P (wrap_err msg m)"
  by (simp add: keeps_def)

lemma keeps_attempt [keeps_intros]: "keeps P m \<Longrightarrow> keeps P (attempt m)"
  by (simp add: keeps_def)

lemma keeps_ignore [keeps_intros]: "keeps P m \<Longrightarrow> keeps P (ignore_err m)"
  unfolding ignore_err_def by (intro keeps_bind keeps_attempt keeps_ret)

lemma keeps_foreach [keeps_intros]:
  "(\<And>x. x \<in> set xs \<Longrightarrow> keeps P (f x)) \<Longrightarrow> keeps P (op_foreach f xs)"
  by (induction xs) (auto intro: keeps_bind)

lemma keeps_if [keeps_intros]:
  "(c \<Longrightarrow> keeps P m) \<Longrightarrow> (\<not> c \<Longrightarrow> keeps P m') \<Longrightarrow> keeps P (if c then m else m')"
  by simp

lemma keeps_case_sum [keeps_intros]:
  "(\<And>e. keeps P (f e)) \<Longrightarrow> (\<And>x. keeps P (g x)) \<Longrightarrow>
   keeps P (case r of Inl e \<Rightarrow> f e | Inr x \<Rightarrow> g x)"
  by (cases r) auto

lemma keeps_case_option [keeps_intros]:
  "keeps P m \<Longrightarrow> (\<And>x. keeps P (g x)) \<Longrightarrow>
   keeps P (case r of None \<Rightarrow> m | Some x \<Rightarrow> g x)"
  by (cases r) auto

lemma keeps_case_prod [keeps_intros]:
  "(\<And>a b. keeps P (f a b)) \<Longrightarrow> keeps P (case x of (a, b) \<Rightarrow> f a b)"
  by (cases x) simp

text \<open>
  \<open>okpost P m Q\<close>: from a state that satisfies \<open>P\<close>, if \<open>m\<close> returns a value then that value and
  the state it leaves satisfy \<open>Q\<close>.
\<close>

definition okpost :: "('s \<Rightarrow> bool) \<Rightarrow> ('s, 'a) op \<Rightarrow> ('a \<Rightarrow> 's \<Rightarrow> bool) \<Rightarrow> bool" where
  "okpost P m Q \<longleftrightarrow> (\<forall>s x t. P s \<longrightarrow> m s = (Ok x, t) \<longrightarrow> Q x t)"

lemma okpostI: "(\<And>s x t. P s \<Longrightarrow> m s = (Ok x, t) \<Longrightarrow> Q x t) \<Longrightarrow> okpost P m Q"
  by (simp add: okpost_def)

lemma okpostD: "okpost P m Q \<Longrightarrow> P s \<Longrightarrow> m s = (Ok x, t) \<Longrightarrow> Q x t"
  by (simp add: okpost_def)

lemma okpost_bind:
  "okpost P m R \<Longrightarrow> (\<And>x. okpost (R x) (f x) Q) \<Longrightarrow> okpost P (op_bind m f) Q"
  by (fastforce simp: okpost_def op_bind_Ok_iff)

lemma okpost_ret: "(\<And>s. P s \<Longrightarrow> Q x s) \<Longrightarrow> okpost P (op_ret x) Q"
  by (auto simp: okpost_def op_ret_def)

lemma okpost_err [simp]: "okpost P (op_err e) Q"
  by (auto simp: okpost_def op_err_def)

lemma okpost_wrap: "okpost P m Q \<Longrightarrow> okpost P (wrap_err msg m) Q"
  by (simp add: okpost_def)

text \<open>After \<open>x, err := m\<close>: either the value with its post-condition, or an error in a kept state.\<close>

lemma okpost_attempt:
  "okpost P m Q \<Longrightarrow> keeps P m \<Longrightarrow>
   okpost P (attempt m) (\<lambda>r s. case r of Inl e \<Rightarrow> P s | Inr x \<Rightarrow> Q x s)"
  by (fastforce simp: okpost_def attempt_def dest: keeps_eqD split: prod.splits res.splits)

section \<open>The environment's faults\<close>

text \<open>
  Every call that leaves the process (an SQL statement, a file operation, a connection) can
  fail for a reason the program does not control. The schedule of these failures is part of
  the state: each such call takes the next element. \<open>FailBefore e\<close> reports \<open>e\<close> without the
  call having had its effect, \<open>FailAfter e\<close> reports \<open>e\<close> although it had (a connection lost
  after the commit). An exhausted schedule means no further faults.
\<close>

datatype fault = NoFault | FailBefore goerr | FailAfter goerr

record world =
  faults :: "fault list"

definition sys_call :: "('z world_scheme, 'a) op \<Rightarrow> ('z world_scheme, 'a) op" where
  "sys_call f s = (case faults s of
      [] \<Rightarrow> f s
    | NoFault # fs \<Rightarrow> f (s\<lparr>faults := fs\<rparr>)
    | FailBefore e # fs \<Rightarrow> (Err e, s\<lparr>faults := fs\<rparr>)
    | FailAfter e # fs \<Rightarrow> (Err e, snd (f (s\<lparr>faults := fs\<rparr>))))"

text \<open>A state with no fault pending.\<close>

definition calm :: "'z world_scheme \<Rightarrow> bool" where
  "calm s \<longleftrightarrow> faults s = []"

lemma sys_call_calm [calm_simps]: "calm s \<Longrightarrow> sys_call f s = f s"
  by (simp add: sys_call_def calm_def)

lemma sys_call_fault:
  "faults s = FailBefore e # fs \<Longrightarrow> sys_call f s = (Err e, s\<lparr>faults := fs\<rparr>)"
  "faults s = FailAfter e # fs \<Longrightarrow> sys_call f s = (Err e, snd (f (s\<lparr>faults := fs\<rparr>)))"
  "faults s = NoFault # fs \<Longrightarrow> sys_call f s = f (s\<lparr>faults := fs\<rparr>)"
  by (simp_all add: sys_call_def)

text \<open>
  A predicate that ignores the fault schedule and is kept by the call's effect is kept by the
  call, whatever the environment does.
\<close>

definition fault_free :: "('z world_scheme \<Rightarrow> bool) \<Rightarrow> bool" where
  "fault_free P \<longleftrightarrow> (\<forall>s fs. P (s\<lparr>faults := fs\<rparr>) = P s)"

lemma fault_freeI: "(\<And>s fs. P (s\<lparr>faults := fs\<rparr>) = P s) \<Longrightarrow> fault_free P"
  by (simp add: fault_free_def)

lemma keeps_sys_call [keeps_intros]:
  assumes "fault_free P" and "keeps P f"
  shows "keeps P (sys_call f)"
proof (rule keepsI)
  fix s assume "P s"
  then have "P (s\<lparr>faults := fs\<rparr>)" for fs
    using assms(1) by (simp add: fault_free_def)
  then show "P (snd (sys_call f s))"
    using \<open>P s\<close> assms(2)
    by (auto simp: sys_call_def dest: keepsD split: list.splits fault.splits)
qed

section \<open>Generic lemmas\<close>

lemma unat_Suc_less:
  fixes w v :: "'a::len word"
  assumes "unat w < unat v"
  shows "unat (w + 1) = Suc (unat w)"
proof -
  have "Suc (unat w) < 2 ^ LENGTH('a)"
    using assms unsigned_less [of v, where ?'a = nat] by linarith
  then show ?thesis by (simp add: unat_word_ariths)
qed

lemma filter_all_false: "(\<And>x. x \<in> set xs \<Longrightarrow> \<not> P x) \<Longrightarrow> filter P xs = []"
  by (induction xs) auto

lemma filter_all_true: "(\<And>x. x \<in> set xs \<Longrightarrow> P x) \<Longrightarrow> filter P xs = xs"
  by (induction xs) auto

end
