(* ===== verification/Raft_Types.thy ===== *)
theory Raft_Types
  imports Deeb_Prelude
begin

text \<open>
  The values of the Raft library (\<open>go.etcd.io/etcd/raft/v3/raftpb\<close>) that Deeb stores and passes
  on: log entries, the hard state, the configuration state, snapshots and messages. They are
  data only; the library's code is a parameter of the theories that call it. The second half
  is the abstract Raft log, the specification of what a storage backend keeps: a list of
  entries with consecutive indices.
\<close>

section \<open>Data of the Raft library\<close>

type_synonym bytes = string

datatype entry_type = EntryNormal | EntryConfChange | EntryConfChangeV2

record entry =
  Term :: u64
  Index :: u64
  EType :: entry_type
  Data :: bytes

record hard_state =
  HSTerm :: u64
  Vote :: u64
  Commit :: u64

record conf_state =
  Voters :: "u64 list"
  Learners :: "u64 list"

record snapshot_metadata =
  SMConfState :: conf_state
  SMIndex :: u64
  SMTerm :: u64

record snapshot =
  SData :: bytes
  Metadata :: snapshot_metadata

datatype message_type = MsgSnap | MsgOther nat

record message =
  MType :: message_type
  To :: u64
  From :: u64
  MBody :: bytes

datatype conf_change_type =
  ConfChangeAddNode | ConfChangeRemoveNode | ConfChangeUpdateNode | ConfChangeAddLearnerNode

record conf_change =
  ccID :: u64
  ccType :: conf_change_type
  ccNodeID :: u64
  ccContext :: bytes

definition zero_hard_state :: hard_state where
  "zero_hard_state = \<lparr>HSTerm = 0, Vote = 0, Commit = 0\<rparr>"

definition zero_conf_state :: conf_state where
  "zero_conf_state = \<lparr>Voters = [], Learners = []\<rparr>"

definition zero_snapshot :: snapshot where
  "zero_snapshot = \<lparr>SData = [], Metadata = \<lparr>SMConfState = zero_conf_state, SMIndex = 0, SMTerm = 0\<rparr>\<rparr>"

section \<open>The abstract Raft log\<close>

abbreviation idx :: "entry \<Rightarrow> nat" where
  "idx e \<equiv> unat (Index e)"

text \<open>Consecutive indices.\<close>

fun contig :: "entry list \<Rightarrow> bool" where
  "contig [] = True"
| "contig [e] = True"
| "contig (a # b # es) = (idx b = Suc (idx a) \<and> contig (b # es))"

text \<open>
  The specification of an append: what is stored from the first new index on is
  replaced by the new entries.
\<close>

definition log_append :: "entry list \<Rightarrow> entry list \<Rightarrow> entry list" where
  "log_append l es = (case es of [] \<Rightarrow> l | e # _ \<Rightarrow> filter (\<lambda>x. idx x < idx e) l @ es)"

text \<open>The specification of retention: the \<open>n\<close> newest indices up to \<open>last\<close>, all for \<open>n = 0\<close>.\<close>

definition log_retain :: "u64 \<Rightarrow> u64 \<Rightarrow> entry list \<Rightarrow> entry list" where
  "log_retain n lst l = (if n = 0 then l else filter (\<lambda>x. unat lst < idx x + unat n) l)"

text \<open>New entries fit a log when they start inside it or right behind it.\<close>

definition fits_log :: "entry list \<Rightarrow> entry list \<Rightarrow> bool" where
  "fits_log l es \<longleftrightarrow> contig es \<and> (l = [] \<or> es = [] \<or>
     (idx (hd l) \<le> idx (hd es) \<and> idx (hd es) \<le> Suc (idx (last l))))"

lemma contig_Cons: "contig (e # es) \<longleftrightarrow> (es = [] \<or> idx (hd es) = Suc (idx e)) \<and> contig es"
  by (cases es) auto

lemma contig_append:
  "contig (xs @ ys) \<longleftrightarrow> contig xs \<and> contig ys \<and>
     (xs = [] \<or> ys = [] \<or> idx (hd ys) = Suc (idx (last xs)))"
  by (induction xs) (auto simp: contig_Cons hd_append)

lemma contig_nth: "contig l \<Longrightarrow> i < length l \<Longrightarrow> idx (l ! i) = idx (hd l) + i"
proof (induction l arbitrary: i)
  case Nil
  then show ?case by simp
next
  case (Cons e es)
  then show ?case by (cases i) (auto simp: contig_Cons)
qed

lemma contig_last: "contig l \<Longrightarrow> l \<noteq> [] \<Longrightarrow> Suc (idx (last l)) = idx (hd l) + length l"
  by (simp add: last_conv_nth contig_nth)

lemma contig_idx_range:
  assumes "contig l" and "e \<in> set l"
  shows "idx (hd l) \<le> idx e" and "idx e \<le> idx (last l)"
proof -
  from assms(2) obtain i where i: "i < length l" "e = l ! i"
    by (auto simp: in_set_conv_nth)
  then show "idx (hd l) \<le> idx e" using assms(1) by (simp add: contig_nth)
  have "Suc (idx (last l)) = idx (hd l) + length l"
    using assms(1) i by (intro contig_last) auto
  then show "idx e \<le> idx (last l)" using i assms(1) by (simp add: contig_nth)
qed

lemma contig_mem_iff:
  assumes "contig l" and "l \<noteq> []"
  shows "(\<exists>e \<in> set l. idx e = n) \<longleftrightarrow> idx (hd l) \<le> n \<and> n \<le> idx (last l)"
proof
  assume "\<exists>e \<in> set l. idx e = n"
  then show "idx (hd l) \<le> n \<and> n \<le> idx (last l)"
    using contig_idx_range [OF assms(1)] by auto
next
  assume n: "idx (hd l) \<le> n \<and> n \<le> idx (last l)"
  let ?i = "n - idx (hd l)"
  have "?i < length l" using n contig_last [OF assms] by linarith
  moreover from this have "idx (l ! ?i) = n" using n by (simp add: contig_nth [OF assms(1)])
  ultimately show "\<exists>e \<in> set l. idx e = n" using nth_mem by blast
qed

lemma contig_sorted: "contig l \<Longrightarrow> sorted_wrt (<) (map idx l)"
proof (induction l)
  case Nil
  then show ?case by simp
next
  case (Cons e es)
  then have "\<forall>x \<in> set es. idx e < idx x"
    using contig_idx_range(1) [of es] by (fastforce simp: contig_Cons)
  with Cons show ?case by (auto simp: contig_Cons)
qed

text \<open>Cutting a consecutive log at an index gives a prefix and a suffix.\<close>

lemma contig_filter_less:
  "contig l \<Longrightarrow> filter (\<lambda>x. idx x < n) l = take (n - idx (hd l)) l"
proof (induction l)
  case Nil
  then show ?case by simp
next
  case (Cons e es)
  show ?case
  proof (cases "idx e < n")
    case True
    then have "n - idx e = Suc (n - Suc (idx e))" by simp
    with True Cons show ?thesis by (cases es) (auto simp: contig_Cons)
  next
    case False
    then have "filter (\<lambda>x. idx x < n) (e # es) = []"
      using contig_idx_range(1) [OF Cons.prems] by (intro filter_all_false) fastforce
    with False show ?thesis by simp
  qed
qed

lemma contig_filter_ge:
  "contig l \<Longrightarrow> filter (\<lambda>x. n \<le> idx x) l = drop (n - idx (hd l)) l"
proof (induction l)
  case Nil
  then show ?case by simp
next
  case (Cons e es)
  show ?case
  proof (cases "n \<le> idx e")
    case True
    then have "filter (\<lambda>x. n \<le> idx x) (e # es) = e # es"
      using contig_idx_range(1) [OF Cons.prems] by (intro filter_all_true) fastforce
    with True show ?thesis by simp
  next
    case False
    then have "n - idx e = Suc (n - Suc (idx e))" by simp
    with False Cons show ?thesis by (cases es) (auto simp: contig_Cons)
  qed
qed

lemma contig_take: "contig l \<Longrightarrow> contig (take n l)"
  using contig_append [of "take n l" "drop n l"] by simp

lemma contig_drop: "contig l \<Longrightarrow> contig (drop n l)"
  using contig_append [of "take n l" "drop n l"] by simp

lemma contig_filter_cut [simp]:
  "contig l \<Longrightarrow> contig (filter (\<lambda>x. idx x < n) l)"
  "contig l \<Longrightarrow> contig (filter (\<lambda>x. n \<le> idx x) l)"
  by (simp_all add: contig_filter_less contig_filter_ge contig_take contig_drop)

lemma contig_retain: "contig l \<Longrightarrow> contig (log_retain n lst l)"
proof -
  assume l: "contig l"
  have eq: "filter (\<lambda>x. unat lst < idx x + unat n) l
      = filter (\<lambda>x. Suc (unat lst) - unat n \<le> idx x) l"
    by (rule filter_cong) auto
  show ?thesis using l unfolding log_retain_def eq by simp
qed

text \<open>An append that fits keeps the log consecutive.\<close>

lemma contig_log_append:
  assumes "contig l" and "fits_log l es"
  shows "contig (log_append l es)"
proof (cases es)
  case Nil
  with assms(1) show ?thesis by (simp add: log_append_def)
next
  case (Cons e es')
  let ?k = "idx e - idx (hd l)"
  have pre: "filter (\<lambda>x. idx x < idx e) l = take ?k l"
    using assms(1) by (rule contig_filter_less)
  have "idx e = Suc (idx (last (take ?k l)))" if ne: "take ?k l \<noteq> []"
  proof -
    have l: "l \<noteq> []" and k: "0 < ?k" using ne by auto
    have le: "?k \<le> length l"
      using assms(2) Cons l contig_last [OF assms(1) l] by (auto simp: fits_log_def)
    have "Suc (idx (last (take ?k l))) = idx (hd (take ?k l)) + length (take ?k l)"
      using assms(1) ne by (intro contig_last contig_take)
    also have "\<dots> = idx (hd l) + ?k" using le k by simp
    finally show ?thesis using k by linarith
  qed
  then show ?thesis
    using assms pre Cons by (auto simp: log_append_def contig_append contig_take fits_log_def)
qed

end
