(* ===== verification/Sql_Tables.thy ===== *)
theory Sql_Tables
  imports Raft_Types
begin

text \<open>
  The tables the two backends create and the SQL statements they embed, as operations on
  those tables. A table with a primary key is a list of rows in key order; the statements have
  the relational meaning of their text (\<open>INSERT\<close> refuses a duplicate key, \<open>REPLACE\<close> overwrites it,
  \<open>DELETE\<close> and \<open>UPDATE\<close> act on the rows their \<open>WHERE\<close> selects, \<open>SELECT\<close> filters). What differs
  between SQLite and MySQL (the errors and the width of an integer column) is the parameter
  \<open>dialect\<close>. A statement on a table that was not created fails.
\<close>

section \<open>Tables with a primary key\<close>

fun pk_insert :: "('r \<Rightarrow> 'k::linorder) \<Rightarrow> 'r \<Rightarrow> 'r list \<Rightarrow> 'r list option" where
  "pk_insert key r [] = Some [r]"
| "pk_insert key r (x # xs) =
     (if key r < key x then Some (r # x # xs)
      else if key r = key x then None
      else map_option (Cons x) (pk_insert key r xs))"

fun pk_replace :: "('r \<Rightarrow> 'k::linorder) \<Rightarrow> 'r \<Rightarrow> 'r list \<Rightarrow> 'r list" where
  "pk_replace key r [] = [r]"
| "pk_replace key r (x # xs) =
     (if key r < key x then r # x # xs
      else if key r = key x then r # xs
      else x # pk_replace key r xs)"

definition pk_delete :: "('r \<Rightarrow> bool) \<Rightarrow> 'r list \<Rightarrow> 'r list" where
  "pk_delete P t = filter (\<lambda>r. \<not> P r) t"

definition pk_find :: "('r \<Rightarrow> 'k) \<Rightarrow> 'k \<Rightarrow> 'r list \<Rightarrow> 'r option" where
  "pk_find key k t = find (\<lambda>r. key r = k) t"

definition pk_ok :: "('r \<Rightarrow> 'k::linorder) \<Rightarrow> 'r list \<Rightarrow> bool" where
  "pk_ok key t \<longleftrightarrow> sorted_wrt (<) (map key t)"

lemma pk_ok_simps [simp]:
  "pk_ok key []"
  "pk_ok key (r # t) \<longleftrightarrow> (\<forall>x \<in> set t. key r < key x) \<and> pk_ok key t"
  by (auto simp: pk_ok_def)

lemma pk_ok_filter: "pk_ok key t \<Longrightarrow> pk_ok key (filter P t)"
  by (induction t) auto

lemma pk_ok_delete [simp]: "pk_ok key t \<Longrightarrow> pk_ok key (pk_delete P t)"
  by (simp add: pk_delete_def pk_ok_filter)

lemma pk_insert_None_iff:
  "pk_ok key t \<Longrightarrow> pk_insert key r t = None \<longleftrightarrow> (\<exists>x \<in> set t. key x = key r)"
  by (induction t) force+

lemma set_pk_insert: "pk_insert key r t = Some t' \<Longrightarrow> set t' = insert r (set t)"
  by (induction t arbitrary: t') (auto split: if_splits)

lemma pk_ok_insert: "pk_ok key t \<Longrightarrow> pk_insert key r t = Some t' \<Longrightarrow> pk_ok key t'"
proof (induction t arbitrary: t')
  case Nil
  then show ?case by auto
next
  case (Cons x xs)
  show ?case
  proof (cases "key r < key x")
    case True
    with Cons.prems show ?thesis using less_trans [OF True] by auto
  next
    case False
    with Cons.prems obtain z where z: "pk_insert key r xs = Some z" "t' = x # z" "key x < key r"
      by (auto split: if_splits)
    with Cons.IH Cons.prems have "pk_ok key z" by simp
    moreover have "set z = insert r (set xs)" using z(1) by (rule set_pk_insert)
    ultimately show ?thesis using z Cons.prems by auto
  qed
qed

lemma pk_insert_last:
  "(\<And>x. x \<in> set t \<Longrightarrow> key x < key r) \<Longrightarrow> pk_insert key r t = Some (t @ [r])"
proof (induction t)
  case Nil
  then show ?case by simp
next
  case (Cons x xs)
  then have "\<not> key r < key x" and "key r \<noteq> key x" by fastforce+
  with Cons show ?case by simp
qed

lemma set_pk_replace:
  "pk_ok key t \<Longrightarrow> set (pk_replace key r t) = insert r {x \<in> set t. key x \<noteq> key r}"
  by (induction t) force+

lemma pk_ok_replace [simp]: "pk_ok key t \<Longrightarrow> pk_ok key (pk_replace key r t)"
  by (induction t) (auto simp: set_pk_replace)

lemma pk_find_Some_iff:
  "pk_ok key t \<Longrightarrow> pk_find key k t = Some r \<longleftrightarrow> r \<in> set t \<and> key r = k"
  unfolding pk_find_def by (induction t) force+

lemma pk_find_None_iff: "pk_find key k t = None \<longleftrightarrow> (\<forall>x \<in> set t. key x \<noteq> k)"
  by (auto simp: pk_find_def find_None_iff)

lemma pk_find_replace:
  assumes "pk_ok key t"
  shows "pk_find key k (pk_replace key r t) = (if k = key r then Some r else pk_find key k t)"
  using assms unfolding pk_find_def by (induction t) (auto simp: find_None_iff)

lemma pk_find_delete:
  assumes "pk_ok key t"
  shows "pk_find key k (pk_delete (\<lambda>r. key r = d) t) = (if k = d then None else pk_find key k t)"
  using assms unfolding pk_find_def pk_delete_def by (induction t) (auto simp: find_None_iff)

section \<open>The tables\<close>

text \<open>
  \<open>state\<close>: one row (rowid or id 1) with the applied term and index, the Raft hard state and the
  marshalled configuration state. \<open>entries\<close>: the Raft log. \<open>peers\<close>: the known nodes.
\<close>

record state_row =
  row_id :: int
  row_idx :: u64
  row_term :: u64
  hardstate_term :: u64
  hardstate_vote :: u64
  hardstate_commit :: u64
  confstate :: "bytes option"

record peer_info =
  NodeID :: u64
  Addr :: string
  Port :: string

record 'u tables = world +
  state_tbl :: "state_row list option"
  entries_tbl :: "entry list option"
  peers_tbl :: "peer_info list option"
  user_db :: 'u

record dialect =
  err_dup :: goerr
  err_no_table :: goerr
  err_range :: goerr
  int_max :: nat

definition fits :: "dialect \<Rightarrow> u64 list \<Rightarrow> bool" where
  "fits d vs \<longleftrightarrow> list_all (\<lambda>v. unat v \<le> int_max d) vs"

section \<open>Statements on the tables\<close>

definition create_state :: "('u, 'z) tables_scheme \<Rightarrow> unit res \<times> ('u, 'z) tables_scheme" where
  "create_state s = (Ok (), case state_tbl s of None \<Rightarrow> s\<lparr>state_tbl := Some []\<rparr> | Some _ \<Rightarrow> s)"

definition create_entries :: "('u, 'z) tables_scheme \<Rightarrow> unit res \<times> ('u, 'z) tables_scheme" where
  "create_entries s = (Ok (), case entries_tbl s of None \<Rightarrow> s\<lparr>entries_tbl := Some []\<rparr> | Some _ \<Rightarrow> s)"

definition create_peers :: "('u, 'z) tables_scheme \<Rightarrow> unit res \<times> ('u, 'z) tables_scheme" where
  "create_peers s = (Ok (), case peers_tbl s of None \<Rightarrow> s\<lparr>peers_tbl := Some []\<rparr> | Some _ \<Rightarrow> s)"

definition state_query :: "dialect \<Rightarrow> (state_row list \<Rightarrow> 'a res) \<Rightarrow> (('u, 'z) tables_scheme, 'a) op" where
  "state_query d q s = (case state_tbl s of None \<Rightarrow> (Err (err_no_table d), s) | Some t \<Rightarrow> (q t, s))"

definition count_state :: "dialect \<Rightarrow> (('u, 'z) tables_scheme, nat) op" where
  "count_state d = state_query d (\<lambda>t. Ok (length t))"

text \<open>\<open>INSERT INTO state (..., idx, term, hardstate_*) VALUES (..., 0, 0, 0, 0, 0)\<close>\<close>

definition first_row :: "state_row" where
  "first_row = \<lparr>row_id = 1, row_idx = 0, row_term = 0, hardstate_term = 0,
     hardstate_vote = 0, hardstate_commit = 0, confstate = None\<rparr>"

definition insert_state :: "dialect \<Rightarrow> (('u, 'z) tables_scheme, unit) op" where
  "insert_state d s = (case state_tbl s of
      None \<Rightarrow> (Err (err_no_table d), s)
    | Some t \<Rightarrow> (case pk_insert row_id first_row t of
          None \<Rightarrow> (Err (err_dup d), s)
        | Some t' \<Rightarrow> (Ok (), s\<lparr>state_tbl := Some t'\<rparr>)))"

text \<open>\<open>UPDATE state SET ... WHERE rowid = 1\<close>: no error when no row matches.\<close>

definition update_state ::
  "dialect \<Rightarrow> u64 list \<Rightarrow> (state_row \<Rightarrow> state_row) \<Rightarrow> (('u, 'z) tables_scheme, unit) op" where
  "update_state d vs f s = (case state_tbl s of
      None \<Rightarrow> (Err (err_no_table d), s)
    | Some t \<Rightarrow>
        if \<not> fits d vs \<and> list_ex (\<lambda>r. row_id r = 1) t then (Err (err_range d), s)
        else (Ok (), s\<lparr>state_tbl := Some (map (\<lambda>r. if row_id r = 1 then f r else r) t)\<rparr>))"

text \<open>\<open>SELECT ... FROM state WHERE rowid = 1\<close> scanned as one row.\<close>

definition select_state :: "dialect \<Rightarrow> (state_row \<Rightarrow> 'a) \<Rightarrow> (('u, 'z) tables_scheme, 'a) op" where
  "select_state d f = state_query d (\<lambda>t.
     case find (\<lambda>r. row_id r = 1) t of None \<Rightarrow> Err ENoRows | Some r \<Rightarrow> Ok (f r))"

definition entries_query :: "dialect \<Rightarrow> (entry list \<Rightarrow> 'a res) \<Rightarrow> (('u, 'z) tables_scheme, 'a) op" where
  "entries_query d q s = (case entries_tbl s of None \<Rightarrow> (Err (err_no_table d), s) | Some t \<Rightarrow> (q t, s))"

text \<open>\<open>INSERT INTO entries (idx, term, type, data) VALUES (?,?,?,?)\<close>; returns the rows affected.\<close>

definition insert_entry :: "dialect \<Rightarrow> entry \<Rightarrow> (('u, 'z) tables_scheme, nat) op" where
  "insert_entry d e s = (case entries_tbl s of
      None \<Rightarrow> (Err (err_no_table d), s)
    | Some t \<Rightarrow>
        if \<not> fits d [Index e, Term e] then (Err (err_range d), s)
        else (case pk_insert Index e t of
            None \<Rightarrow> (Err (err_dup d), s)
          | Some t' \<Rightarrow> (Ok 1, s\<lparr>entries_tbl := Some t'\<rparr>)))"

definition delete_entries :: "dialect \<Rightarrow> (entry \<Rightarrow> bool) \<Rightarrow> (('u, 'z) tables_scheme, unit) op" where
  "delete_entries d P s = (case entries_tbl s of
      None \<Rightarrow> (Err (err_no_table d), s)
    | Some t \<Rightarrow> (Ok (), s\<lparr>entries_tbl := Some (pk_delete P t)\<rparr>))"

text \<open>\<open>DELETE FROM entries WHERE idx >= ?\<close>\<close>

definition delete_from :: "dialect \<Rightarrow> u64 \<Rightarrow> (('u, 'z) tables_scheme, unit) op" where
  "delete_from d i = delete_entries d (\<lambda>e. i \<le> Index e)"

text \<open>\<open>DELETE FROM entries WHERE idx + ? <= ?\<close>, the sum taken in the database without wrap-around.\<close>

definition delete_old :: "dialect \<Rightarrow> u64 \<Rightarrow> u64 \<Rightarrow> (('u, 'z) tables_scheme, unit) op" where
  "delete_old d n lastIdx = delete_entries d (\<lambda>e. unat (Index e) + unat n \<le> unat lastIdx)"

text \<open>
  \<open>SELECT idx, term, type, data FROM entries WHERE idx >= ? AND idx < ? ORDER BY idx ASC [LIMIT ?]\<close>
\<close>

definition select_range :: "dialect \<Rightarrow> u64 \<Rightarrow> u64 \<Rightarrow> u64 option \<Rightarrow> (('u, 'z) tables_scheme, entry list) op" where
  "select_range d lo hi lim = entries_query d (\<lambda>t.
     let rs = filter (\<lambda>e. lo \<le> Index e \<and> Index e < hi) t
     in Ok (case lim of None \<Rightarrow> rs | Some n \<Rightarrow> take (unat n) rs))"

text \<open>\<open>SELECT term FROM entries WHERE idx = ?\<close>\<close>

definition select_term :: "dialect \<Rightarrow> u64 \<Rightarrow> (('u, 'z) tables_scheme, u64) op" where
  "select_term d i = entries_query d (\<lambda>t.
     case pk_find Index i t of None \<Rightarrow> Err ENoRows | Some e \<Rightarrow> Ok (Term e))"

text \<open>\<open>SELECT ifnull(max(idx),0) FROM entries\<close> and \<open>SELECT ifnull(min(idx),1) FROM entries\<close>\<close>

definition select_max :: "dialect \<Rightarrow> (('u, 'z) tables_scheme, u64) op" where
  "select_max d = entries_query d (\<lambda>t. Ok (if t = [] then 0 else fold max (map Index t) 0))"

definition select_min :: "dialect \<Rightarrow> (('u, 'z) tables_scheme, u64) op" where
  "select_min d = entries_query d (\<lambda>t. Ok (case t of [] \<Rightarrow> 1 | e # es \<Rightarrow> fold min (map Index es) (Index e)))"

definition peers_query :: "dialect \<Rightarrow> (peer_info list \<Rightarrow> 'a res) \<Rightarrow> (('u, 'z) tables_scheme, 'a) op" where
  "peers_query d q s = (case peers_tbl s of None \<Rightarrow> (Err (err_no_table d), s) | Some t \<Rightarrow> (q t, s))"

text \<open>\<open>SELECT nodeid, address, port FROM peers\<close>\<close>

definition select_peers :: "dialect \<Rightarrow> (('u, 'z) tables_scheme, peer_info list) op" where
  "select_peers d = peers_query d Ok"

text \<open>\<open>SELECT nodeid FROM peers WHERE address = ? AND port = ?\<close>: the first row, if any.\<close>

definition select_peer_at :: "dialect \<Rightarrow> string \<Rightarrow> string \<Rightarrow> (('u, 'z) tables_scheme, u64 option) op" where
  "select_peer_at d a p = peers_query d (\<lambda>t.
     Ok (map_option NodeID (find (\<lambda>r. Addr r = a \<and> Port r = p) t)))"

text \<open>\<open>REPLACE INTO peers (nodeid, address, port) VALUES (?,?,?)\<close>\<close>

definition replace_peer :: "dialect \<Rightarrow> peer_info \<Rightarrow> (('u, 'z) tables_scheme, unit) op" where
  "replace_peer d pi s = (case peers_tbl s of
      None \<Rightarrow> (Err (err_no_table d), s)
    | Some t \<Rightarrow>
        if \<not> fits d [NodeID pi] then (Err (err_range d), s)
        else (Ok (), s\<lparr>peers_tbl := Some (pk_replace NodeID pi t)\<rparr>))"

text \<open>\<open>DELETE FROM peers WHERE nodeid = ?\<close>\<close>

definition delete_peer :: "dialect \<Rightarrow> u64 \<Rightarrow> (('u, 'z) tables_scheme, unit) op" where
  "delete_peer d n s = (case peers_tbl s of
      None \<Rightarrow> (Err (err_no_table d), s)
    | Some t \<Rightarrow> (Ok (), s\<lparr>peers_tbl := Some (pk_delete (\<lambda>r. NodeID r = n) t)\<rparr>))"

lemmas query_defs = state_query_def entries_query_def peers_query_def
lemmas state_stmts = create_state_def count_state_def insert_state_def update_state_def select_state_def
lemmas entry_stmts = create_entries_def insert_entry_def delete_entries_def delete_from_def delete_old_def
  select_range_def select_term_def select_max_def select_min_def
lemmas peer_stmts = create_peers_def select_peers_def select_peer_at_def replace_peer_def delete_peer_def
lemmas stmt_defs = query_defs state_stmts entry_stmts peer_stmts

text \<open>
  \<open>for rows.Next() { rows.Scan(...) }\<close>: each row costs a call. When fetching the next row fails,
  \<open>Next\<close> returns false and the loop ends as if the rows were exhausted (the code never consults
  \<open>rows.Err()\<close>); when the scan fails, the loop returns the wrapped error.
\<close>

fun read_rows :: "string \<Rightarrow> 'r list \<Rightarrow> ('z world_scheme, 'r list) op" where
  "read_rows msg [] s = (Ok [], s)"
| "read_rows msg (r # rs) s = (case faults s of
      FailBefore e # fs \<Rightarrow> (Ok [], s\<lparr>faults := fs\<rparr>)
    | FailAfter e # fs \<Rightarrow> (Err (EWrap e msg), s\<lparr>faults := fs\<rparr>)
    | NoFault # fs \<Rightarrow> op_bind (read_rows msg rs) (\<lambda>xs. op_ret (r # xs)) (s\<lparr>faults := fs\<rparr>)
    | [] \<Rightarrow> op_bind (read_rows msg rs) (\<lambda>xs. op_ret (r # xs)) s)"

lemma read_rows_calm [calm_simps]: "calm s \<Longrightarrow> read_rows msg rs s = (Ok rs, s)"
  by (induction rs) (simp_all add: calm_def op_defs)

lemma keeps_read_rows [keeps_intros]:
  assumes "fault_free P"
  shows "keeps P (read_rows msg rs)"
proof (rule keepsI)
  fix s assume "P s"
  then show "P (snd (read_rows msg rs s))"
  proof (induction rs arbitrary: s)
    case (Cons r rs)
    have f: "P (s\<lparr>faults := fs\<rparr>)" for fs
      using Cons.prems assms by (simp add: fault_free_def)
    have "P (snd (op_bind (read_rows msg rs) (\<lambda>xs. op_ret (r # xs)) u))" if "P u" for u
      using Cons.IH [OF that] by (auto simp: op_defs split: prod.splits res.splits)
    with f Cons.prems show ?case by (auto split: list.splits fault.splits)
  qed simp
qed

text \<open>What a loop over rows yields is a prefix of the rows.\<close>

lemma read_rows_prefix:
  "read_rows msg rs s = (Ok xs, t) \<Longrightarrow> \<exists>n. xs = take n rs"
proof (induction rs arbitrary: s xs)
  case (Cons r rs)
  have rest: "\<exists>n. xs = take n (r # rs)"
    if bind: "op_bind (read_rows msg rs) (\<lambda>xs. op_ret (r # xs)) u = (Ok xs, t)" for u
  proof -
    from bind obtain ys where ys: "read_rows msg rs u = (Ok ys, t)" "xs = r # ys"
      by (auto simp: op_bind_Ok_iff op_ret_def)
    from Cons.IH [OF ys(1)] obtain n where "ys = take n rs" ..
    then have "xs = take (Suc n) (r # rs)" using ys(2) by simp
    then show ?thesis by blast
  qed
  from Cons.prems rest show ?case
    by (auto split: list.splits fault.splits intro: exI [of _ 0])
qed auto

section \<open>Invariants of the tables\<close>

text \<open>Keys are unique and in order in every table that exists.\<close>

definition tables_ok :: "('u, 'z) tables_scheme \<Rightarrow> bool" where
  "tables_ok s \<longleftrightarrow> (\<forall>t. state_tbl s = Some t \<longrightarrow> pk_ok row_id t)
     \<and> (\<forall>t. entries_tbl s = Some t \<longrightarrow> pk_ok Index t)
     \<and> (\<forall>t. peers_tbl s = Some t \<longrightarrow> pk_ok NodeID t)"

text \<open>The Raft log is consecutive.\<close>

definition log_ok :: "('u, 'z) tables_scheme \<Rightarrow> bool" where
  "log_ok s \<longleftrightarrow> (\<forall>t. entries_tbl s = Some t \<longrightarrow> contig t)"

lemma fault_free_tables_ok [keeps_intros, simp]: "fault_free tables_ok"
  by (rule fault_freeI) (simp add: tables_ok_def)

lemma fault_free_log_ok [keeps_intros, simp]: "fault_free log_ok"
  by (rule fault_freeI) (simp add: log_ok_def)

lemma pk_ok_Index_iff: "pk_ok Index t \<longleftrightarrow> sorted_wrt (<) (map idx t)"
  by (simp add: pk_ok_def sorted_wrt_map word_less_nat_alt)

lemma contig_pk_ok: "contig t \<Longrightarrow> pk_ok Index t"
  by (simp add: pk_ok_Index_iff contig_sorted)

lemma pk_ok_map_update:
  "pk_ok row_id t \<Longrightarrow> (\<And>r. row_id (f r) = row_id r) \<Longrightarrow>
   pk_ok row_id (map (\<lambda>r. if row_id r = 1 then f r else r) t)"
proof -
  assume "pk_ok row_id t" and f: "\<And>r. row_id (f r) = row_id r"
  moreover have "map row_id (map (\<lambda>r. if row_id r = 1 then f r else r) t) = map row_id t"
    using f by auto
  ultimately show ?thesis by (simp only: pk_ok_def)
qed

text \<open>Statements keep the tables' keys in order, whatever their outcome.\<close>

lemma keeps_tables_ok_stmts [keeps_intros]:
  "keeps tables_ok create_state" "keeps tables_ok create_entries" "keeps tables_ok create_peers"
  "keeps tables_ok (count_state d)" "keeps tables_ok (insert_state d)"
  "keeps tables_ok (select_state d g)" "keeps tables_ok (insert_entry d e)"
  "keeps tables_ok (delete_from d i)" "keeps tables_ok (delete_old d n k)"
  "keeps tables_ok (select_range d lo hi lim)" "keeps tables_ok (select_term d i)"
  "keeps tables_ok (select_max d)" "keeps tables_ok (select_min d)"
  "keeps tables_ok (select_peers d)" "keeps tables_ok (select_peer_at d a p)"
  "keeps tables_ok (replace_peer d pi)" "keeps tables_ok (delete_peer d n)"
  by (auto intro!: keepsI simp: stmt_defs tables_ok_def split: option.splits)
    (erule pk_ok_insert, assumption)+

lemma keeps_tables_ok_update_state [keeps_intros]:
  "(\<And>r. row_id (f r) = row_id r) \<Longrightarrow> keeps tables_ok (update_state d vs f)"
  by (auto intro!: keepsI pk_ok_map_update simp: stmt_defs tables_ok_def split: option.splits)

text \<open>Statements on the other tables leave the log alone.\<close>

lemma keeps_entries_stmts [keeps_intros]:
  "keeps (\<lambda>s. entries_tbl s = c) create_state" "keeps (\<lambda>s. entries_tbl s = c) create_peers"
  "keeps (\<lambda>s. entries_tbl s = c) (count_state d)" "keeps (\<lambda>s. entries_tbl s = c) (insert_state d)"
  "keeps (\<lambda>s. entries_tbl s = c) (update_state d vs f)"
  "keeps (\<lambda>s. entries_tbl s = c) (select_state d g)"
  "keeps (\<lambda>s. entries_tbl s = c) (select_peers d)"
  "keeps (\<lambda>s. entries_tbl s = c) (select_peer_at d a p)"
  "keeps (\<lambda>s. entries_tbl s = c) (replace_peer d pi)"
  "keeps (\<lambda>s. entries_tbl s = c) (delete_peer d n)"
  by (auto intro!: keepsI simp: stmt_defs split: option.splits)

text \<open>The smallest and the largest key.\<close>

lemma fold_max_sorted:
  "pk_ok Index t \<Longrightarrow> t \<noteq> [] \<Longrightarrow> fold max (map Index t) a = max a (Index (last t))"
proof (induction t arbitrary: a)
  case Nil
  then show ?case by simp
next
  case (Cons e es)
  show ?case
  proof (cases es)
    case Nil
    then show ?thesis by (simp add: max.commute)
  next
    case (Cons e' es')
    then have "Index e < Index (last es)"
      using Cons.prems by auto
    then have "max (max (Index e) a) (Index (last es)) = max a (Index (last es))"
      by (subst max.commute [of "Index e"]) (simp add: max.assoc max.absorb2)
    with Cons.IH [of "max (Index e) a"] Cons.prems \<open>es = e' # es'\<close> show ?thesis
      by simp
  qed
qed

lemma fold_min_sorted: "(\<And>x. x \<in> set t \<Longrightarrow> a < Index x) \<Longrightarrow> fold min (map Index t) a = a"
proof (induction t)
  case Nil
  then show ?case by simp
next
  case (Cons e es)
  then have "a < Index e" by simp
  then have "min (Index e) a = a" by (simp add: min.absorb2)
  with Cons show ?case by simp
qed

lemma select_max_eq:
  "pk_ok Index t \<Longrightarrow> entries_tbl s = Some t \<Longrightarrow>
   select_max d s = (Ok (if t = [] then 0 else Index (last t)), s)"
  by (simp add: entry_stmts query_defs fold_max_sorted)

lemma select_min_eq:
  "pk_ok Index t \<Longrightarrow> entries_tbl s = Some t \<Longrightarrow>
   select_min d s = (Ok (if t = [] then 1 else Index (hd t)), s)"
  by (cases t) (auto simp: entry_stmts query_defs fold_min_sorted)

end
