(* ===== verification/Backend_Interface.thy ===== *)
theory Backend_Interface
  imports Sql_Tables
begin

text \<open>
  What the two backends share: database handles, the third-party code they call (as a record of
  parameters), and the contracts other components rely on, stated as locales over the operations
  of a backend.
\<close>

section \<open>Database handles\<close>

text \<open>A \<open>*sql.DB\<close> field: nil, open, or closed.\<close>

datatype handle = HNil | HOpen | HClosed

text \<open>A method call through a nil pointer.\<close>

definition nil_deref :: goerr where
  "nil_deref = EDriver ''invalid memory address or nil pointer dereference''"

definition db_closed :: goerr where
  "db_closed = EDriver ''sql: database is closed''"

text \<open>A statement through a handle: nil panics, a closed handle fails, an open one reaches the server.\<close>

definition with_handle :: "('z world_scheme \<Rightarrow> handle) \<Rightarrow> ('z world_scheme, 'a) op \<Rightarrow> ('z world_scheme, 'a) op" where
  "with_handle h m s = (case h s of
      HNil \<Rightarrow> (Panic nil_deref, s)
    | HClosed \<Rightarrow> (Err db_closed, s)
    | HOpen \<Rightarrow> sys_call m s)"

text \<open>\<open>handle.Close()\<close> under \<open>if handle != nil\<close>.\<close>

fun close_handle :: "handle \<Rightarrow> handle" where
  "close_handle HNil = HNil"
| "close_handle _ = HClosed"

lemma keeps_with_handle [keeps_intros]:
  "fault_free P \<Longrightarrow> keeps P m \<Longrightarrow> keeps P (with_handle h m)"
  using keeps_sys_call [of P m] by (auto simp: keeps_def with_handle_def split: handle.splits)

lemma with_handle_calm [calm_simps]:
  "h s = HOpen \<Longrightarrow> calm s \<Longrightarrow> with_handle h m s = m s"
  by (simp add: with_handle_def sys_call_calm)

lemma with_handle_Ok:
  assumes "with_handle h m s = (Ok x, t)"
  shows "\<exists>fs. m (s\<lparr>faults := fs\<rparr>) = (Ok x, t)"
proof -
  have eq: "s\<lparr>faults := faults s\<rparr> = s" by simp
  show ?thesis
  proof (cases "faults s")
    case Nil
    then have "m s = (Ok x, t)"
      using assms by (auto simp: with_handle_def sys_call_def split: handle.splits)
    with eq have "m (s\<lparr>faults := faults s\<rparr>) = (Ok x, t)" by argo
    then show ?thesis by blast
  next
    case (Cons f fs)
    then show ?thesis
      using assms by (auto simp: with_handle_def sys_call_def split: handle.splits fault.splits)
  qed
qed

section \<open>Third-party code the backends call\<close>

text \<open>
  The generated (un)marshalling of \<open>raftpb.ConfState\<close>, and what the database engine makes of the
  application's own SQL: \<open>user_exec q u\<close> runs \<open>q\<close> on the application's data \<open>u\<close> and yields the
  engine's error, if any, and the data afterwards; \<open>user_query\<close> reads it.
\<close>

record ('u, 'q) engine =
  cs_marshal :: "conf_state \<Rightarrow> goerr + bytes"
  cs_unmarshal :: "bytes \<Rightarrow> goerr + conf_state"
  user_exec :: "string \<Rightarrow> 'u \<Rightarrow> goerr option \<times> 'u"
  user_query :: "string \<Rightarrow> 'u \<Rightarrow> goerr + 'q"

text \<open>The round trip of the marshaller the backends rely on; the marshalled form of a state is not empty.\<close>

definition cs_codec_ok :: "('u, 'q, 'e) engine_scheme \<Rightarrow> conf_state \<Rightarrow> bool" where
  "cs_codec_ok X cs \<longleftrightarrow> (\<exists>b. cs_marshal X cs = Inr b \<and> b \<noteq> [] \<and> cs_unmarshal X b = Inr cs)"

text \<open>Running the application's statement against its data.\<close>

definition run_user :: "('u, 'q, 'e) engine_scheme \<Rightarrow> string \<Rightarrow> (('u, 'z) tables_scheme, unit) op" where
  "run_user X q s = (case user_exec X q (user_db s) of
      (None, u) \<Rightarrow> (Ok (), s\<lparr>user_db := u\<rparr>)
    | (Some e, u) \<Rightarrow> (Err e, s\<lparr>user_db := u\<rparr>))"

section \<open>The interface DBBackend\<close>

text \<open>
  The Go interface a node calls its backend through (\<open>internal/backend/interface.go\<close>), as the record
  of the operations an implementation provides, over its state \<open>'b\<close>; \<open>'q\<close> are the rows of a query.
\<close>

record ('b, 'q) db_backend =
  be_Start :: "('b, unit) op"
  be_Stop :: "('b, unit) op"
  be_AppendEntries :: "entry list \<Rightarrow> ('b, unit) op"
  be_SaveApplied :: "u64 \<Rightarrow> u64 \<Rightarrow> ('b, unit) op"
  be_GetAppliedIndex :: "('b, u64) op"
  be_SaveHardState :: "hard_state \<Rightarrow> ('b, unit) op"
  be_SaveConfState :: "conf_state \<Rightarrow> ('b, unit) op"
  be_SaveSnapshot :: "snapshot \<Rightarrow> ('b, u64) op"
  be_RemoveSavedSnapshot :: "u64 \<Rightarrow> ('b, unit) op"
  be_ApplySnapshot :: "snapshot \<Rightarrow> ('b, unit) op"
  be_LoadPeers :: "('b, peer_info list) op"
  be_UpsertPeer :: "peer_info \<Rightarrow> ('b, u64) op"
  be_RemovePeer :: "u64 \<Rightarrow> ('b, unit) op"
  be_ExecSQL :: "u64 \<Rightarrow> u64 \<Rightarrow> string \<Rightarrow> ('b, unit) op"
  be_QuerySQL :: "string \<Rightarrow> ('b, 'q) op"

section \<open>Operations that leave a part of the state alone\<close>

text \<open>
  \<open>leaves up v m\<close>: on a state that is \<open>up\<close>, \<open>m\<close> does not panic, and whether it returns or fails the
  state is still \<open>up\<close> and its view \<open>v\<close> is what it was.
\<close>

definition leaves :: "('b \<Rightarrow> bool) \<Rightarrow> ('b \<Rightarrow> 'v) \<Rightarrow> ('b, 'a) op \<Rightarrow> bool" where
  "leaves up v m \<longleftrightarrow> (\<forall>b. up b \<longrightarrow> (\<forall>e. fst (m b) \<noteq> Panic e) \<and> up (snd (m b)) \<and> v (snd (m b)) = v b)"

lemma leavesI:
  "(\<And>b. up b \<Longrightarrow> (\<forall>e. fst (m b) \<noteq> Panic e) \<and> up (snd (m b)) \<and> v (snd (m b)) = v b) \<Longrightarrow> leaves up v m"
  by (simp add: leaves_def)

lemma leavesD:
  "leaves up v m \<Longrightarrow> up b \<Longrightarrow> m b = (r, b') \<Longrightarrow> (\<forall>e. r \<noteq> Panic e) \<and> up b' \<and> v b' = v b"
  by (force simp: leaves_def)

named_theorems leaves_intros \<open>rules that an operation does not panic and leaves a view of the state alone\<close>

lemma leaves_ret [leaves_intros]: "leaves up v (op_ret x)"
  by (simp add: leaves_def op_ret_def)

lemma leaves_err [leaves_intros]: "leaves up v (op_err e)"
  by (simp add: leaves_def op_err_def)

lemma leaves_get [leaves_intros]: "leaves up v (op_get g)"
  by (simp add: leaves_def op_get_def)

lemma leaves_mod [leaves_intros]:
  "(\<And>s. up s \<Longrightarrow> up (g s)) \<Longrightarrow> (\<And>s. v (g s) = v s) \<Longrightarrow> leaves up v (op_mod g)"
  by (simp add: leaves_def op_mod_def)

lemma leaves_bind [leaves_intros]:
  assumes "leaves up v m" and "\<And>x. leaves up v (f x)"
  shows "leaves up v (op_bind m f)"
proof (rule leavesI)
  fix b assume b: "up b"
  obtain r b1 where m: "m b = (r, b1)" by fastforce
  from leavesD [OF assms(1) b m] have b1: "\<forall>e. r \<noteq> Panic e" "up b1" "v b1 = v b" by auto
  then show "(\<forall>e. fst (op_bind m f b) \<noteq> Panic e) \<and> up (snd (op_bind m f b)) \<and> v (snd (op_bind m f b)) = v b"
    using m assms(2) by (cases r) (auto simp: op_bind_def leaves_def)
qed

lemma leaves_wrap [leaves_intros]: "leaves up v m \<Longrightarrow> leaves up v (wrap_err msg m)"
  by (force simp: leaves_def wrap_err_def split: prod.splits res.splits)

lemma leaves_attempt [leaves_intros]: "leaves up v m \<Longrightarrow> leaves up v (attempt m)"
  by (force simp: leaves_def attempt_def split: prod.splits res.splits)

lemma leaves_ignore [leaves_intros]: "leaves up v m \<Longrightarrow> leaves up v (ignore_err m)"
  unfolding ignore_err_def by (intro leaves_intros)

lemma leaves_if [leaves_intros]:
  "(c \<Longrightarrow> leaves up v m) \<Longrightarrow> (\<not> c \<Longrightarrow> leaves up v m') \<Longrightarrow> leaves up v (if c then m else m')"
  by simp

lemma leaves_case_option [leaves_intros]:
  "leaves up v m \<Longrightarrow> (\<And>x. leaves up v (g x)) \<Longrightarrow> leaves up v (case r of None \<Rightarrow> m | Some x \<Rightarrow> g x)"
  by (cases r) auto

lemma leaves_case_sum [leaves_intros]:
  "(\<And>e. leaves up v (f e)) \<Longrightarrow> (\<And>x. leaves up v (g x)) \<Longrightarrow> leaves up v (case r of Inl e \<Rightarrow> f e | Inr x \<Rightarrow> g x)"
  by (cases r) auto

lemma leaves_sys_call:
  assumes "\<And>s fs. up (s\<lparr>faults := fs\<rparr>) = up s" and "\<And>s fs. v (s\<lparr>faults := fs\<rparr>) = v s"
    and m: "leaves up v m"
  shows "leaves up v (sys_call m)"
proof (rule leavesI)
  fix b assume b: "up b"
  have "(\<forall>e. fst (m (b\<lparr>faults := fs\<rparr>)) \<noteq> Panic e) \<and> up (snd (m (b\<lparr>faults := fs\<rparr>)))
      \<and> v (snd (m (b\<lparr>faults := fs\<rparr>))) = v b" for fs
    using m b assms(1,2) unfolding leaves_def by metis
  moreover have "(\<forall>e. fst (m b) \<noteq> Panic e) \<and> up (snd (m b)) \<and> v (snd (m b)) = v b"
    using m b unfolding leaves_def by blast
  ultimately show "(\<forall>e. fst (sys_call m b) \<noteq> Panic e) \<and> up (snd (sys_call m b)) \<and> v (snd (sys_call m b)) = v b"
    using b assms(1,2) by (simp add: sys_call_def split: list.splits fault.splits)
qed

lemma leaves_foreach [leaves_intros]:
  "(\<And>x. leaves up v (f x)) \<Longrightarrow> leaves up v (op_foreach f xs)"
  by (induction xs) (auto intro: leaves_intros)

text \<open>The applied index a backend has on record.\<close>

definition sq_applied :: "('u, 'z) tables_scheme \<Rightarrow> u64" where
  "sq_applied s = (case state_tbl s of Some (r # _) \<Rightarrow> row_idx r | _ \<Rightarrow> 0)"

section \<open>Contract: a backend that executes committed statements\<close>

text \<open>
  What a node relies on when it applies committed writes: on a backend that is \<open>up\<close>, a statement
  the engine accepts changes the data as the engine does and records the index; a statement the
  engine refuses comes back as a \<open>DBError\<close> with the engine's error and records nothing; what a node
  stores of the log, of the Raft state and of its membership leaves the data and the applied index alone.
\<close>

locale sql_backend =
  fixes B :: "('b, 'q) db_backend"
    and up :: "'b \<Rightarrow> bool"
    and data :: "'b \<Rightarrow> 'u"
    and applied :: "'b \<Rightarrow> u64"
    and exec :: "string \<Rightarrow> 'u \<Rightarrow> goerr option \<times> 'u"
    and can_store :: "u64 \<Rightarrow> bool"
    and db_err :: "goerr \<Rightarrow> bool"
  assumes exec_done: "up b \<Longrightarrow> can_store trm \<Longrightarrow> can_store ix \<Longrightarrow> exec q (data b) = (None, u) \<Longrightarrow>
      \<exists>b'. be_ExecSQL B trm ix q b = (Ok (), b') \<and> up b' \<and> data b' = u \<and> applied b' = ix"
    and exec_refused: "up b \<Longrightarrow> can_store trm \<Longrightarrow> can_store ix \<Longrightarrow> exec q (data b) = (Some e, u) \<Longrightarrow> db_err e \<Longrightarrow>
      \<exists>b'. be_ExecSQL B trm ix q b = (Err (EDBError e), b') \<and> up b' \<and> data b' = u \<and> applied b' = applied b"
    and conf_leaves: "leaves up (\<lambda>b. (data b, applied b)) (be_SaveConfState B cs)"
    and append_leaves: "leaves up (\<lambda>b. (data b, applied b)) (be_AppendEntries B es)"
    and hard_leaves: "leaves up (\<lambda>b. (data b, applied b)) (be_SaveHardState B hs)"
    and upsert_leaves: "leaves up (\<lambda>b. (data b, applied b)) (be_UpsertPeer B p)"
    and remove_leaves: "leaves up (\<lambda>b. (data b, applied b)) (be_RemovePeer B n)"

section \<open>Contract: a backend whose snapshots can be restored\<close>

text \<open>
  \<open>carries src snap\<close>: the snapshot stands for the data of the backend \<open>src\<close>, by its content or by a reference.
  Restoring it on another backend brings that backend to the data and the applied index of \<open>src\<close>, which is at least the
  index the metadata names.
\<close>

locale snapshot_backend = sql_backend B up data applied exec can_store db_err
  for B :: "('b, 'q) db_backend" and up and data :: "'b \<Rightarrow> 'u" and applied and exec and can_store and db_err +
  fixes carries :: "'b \<Rightarrow> snapshot \<Rightarrow> bool"
  assumes restore: "up src \<Longrightarrow> carries src snap \<Longrightarrow> up b \<Longrightarrow>
      \<exists>b'. be_ApplySnapshot B snap b = (Ok (), b') \<and> up b' \<and> data b' = data src \<and> applied b' = applied src"
    and carried_index: "up src \<Longrightarrow> carries src snap \<Longrightarrow> SMIndex (Metadata snap) \<le> applied src"
    and read_applied: "up b \<Longrightarrow> be_GetAppliedIndex B b = (Ok (applied b), b)"
    and save_snap: "\<exists>h. be_SaveSnapshot B snap b = (Ok h, b)"
    and drop_snap: "leaves up (\<lambda>b. (data b, applied b)) (be_RemoveSavedSnapshot B h)"
    and query_leaves: "leaves up (\<lambda>b. (data b, applied b)) (be_QuerySQL B q)"

text \<open>A view that every outcome keeps can be added to what an operation leaves alone, or to what it needs.\<close>

lemma leaves_also:
  assumes "leaves up v m" and "\<And>c. keeps (\<lambda>b. k b = c) m"
  shows "leaves (\<lambda>b. up b \<and> P (k b)) v m"
proof (rule leavesI)
  fix b assume b: "up b \<and> P (k b)"
  have "k (snd (m b)) = k b" using keepsD [OF assms(2) refl] .
  with assms(1) b show "(\<forall>e. fst (m b) \<noteq> Panic e) \<and> (up (snd (m b)) \<and> P (k (snd (m b)))) \<and> v (snd (m b)) = v b"
    by (auto simp: leaves_def)
qed

section \<open>Contract: an appender of log entries\<close>

text \<open>
  The states of the log between which the insertion of one entry \<open>e\<close> into a consecutive log \<open>t\<close>
  can stop: nothing done yet, the conflicting suffix deleted, and \<open>e\<close> stored at the end.
\<close>

definition append_stages :: "entry list \<Rightarrow> entry \<Rightarrow> entry list set" where
  "append_stages t e = {t, filter (\<lambda>x. idx x < idx e) t, filter (\<lambda>x. idx x < idx e) t @ [e]}"

lemma fits_first: "fits_log t (e # es) \<Longrightarrow> fits_log t [e]"
  by (auto simp: fits_log_def)

lemma fits_rest:
  assumes "contig t" and "fits_log t (e # es)"
  shows "fits_log (log_append t [e]) es"
proof (cases es)
  case Nil
  then show ?thesis using assms by (auto simp: fits_log_def)
next
  case (Cons e' es')
  let ?f = "filter (\<lambda>x. idx x < idx e) t"
  have e': "idx e' = Suc (idx e)" and "contig es"
    using assms(2) Cons by (auto simp: fits_log_def)
  have "idx (hd (?f @ [e])) \<le> idx e'"
  proof (cases ?f)
    case Nil
    then show ?thesis using e' by simp
  next
    case (Cons x xs)
    then have "x \<in> set ?f" by simp
    then have "idx x < idx e" by simp
    with Cons e' show ?thesis by simp
  qed
  with e' \<open>contig es\<close> Cons show ?thesis by (auto simp: fits_log_def log_append_def)
qed

lemma log_append_step:
  assumes "contig (e # es)"
  shows "log_append (log_append t [e]) es = log_append t (e # es)"
proof (cases es)
  case Nil
  then show ?thesis by (simp add: log_append_def)
next
  case (Cons e' es')
  then have "idx e' = Suc (idx e)" using assms by simp
  then have "filter (\<lambda>x. idx x < idx e') (filter (\<lambda>x. idx x < idx e) t) = filter (\<lambda>x. idx x < idx e) t"
    by (intro filter_all_true) auto
  with Cons \<open>idx e' = Suc (idx e)\<close> show ?thesis by (simp add: log_append_def)
qed

text \<open>
  A backend's loop body that stores one entry: it never leaves these stages, and when it
  reports success the entry is stored and the conflicting suffix is gone. From this the whole
  loop is correct, whatever fails in it.
\<close>

locale entry_appender =
  fixes log :: "'s \<Rightarrow> entry list option"
    and append_one :: "entry \<Rightarrow> ('s, unit) op"
  assumes append_one_stages:
    "contig t \<Longrightarrow> fits_log t [e] \<Longrightarrow>
     keeps (\<lambda>s. \<exists>t' \<in> append_stages t e. log s = Some t') (append_one e)"
    and append_one_done:
    "contig t \<Longrightarrow> fits_log t [e] \<Longrightarrow> log s = Some t \<Longrightarrow> append_one e s = (Ok (), s') \<Longrightarrow>
     log s' = Some (log_append t [e])"
begin

theorem append_loop_Ok:
  assumes "op_foreach append_one es s = (Ok (), s')"
    and "log s = Some t" and "contig t" and "fits_log t es"
  shows "log s' = Some (log_append t es)"
  using assms
proof (induction es arbitrary: s t)
  case Nil
  then show ?case by (simp add: op_ret_def log_append_def)
next
  case (Cons e es)
  then obtain u where one: "append_one e s = (Ok (), u)" and
    rest: "op_foreach append_one es u = (Ok (), s')"
    by (auto simp: op_bind_Ok_iff)
  have fit1: "fits_log t [e]" using Cons.prems(4) by (rule fits_first)
  then have u: "log u = Some (log_append t [e])"
    using Cons.prems one by (blast intro: append_one_done)
  have "log s' = Some (log_append (log_append t [e]) es)"
    using Cons.IH [OF rest u] Cons.prems fit1 by (simp add: contig_log_append fits_rest)
  then show ?case using Cons.prems(4) by (simp add: log_append_step fits_log_def)
qed

lemma stages_contig:
  assumes "contig t" and "fits_log t [e]" and "t' \<in> append_stages t e"
  shows "contig t'"
proof -
  have "contig (filter (\<lambda>x. idx x < idx e) t @ [e])"
    using contig_log_append [OF assms(1,2)] by (simp add: log_append_def)
  then show ?thesis using assms by (auto simp: append_stages_def)
qed

theorem append_loop_contig:
  assumes "log s = Some t" and "contig t" and "fits_log t es"
  shows "\<exists>t'. log (snd (op_foreach append_one es s)) = Some t' \<and> contig t'"
  using assms
proof (induction es arbitrary: s t)
  case Nil
  then show ?case by (simp add: op_ret_def)
next
  case (Cons e es)
  have fit1: "fits_log t [e]" using Cons.prems(3) by (rule fits_first)
  obtain r u where one: "append_one e s = (r, u)" by fastforce
  have "\<exists>t' \<in> append_stages t e. log u = Some t'"
    using keeps_eqD [OF append_one_stages [OF Cons.prems(2) fit1] _ one] Cons.prems(1)
    by (auto simp: append_stages_def)
  then have u: "\<exists>t'. log u = Some t' \<and> contig t'"
    using stages_contig [OF Cons.prems(2) fit1] by blast
  show ?case
  proof (cases r)
    case (Ok x)
    then have "log u = Some (log_append t [e])"
      using append_one_done [OF Cons.prems(2) fit1 Cons.prems(1)] one by simp
    from Cons.IH [OF this] Cons.prems fit1 one Ok show ?thesis
      by (simp add: op_bind_def contig_log_append fits_rest)
  qed (use u one in \<open>simp_all add: op_bind_def\<close>)
qed

end

section \<open>The statements of an append, stage by stage\<close>

definition at_stage :: "entry list \<Rightarrow> entry \<Rightarrow> ('u, 'z) tables_scheme \<Rightarrow> bool" where
  "at_stage t e s \<longleftrightarrow> (\<exists>t' \<in> append_stages t e. entries_tbl s = Some t')"

lemma fault_free_at_stage [keeps_intros, simp]: "fault_free (at_stage t e)"
  by (rule fault_freeI) (simp add: at_stage_def)

lemma insert_at_stage:
  assumes "contig t" and "fits_log t [e]" and "t' \<in> append_stages t e"
    and ins: "pk_insert Index e t' = Some t''"
  shows "t'' = filter (\<lambda>x. idx x < idx e) t @ [e]"
proof -
  let ?f = "filter (\<lambda>x. idx x < idx e) t"
  have grow: "pk_insert Index e u = Some (u @ [e])" if "\<forall>x \<in> set u. idx x < idx e" for u
    using that by (intro pk_insert_last) (simp add: word_less_nat_alt)
  have fe: "contig (?f @ [e])"
    using contig_log_append [OF assms(1,2)] by (simp add: log_append_def)
  consider "t' = t" | "t' = ?f" | "t' = ?f @ [e]"
    using assms(3) by (auto simp: append_stages_def)
  then show ?thesis
  proof cases
    case 1
    have no: "\<not> (\<exists>x \<in> set t. idx x = idx e)"
      using ins 1 pk_insert_None_iff [OF contig_pk_ok [OF assms(1)], of e]
      by (auto simp: unsigned_word_eqI)
    have "\<forall>x \<in> set t. idx x < idx e"
    proof (cases "t = []")
      case False
      then have "idx (last t) < idx e"
        using no assms(2) contig_mem_iff [OF assms(1) False, of "idx e"] by (auto simp: fits_log_def)
      then show ?thesis using contig_idx_range(2) [OF assms(1)] by fastforce
    qed simp
    then show ?thesis using ins 1 grow [of t] by (simp add: filter_all_true)
  next
    case 2
    then show ?thesis using ins grow [of ?f] by simp
  next
    case 3
    then have "pk_insert Index e t' = None"
      using pk_insert_None_iff [OF contig_pk_ok [OF fe], of e] by auto
    with ins show ?thesis by simp
  qed
qed

lemma delete_at_stage:
  "t' \<in> append_stages t e \<Longrightarrow>
   pk_delete (\<lambda>x. Index e \<le> Index x) t' = filter (\<lambda>x. idx x < idx e) t"
  by (auto simp: append_stages_def pk_delete_def not_le word_less_nat_alt)

lemma keeps_stage_insert [keeps_intros]:
  "contig t \<Longrightarrow> fits_log t [e] \<Longrightarrow> keeps (at_stage t e) (insert_entry d e)"
  using insert_at_stage [of t e]
  by (fastforce intro!: keepsI simp: at_stage_def insert_entry_def append_stages_def split: option.splits)

lemma keeps_stage_delete [keeps_intros]: "keeps (at_stage t e) (delete_from d (Index e))"
  by (rule keepsI) (auto simp: at_stage_def delete_from_def delete_entries_def delete_at_stage,
      simp add: append_stages_def)

lemma insert_entry_done:
  assumes "contig t" and "fits_log t [e]" and "at_stage t e s" and "insert_entry d e s = (Ok n, s')"
  shows "entries_tbl s' = Some (log_append t [e])" and "n = 1"
  using assms insert_at_stage [of t e]
  by (auto simp: at_stage_def insert_entry_def log_append_def split: option.splits if_splits)

lemma at_stage_start: "entries_tbl s = Some t \<Longrightarrow> at_stage t e s"
  by (simp add: at_stage_def append_stages_def)

section \<open>A log without gaps\<close>

text \<open>The log exists and is consecutive.\<close>

definition good_log :: "('u, 'z) tables_scheme \<Rightarrow> bool" where
  "good_log s \<longleftrightarrow> (\<exists>t. entries_tbl s = Some t \<and> contig t)"

lemma fault_free_good_log [keeps_intros, simp]: "fault_free good_log"
  by (rule fault_freeI) (simp add: good_log_def)

lemma pk_delete_old: "n \<noteq> 0 \<Longrightarrow> pk_delete (\<lambda>e. idx e + unat n \<le> unat k) t = log_retain n k t"
  by (simp add: pk_delete_def log_retain_def not_le)

lemma keeps_good_log_delete_old [keeps_intros]: "n \<noteq> 0 \<Longrightarrow> keeps good_log (delete_old d n k)"
  by (rule keepsI) (auto simp: good_log_def delete_old_def delete_entries_def pk_delete_old contig_retain)

lemma last_log_append: "es \<noteq> [] \<Longrightarrow> last (log_append t es) = last es"
  by (auto simp: log_append_def split: list.splits)

section \<open>Insert, or drop the conflicting suffix and insert again\<close>

text \<open>
  The body of the loop of \<open>AppendEntries\<close>, the same text in both backends up to how the driver's
  duplicate-key error is recognised: \<open>ins\<close> is \<open>tryInsert(entry)\<close> and \<open>del\<close> is
  \<open>DELETE FROM entries WHERE idx >= entry.Index\<close>.
\<close>

definition insert_or_truncate ::
  "(goerr \<Rightarrow> bool) \<Rightarrow> ('s, nat) op \<Rightarrow> ('s, unit) op \<Rightarrow> ('s, unit) op" where
  "insert_or_truncate is_dup ins del =
     op_bind (attempt ins) (\<lambda>res.
     op_bind (case res of
         Inr rows \<Rightarrow> op_ret (Inr rows)
       | Inl err \<Rightarrow>
           if is_dup err then
             op_bind (attempt del) (\<lambda>r2.
             case r2 of
               Inl err2 \<Rightarrow> op_err (EWrap err ''deleting conflicting entries as of %d'')
             | Inr _ \<Rightarrow> attempt ins)
           else op_ret (Inl err)) (\<lambda>res'.
     case res' of
       Inl err \<Rightarrow> op_err (EWrap err ''appending raft entries'')
     | Inr rows \<Rightarrow>
         if rows \<noteq> 1 then op_err (ENew ''unexpected number of rows affected: %d'')
         else op_ret ()))"

lemma keeps_insert_or_truncate [keeps_intros]:
  "keeps P ins \<Longrightarrow> keeps P del \<Longrightarrow> keeps P (insert_or_truncate is_dup ins del)"
  unfolding insert_or_truncate_def by (intro keeps_intros)

lemma insert_or_truncate_done:
  assumes ins: "okpost P ins (\<lambda>n s. n = 1 \<and> Q s)" and "keeps P ins" and "keeps P del"
  shows "okpost P (insert_or_truncate is_dup ins del) (\<lambda>_. Q)"
proof -
  let ?Q = "\<lambda>r s. case r of Inl _ \<Rightarrow> P s | Inr n \<Rightarrow> n = 1 \<and> Q s"
  have try_it: "okpost P (attempt ins) ?Q"
    using assms by (intro okpost_attempt)
  have del: "okpost P (attempt del) (\<lambda>_. P)"
    using assms(3) by (auto intro!: okpostI dest: keeps_eqD [OF keeps_attempt])
  have retry: "okpost P (op_bind (attempt del) (\<lambda>r2.
         case r2 of Inl _ \<Rightarrow> op_err err | Inr _ \<Rightarrow> attempt ins)) ?Q" for err
    using try_it by (intro okpost_bind [OF del]) (case_tac x, simp_all)
  show ?thesis
    unfolding insert_or_truncate_def
  proof (rule okpost_bind [OF try_it], rule okpost_bind [where R = ?Q])
    fix res :: "goerr + nat"
    show "okpost (?Q res) (case res of Inr rows \<Rightarrow> op_ret (Inr rows) | Inl err \<Rightarrow>
        if is_dup err then
          op_bind (attempt del) (\<lambda>r2.
          case r2 of Inl err2 \<Rightarrow> op_err (EWrap err ''deleting conflicting entries as of %d'')
          | Inr _ \<Rightarrow> attempt ins)
        else op_ret (Inl err)) ?Q"
      using retry by (cases res) (auto intro: okpost_ret)
  qed (auto intro: okpost_ret split: sum.split)
qed

text \<open>On a store where both statements run, the body stores the entry and nothing else changes.\<close>

lemma insert_or_truncate_runs:
  assumes t: "entries_tbl s = Some t" "contig t" and fit: "fits_log t [e]" and dup: "is_dup d"
    and ins: "\<And>u. pk_ok Index u \<Longrightarrow> ins (s\<lparr>entries_tbl := Some u\<rparr>) = (case pk_insert Index e u of
      None \<Rightarrow> (Err d, s\<lparr>entries_tbl := Some u\<rparr>) | Some u' \<Rightarrow> (Ok 1, s\<lparr>entries_tbl := Some u'\<rparr>))"
    and del: "del s = (Ok (), s\<lparr>entries_tbl := Some (pk_delete (\<lambda>x. Index e \<le> Index x) t)\<rparr>)"
  shows "insert_or_truncate is_dup ins del s = (Ok (), s\<lparr>entries_tbl := Some (log_append t [e])\<rparr>)"
proof -
  let ?f = "filter (\<lambda>x. idx x < idx e) t"
  have ok: "pk_ok Index t" "pk_ok Index ?f" using t by (auto intro: contig_pk_ok pk_ok_filter)
  have "s\<lparr>entries_tbl := Some t\<rparr> = s" using t(1) by simp
  then have first: "ins s = (case pk_insert Index e t of
      None \<Rightarrow> (Err d, s) | Some u' \<Rightarrow> (Ok 1, s\<lparr>entries_tbl := Some u'\<rparr>))"
    using ins [OF ok(1)] by (simp split: option.split)
  show ?thesis
  proof (cases "pk_insert Index e t")
    case (Some t')
    then have "t' = ?f @ [e]"
      using t fit by (intro insert_at_stage [of t e t]) (auto simp: append_stages_def)
    with Some first show ?thesis by (simp add: insert_or_truncate_def op_defs log_append_def)
  next
    case None
    have "pk_delete (\<lambda>x. Index e \<le> Index x) t = ?f"
      by (simp add: pk_delete_def not_le word_less_nat_alt)
    moreover have "pk_insert Index e ?f = Some (?f @ [e])"
      by (rule pk_insert_last) (simp add: word_less_nat_alt)
    ultimately show ?thesis
      using None first del ins [OF ok(2)] dup by (simp add: insert_or_truncate_def op_defs log_append_def)
  qed
qed

text \<open>
  A store whose loop body runs on every entry it accepts: the whole loop then computes the abstract
  append.
\<close>

locale entry_store =
  fixes append_one :: "entry \<Rightarrow> (('u, 'z) tables_scheme, unit) op"
    and up :: "('u, 'z) tables_scheme \<Rightarrow> bool"
    and accepts :: "entry \<Rightarrow> bool"
  assumes append_one_runs: "up s \<Longrightarrow> accepts e \<Longrightarrow> entries_tbl s = Some t \<Longrightarrow> contig t \<Longrightarrow> fits_log t [e] \<Longrightarrow>
      append_one e s = (Ok (), s\<lparr>entries_tbl := Some (log_append t [e])\<rparr>)"
    and up_entries: "up s \<Longrightarrow> pk_ok Index t \<Longrightarrow> up (s\<lparr>entries_tbl := Some t\<rparr>)"
begin

lemma append_loop_runs:
  assumes "up s" and "list_all accepts es" and "entries_tbl s = Some t" "contig t" "fits_log t es"
  shows "op_foreach append_one es s = (Ok (), s\<lparr>entries_tbl := Some (log_append t es)\<rparr>)"
  using assms
proof (induction es arbitrary: s t)
  case Nil
  then show ?case by (simp add: op_ret_def log_append_def)
next
  case (Cons e es)
  let ?t = "log_append t [e]" and ?s = "s\<lparr>entries_tbl := Some (log_append t [e])\<rparr>"
  have fit: "fits_log t [e]" using Cons.prems(5) by (rule fits_first)
  have ct: "contig ?t" using Cons.prems(4) fit by (rule contig_log_append)
  have "op_foreach append_one es ?s = (Ok (), ?s\<lparr>entries_tbl := Some (log_append ?t es)\<rparr>)"
    using Cons.prems ct fits_rest [OF Cons.prems(4,5)]
    by (intro Cons.IH up_entries contig_pk_ok) auto
  moreover have "log_append ?t es = log_append t (e # es)"
    using Cons.prems(5) by (intro log_append_step) (simp add: fits_log_def)
  ultimately show ?case
    using append_one_runs [OF Cons.prems(1) _ Cons.prems(3,4) fit] Cons.prems(2)
    by (simp add: op_bind_def)
qed

end

section \<open>A concrete engine\<close>

text \<open>
  An instance of the parameters on which the theorems that assume something about them are
  evaluated: the application's data is the list of the statements run, \<open>bad\<close> is refused by the
  engine, \<open>lost\<close> loses the connection, and two configuration states have a marshalled form.
\<close>

definition demo_conf :: conf_state where
  "demo_conf = \<lparr>Voters = [1], Learners = []\<rparr>"

definition demo_marshal :: "conf_state \<Rightarrow> goerr + bytes" where
  "demo_marshal cs = (if cs = demo_conf then Inr ''1'' else if cs = zero_conf_state then Inr ''0''
     else Inl (ENew ''unsupported''))"

definition demo_unmarshal :: "bytes \<Rightarrow> goerr + conf_state" where
  "demo_unmarshal b = (if b = ''1'' then Inr demo_conf else if b = ''0'' then Inr zero_conf_state
     else Inl (ENew ''unsupported''))"

definition demo_exec :: "string \<Rightarrow> string list \<Rightarrow> goerr option \<times> string list" where
  "demo_exec q u = (if q = ''bad'' then (Some (ESqlite 1), u)
     else if q = ''lost'' then (Some (EDriver ''connection lost''), u) else (None, u @ [q]))"

definition demo_entry :: "nat \<Rightarrow> nat \<Rightarrow> string \<Rightarrow> entry" where
  "demo_entry t i d = \<lparr>Term = of_nat t, Index = of_nat i, EType = EntryNormal, Data = d\<rparr>"

end
