(* ===== verification/Sqlite_Backend.thy ===== *)
theory Sqlite_Backend
  imports Backend_Interface
begin

text \<open>
  The SQLite backend, \<open>internal/backend/sqlite/backend.go\<close>: the object and its
  \<open>backend.DBBackend\<close> operations. The three database files are the tables of the state; the
  application's own database is \<open>user_db\<close>. Snapshots work on whole files: the file images of the
  databases and the tar format are parameters, and a restored file keeps the tail of a longer
  file it overwrites, because it is opened without truncation.
\<close>

section \<open>The object\<close>

record 'u sqlite = "'u tables" +
  entriesToRetain :: u64
  db :: handle
  mgmtdb :: handle
  raftdb :: handle
  dir_names :: "string list"
  other_files :: "(string \<times> bytes) list"

text \<open>SQLite's errors: \<open>SQLITE_CONSTRAINT\<close> is 19, a missing table is \<open>SQLITE_ERROR\<close>, 1.\<close>

definition ErrConstraint :: nat where
  "ErrConstraint = 19"

definition sqlite_dialect :: dialect where
  "sqlite_dialect = \<lparr>err_dup = ESqlite ErrConstraint, err_no_table = ESqlite 1,
     err_range = ESqlite 25, int_max = 2 ^ 63 - 1\<rparr>"

text \<open>
  A statement through \<open>database/sql\<close> with unsigned arguments: an argument with its top bit set is
  refused before the statement runs.
\<close>

definition high_bit :: goerr where
  "high_bit = EDriver ''uint64 values with high bit set are not supported''"

definition with_db :: "('u sqlite \<Rightarrow> handle) \<Rightarrow> u64 list \<Rightarrow> ('u sqlite, 'a) op \<Rightarrow> ('u sqlite, 'a) op" where
  "with_db h args m s =
     (if h s = HOpen \<and> list_ex (\<lambda>v. 2 ^ 63 \<le> unat v) args then (Err high_bit, s)
      else with_handle h m s)"

text \<open>\<open>queryInteger\<close>: scan one value; the driver's error comes back wrapped.\<close>

definition sqlite_queryInteger :: "('u sqlite \<Rightarrow> handle) \<Rightarrow> u64 list \<Rightarrow> ('u sqlite, 'a) op \<Rightarrow> ('u sqlite, 'a) op" where
  "sqlite_queryInteger h args q = wrap_err ''query: %s %+v'' (with_db h args q)"

section \<open>Lifecycle\<close>

text \<open>A new object over the files of a directory.\<close>

definition sqlite_New :: "u64 \<Rightarrow> 'u sqlite \<Rightarrow> 'u sqlite" where
  "sqlite_New retain disk = disk\<lparr>entriesToRetain := retain, db := HNil, mgmtdb := HNil, raftdb := HNil\<rparr>"

definition sqlite_createTables :: "('u sqlite, unit) op" where
  "sqlite_createTables =
     op_bind (wrap_err ''creating state table'' (with_db raftdb [] create_state)) (\<lambda>_.
     op_bind (wrap_err ''querying state table''
       (sqlite_queryInteger raftdb [] (count_state sqlite_dialect))) (\<lambda>count.
     op_bind (if count = 0
       then wrap_err ''creating first row of state table'' (with_db raftdb [] (insert_state sqlite_dialect))
       else op_ret ()) (\<lambda>_.
     op_bind (wrap_err ''creating peers table'' (with_db mgmtdb [] create_peers)) (\<lambda>_.
     wrap_err ''creating entries table'' (with_db raftdb [] create_entries)))))"

definition sqlite_innerStart :: "bool \<Rightarrow> ('u sqlite, unit) op" where
  "sqlite_innerStart create =
     op_bind (wrap_err ''opening db at %s'' (sys_call (op_ret ()))) (\<lambda>_.
     op_bind (op_mod (\<lambda>s. s\<lparr>db := HOpen\<rparr>)) (\<lambda>_.
     op_bind (wrap_err ''opening mgmt db at %s'' (sys_call (op_ret ()))) (\<lambda>_.
     op_bind (op_mod (\<lambda>s. s\<lparr>mgmtdb := HOpen\<rparr>)) (\<lambda>_.
     op_bind (wrap_err ''opening raft db at %s'' (sys_call (op_ret ()))) (\<lambda>_.
     op_bind (op_mod (\<lambda>s. s\<lparr>raftdb := HOpen\<rparr>)) (\<lambda>_.
     if \<not> create then op_ret () else sqlite_createTables))))))"

definition sqlite_Start :: "('u sqlite, unit) op" where
  "sqlite_Start = sqlite_innerStart True"

definition sqlite_Stop :: "('u sqlite, unit) op" where
  "sqlite_Stop = op_mod (\<lambda>s. s\<lparr>raftdb := close_handle (raftdb s),
     mgmtdb := close_handle (mgmtdb s), db := close_handle (db s)\<rparr>)"

section \<open>The Raft log\<close>

definition sqlite_tryInsert :: "entry \<Rightarrow> ('u sqlite, nat) op" where
  "sqlite_tryInsert e = with_db raftdb [Index e, Term e] (insert_entry sqlite_dialect e)"

text \<open>The body of the loop of \<open>AppendEntries\<close>: insert; on a key conflict drop the suffix and retry.\<close>

definition sqlite_appendEntry :: "entry \<Rightarrow> ('u sqlite, unit) op" where
  "sqlite_appendEntry e = insert_or_truncate (\<lambda>err. err = ESqlite ErrConstraint)
     (sqlite_tryInsert e) (with_db raftdb [Index e] (delete_from sqlite_dialect (Index e)))"

definition sqlite_AppendEntries :: "entry list \<Rightarrow> ('u sqlite, unit) op" where
  "sqlite_AppendEntries es =
     (if es = [] then op_ret ()
      else op_bind (op_foreach sqlite_appendEntry es) (\<lambda>_.
       op_bind (op_get entriesToRetain) (\<lambda>n.
       if n \<noteq> 0 then
         (let lastIdx = Index (last es) in
          wrap_err ''deleting old raft entries''
            (with_db raftdb [n, lastIdx] (delete_old sqlite_dialect n lastIdx)))
       else op_ret ())))"

section \<open>The state row\<close>

definition sqlite_SaveHardState :: "hard_state \<Rightarrow> ('u sqlite, unit) op" where
  "sqlite_SaveHardState hs = wrap_err ''saving hard state''
     (with_db raftdb [HSTerm hs, Vote hs, Commit hs]
       (update_state sqlite_dialect [HSTerm hs, Vote hs, Commit hs]
         (\<lambda>r. r\<lparr>hardstate_term := HSTerm hs, hardstate_vote := Vote hs, hardstate_commit := Commit hs\<rparr>)))"

definition sqlite_SaveApplied :: "u64 \<Rightarrow> u64 \<Rightarrow> ('u sqlite, unit) op" where
  "sqlite_SaveApplied trm ix = wrap_err ''saving applied state''
     (with_db raftdb [trm, ix]
       (update_state sqlite_dialect [trm, ix] (\<lambda>r. r\<lparr>row_term := trm, row_idx := ix\<rparr>)))"

definition sqlite_GetAppliedIndex :: "('u sqlite, u64) op" where
  "sqlite_GetAppliedIndex = wrap_err ''getting applied index''
     (sqlite_queryInteger raftdb [] (select_state sqlite_dialect row_idx))"

definition sqlite_SaveConfState :: "('u, 'q, 'e) engine_scheme \<Rightarrow> conf_state \<Rightarrow> ('u sqlite, unit) op" where
  "sqlite_SaveConfState X cs = (case cs_marshal X cs of
      Inl e \<Rightarrow> op_err (EWrap e ''marshalling conf state'')
    | Inr d \<Rightarrow> wrap_err ''saving conf state''
        (with_db raftdb [] (update_state sqlite_dialect [] (\<lambda>r. r\<lparr>confstate := Some d\<rparr>))))"

section \<open>Peers\<close>

definition sqlite_LoadPeers :: "('u sqlite, peer_info list) op" where
  "sqlite_LoadPeers =
     op_bind (wrap_err ''query: %s'' (with_db mgmtdb [] (select_peers sqlite_dialect))) (\<lambda>rows.
     read_rows ''scanning row of query: %s'' rows)"

definition sqlite_UpsertPeer :: "peer_info \<Rightarrow> ('u sqlite, u64) op" where
  "sqlite_UpsertPeer pi =
     op_bind (wrap_err ''query when upserting address %s port %s''
       (with_db mgmtdb [] (select_peer_at sqlite_dialect (Addr pi) (Port pi)))) (\<lambda>row.
     op_bind (case row of
         None \<Rightarrow> op_ret 0
       | Some n \<Rightarrow> op_bind (read_rows ''scanning row for existing peer node ID'' [n]) (\<lambda>xs.
           op_ret (case xs of [] \<Rightarrow> 0 | x # _ \<Rightarrow> x))) (\<lambda>existingNodeID.
     op_bind (wrap_err ''upserting peer''
       (with_db mgmtdb [NodeID pi] (replace_peer sqlite_dialect pi))) (\<lambda>_.
     op_ret existingNodeID)))"

definition sqlite_RemovePeer :: "u64 \<Rightarrow> ('u sqlite, unit) op" where
  "sqlite_RemovePeer n = wrap_err ''deleting peer''
     (with_db mgmtdb [n] (delete_peer sqlite_dialect n))"

section \<open>The application's SQL\<close>

definition sqlite_ExecSQL :: "('u, 'q, 'e) engine_scheme \<Rightarrow> u64 \<Rightarrow> u64 \<Rightarrow> string \<Rightarrow> ('u sqlite, unit) op" where
  "sqlite_ExecSQL X trm ix q =
     op_bind (attempt (with_db db [] (run_user X q))) (\<lambda>r. case r of
       Inl err \<Rightarrow> op_err (case err of ESqlite c \<Rightarrow> EDBError err | _ \<Rightarrow> err)
     | Inr _ \<Rightarrow> sqlite_SaveApplied trm ix)"

definition sqlite_QuerySQL :: "('u, 'q, 'e) engine_scheme \<Rightarrow> string \<Rightarrow> ('u sqlite, 'q) op" where
  "sqlite_QuerySQL X q = with_db db [] (\<lambda>s. case user_query X q (user_db s) of
      Inl e \<Rightarrow> (Err e, s) | Inr rows \<Rightarrow> (Ok rows, s))"

section \<open>Restoring a snapshot\<close>

text \<open>
  File images: what a database looks like as a file and what is read from a file, and the tar
  format (\<open>untar\<close> yields the members read before the end or before an error).
\<close>

record ('u, 'q) sqlite_engine = "('u, 'q) engine" +
  img_user :: "'u \<Rightarrow> bytes"
  read_user :: "bytes \<Rightarrow> 'u"
  img_mgmt :: "peer_info list option \<Rightarrow> bytes"
  read_mgmt :: "bytes \<Rightarrow> peer_info list option"
  img_raft :: "state_row list option \<times> entry list option \<Rightarrow> bytes"
  read_raft :: "bytes \<Rightarrow> state_row list option \<times> entry list option"
  tar :: "(string \<times> bytes) list \<Rightarrow> bytes"
  untar :: "bytes \<Rightarrow> (string \<times> bytes) list \<times> goerr option"

text \<open>Writing from the start of an existing file without truncating it.\<close>

definition overwrite :: "bytes \<Rightarrow> bytes \<Rightarrow> bytes" where
  "overwrite new old = new @ drop (length new) old"

fun assoc_write :: "string \<Rightarrow> bytes \<Rightarrow> (string \<times> bytes) list \<Rightarrow> (string \<times> bytes) list" where
  "assoc_write n b [] = [(n, b)]"
| "assoc_write n b ((m, c) # fs) =
     (if m = n then (m, overwrite b c) # fs else (m, c) # assoc_write n b fs)"

definition write_file :: "('u, 'q, 'e) sqlite_engine_scheme \<Rightarrow> string \<Rightarrow> bytes \<Rightarrow> ('u sqlite, unit) op" where
  "write_file X n b s = (Ok (),
     (let s = (if n \<in> set (dir_names s) then s else s\<lparr>dir_names := dir_names s @ [n]\<rparr>) in
      if n = ''db.sqlite'' then s\<lparr>user_db := read_user X (overwrite b (img_user X (user_db s)))\<rparr>
      else if n = ''mgmt.sqlite'' then
        s\<lparr>peers_tbl := read_mgmt X (overwrite b (img_mgmt X (peers_tbl s)))\<rparr>
      else if n = ''raft.sqlite'' then
        (let (st, en) = read_raft X (overwrite b (img_raft X (state_tbl s, entries_tbl s)))
         in s\<lparr>state_tbl := st, entries_tbl := en\<rparr>)
      else s\<lparr>other_files := assoc_write n b (other_files s)\<rparr>))"

definition sqlite_extract :: "('u, 'q, 'e) sqlite_engine_scheme \<Rightarrow> string \<times> bytes \<Rightarrow> ('u sqlite, unit) op" where
  "sqlite_extract X f =
     op_bind (wrap_err ''opening file %s for writing'' (sys_call (op_ret ()))) (\<lambda>_.
     wrap_err ''extracting %s'' (sys_call (write_file X (fst f) (snd f))))"

text \<open>The loop over the members of the archive: extract each, then report a broken archive.\<close>

definition sqlite_extractAll :: "('u, 'q, 'e) sqlite_engine_scheme \<Rightarrow> bytes \<Rightarrow> ('u sqlite, unit) op" where
  "sqlite_extractAll X d =
     op_bind (op_foreach (sqlite_extract X) (fst (untar X d))) (\<lambda>_.
     case snd (untar X d) of None \<Rightarrow> op_ret () | Some e \<Rightarrow> op_err (EWrap e ''reading tar''))"

definition sqlite_ApplySnapshot :: "('u, 'q, 'e) sqlite_engine_scheme \<Rightarrow> snapshot \<Rightarrow> ('u sqlite, unit) op" where
  "sqlite_ApplySnapshot X snap =
     op_bind sqlite_Stop (\<lambda>_.
     op_bind (attempt
       (op_bind (sqlite_extractAll X (SData snap)) (\<lambda>_.
        wrap_err ''restarting databases after applying snapshot'' (sqlite_innerStart False)))) (\<lambda>r. case r of
       Inl e \<Rightarrow> op_bind (ignore_err (sqlite_innerStart False)) (\<lambda>_. op_err e)
     | Inr _ \<Rightarrow>
         op_bind (wrap_err ''saving conf state from snapshot''
           (sqlite_SaveConfState X (SMConfState (Metadata snap)))) (\<lambda>_.
         wrap_err ''saving term and index from snapshot''
           (sqlite_SaveApplied (SMTerm (Metadata snap)) (SMIndex (Metadata snap))))))"

definition sqlite_SaveSnapshot :: "snapshot \<Rightarrow> ('u sqlite, u64) op" where
  "sqlite_SaveSnapshot snap = op_ret 0"

definition sqlite_RemoveSavedSnapshot :: "u64 \<Rightarrow> ('u sqlite, unit) op" where
  "sqlite_RemoveSavedSnapshot h = op_ret ()"

section \<open>Statements through a handle\<close>

lemma keeps_with_db [keeps_intros]:
  "fault_free P \<Longrightarrow> keeps P m \<Longrightarrow> keeps P (with_db h args m)"
  using keeps_with_handle [of P m h] by (auto simp: keeps_def with_db_def)

lemma with_db_calm [calm_simps]:
  "h s = HOpen \<Longrightarrow> calm s \<Longrightarrow> \<not> list_ex (\<lambda>v. 2 ^ 63 \<le> unat v) args \<Longrightarrow> with_db h args m s = m s"
  by (simp add: with_db_def with_handle_calm)

lemma with_db_Ok:
  "with_db h args m s = (Ok x, t) \<Longrightarrow> \<exists>fs. m (s\<lparr>faults := fs\<rparr>) = (Ok x, t)"
  by (auto simp: with_db_def split: if_splits dest: with_handle_Ok)

section \<open>The loop of AppendEntries\<close>

lemma keeps_stage_tryInsert [keeps_intros]:
  "contig t \<Longrightarrow> fits_log t [e] \<Longrightarrow> keeps (at_stage t e) (sqlite_tryInsert e)"
  unfolding sqlite_tryInsert_def by (intro keeps_intros)

lemma keeps_stage_appendEntry:
  "contig t \<Longrightarrow> fits_log t [e] \<Longrightarrow> keeps (at_stage t e) (sqlite_appendEntry e)"
  unfolding sqlite_appendEntry_def by (intro keeps_intros)

lemma tryInsert_done:
  assumes "contig t" and "fits_log t [e]"
  shows "okpost (at_stage t e) (sqlite_tryInsert e)
    (\<lambda>n s'. n = 1 \<and> entries_tbl s' = Some (log_append t [e]))"
proof (rule okpostI)
  fix s n s'
  assume s: "at_stage t e s" and ins: "sqlite_tryInsert e s = (Ok n, s')"
  from with_db_Ok [OF ins [unfolded sqlite_tryInsert_def]]
  obtain fs where "insert_entry sqlite_dialect e (s\<lparr>faults := fs\<rparr>) = (Ok n, s')" ..
  moreover have "at_stage t e (s\<lparr>faults := fs\<rparr>)"
    using s by (simp add: at_stage_def)
  ultimately show "n = 1 \<and> entries_tbl s' = Some (log_append t [e])"
    using insert_entry_done assms by blast
qed

lemma appendEntry_done:
  "contig t \<Longrightarrow> fits_log t [e] \<Longrightarrow> okpost (at_stage t e) (sqlite_appendEntry e)
    (\<lambda>_ s'. entries_tbl s' = Some (log_append t [e]))"
  unfolding sqlite_appendEntry_def
  by (intro insert_or_truncate_done tryInsert_done keeps_intros)

interpretation sqlite_log: entry_appender entries_tbl sqlite_appendEntry
proof
  fix t e
  assume "contig t" "fits_log t [e]"
  then show "keeps (\<lambda>s. \<exists>t' \<in> append_stages t e. entries_tbl s = Some t') (sqlite_appendEntry e)"
    using keeps_stage_appendEntry unfolding at_stage_def by blast
next
  fix t e s s'
  assume "contig t" "fits_log t [e]" "entries_tbl s = Some t" "sqlite_appendEntry e s = (Ok (), s')"
  then show "entries_tbl s' = Some (log_append t [e])"
    using okpostD [OF appendEntry_done at_stage_start] by blast
qed

section \<open>A started object\<close>

text \<open>
  Open handles, the tables created, the one row of the state table present, keys in order, and no
  fault pending. Values below \<open>2 ^ 63\<close> can be stored.
\<close>

definition sq_ready :: "'u sqlite \<Rightarrow> bool" where
  "sq_ready s \<longleftrightarrow> calm s \<and> db s = HOpen \<and> mgmtdb s = HOpen \<and> raftdb s = HOpen \<and> tables_ok s
     \<and> (\<exists>r. state_tbl s = Some [r] \<and> row_id r = 1)
     \<and> entries_tbl s \<noteq> None \<and> peers_tbl s \<noteq> None"

definition small :: "u64 \<Rightarrow> bool" where
  "small v \<longleftrightarrow> unat v < 2 ^ 63"

definition storable :: "entry \<Rightarrow> bool" where
  "storable e \<longleftrightarrow> small (Index e) \<and> small (Term e)"

lemma small_args: "list_all small vs \<Longrightarrow> \<not> list_ex (\<lambda>v. 2 ^ 63 \<le> unat v) vs"
  by (auto simp: list_all_iff list_ex_iff small_def)

lemma fits_sqlite: "list_all small vs \<Longrightarrow> fits sqlite_dialect vs"
  by (auto simp: fits_def sqlite_dialect_def small_def list_all_iff)

text \<open>On a started object a statement with small arguments runs.\<close>

lemma ready_with_db [calm_simps]:
  assumes "sq_ready s" and "list_all small args" and "h \<in> {db, mgmtdb, raftdb}"
  shows "with_db h args m s = m s"
  using assms by (auto intro!: with_db_calm small_args simp: sq_ready_def)

lemma ready_sys_call [calm_simps]: "sq_ready s \<Longrightarrow> sys_call m s = m s"
  by (simp add: sq_ready_def sys_call_calm)

lemma ready_read_rows [calm_simps]: "sq_ready s \<Longrightarrow> read_rows msg rs s = (Ok rs, s)"
  by (simp add: sq_ready_def read_rows_calm)

lemma ready_entries_update:
  "sq_ready s \<Longrightarrow> pk_ok Index t \<Longrightarrow> sq_ready (s\<lparr>entries_tbl := Some t\<rparr>)"
  by (auto simp: sq_ready_def tables_ok_def calm_def)

lemma ready_peers_update:
  "sq_ready s \<Longrightarrow> pk_ok NodeID t \<Longrightarrow> sq_ready (s\<lparr>peers_tbl := Some t\<rparr>)"
  by (auto simp: sq_ready_def tables_ok_def calm_def)

lemma ready_state_update:
  "sq_ready s \<Longrightarrow> row_id r = 1 \<Longrightarrow> sq_ready (s\<lparr>state_tbl := Some [r]\<rparr>)"
  by (auto simp: sq_ready_def tables_ok_def calm_def)

lemma ready_user_update: "sq_ready s \<Longrightarrow> sq_ready (s\<lparr>user_db := u\<rparr>)"
  by (auto simp: sq_ready_def tables_ok_def calm_def)

lemmas ready_updates = ready_entries_update ready_peers_update ready_state_update ready_user_update

subsection \<open>Storing entries\<close>

lemma ready_tryInsert:
  assumes "sq_ready s" and "storable e" and "entries_tbl s = Some t" and "pk_ok Index t"
  shows "sqlite_tryInsert e s = (case pk_insert Index e t of
     None \<Rightarrow> (Err (ESqlite ErrConstraint), s) | Some t' \<Rightarrow> (Ok 1, s\<lparr>entries_tbl := Some t'\<rparr>))"
proof -
  have small: "list_all small [Index e, Term e]"
    using assms(2) by (simp add: storable_def)
  then have "sqlite_tryInsert e s = insert_entry sqlite_dialect e s"
    unfolding sqlite_tryInsert_def using assms(1) by (intro ready_with_db) auto
  then show ?thesis
    using fits_sqlite [OF small] assms(3)
    by (auto simp: insert_entry_def sqlite_dialect_def split: option.splits)
qed

lemma ready_appendEntry:
  assumes "sq_ready s" and "storable e" and t: "entries_tbl s = Some t" "contig t" and fit: "fits_log t [e]"
  shows "sqlite_appendEntry e s = (Ok (), s\<lparr>entries_tbl := Some (log_append t [e])\<rparr>)"
  unfolding sqlite_appendEntry_def
proof (rule insert_or_truncate_runs [OF t fit])
  show "sqlite_tryInsert e (s\<lparr>entries_tbl := Some u\<rparr>) = (case pk_insert Index e u of
      None \<Rightarrow> (Err (ESqlite ErrConstraint), s\<lparr>entries_tbl := Some u\<rparr>)
    | Some u' \<Rightarrow> (Ok 1, s\<lparr>entries_tbl := Some u'\<rparr>))" if "pk_ok Index u" for u
    using ready_tryInsert [OF ready_entries_update [OF assms(1) that] assms(2) _ that]
    by (simp split: option.split)
  show "with_db raftdb [Index e] (delete_from sqlite_dialect (Index e)) s =
      (Ok (), s\<lparr>entries_tbl := Some (pk_delete (\<lambda>x. Index e \<le> Index x) t)\<rparr>)"
    using assms(1,2) t(1) by (simp add: ready_with_db storable_def delete_from_def delete_entries_def)
qed simp

interpretation sqlite_store: entry_store sqlite_appendEntry sq_ready storable
  by unfold_locales (simp_all add: ready_appendEntry ready_entries_update)

text \<open>A started object for the evaluations below.\<close>

definition demo_sqlite :: "u64 \<Rightarrow> entry list \<Rightarrow> peer_info list \<Rightarrow> string list sqlite" where
  "demo_sqlite n es ps = \<lparr>faults = [], state_tbl = Some [first_row], entries_tbl = Some es,
     peers_tbl = Some ps, user_db = [], entriesToRetain = n, db = HOpen, mgmtdb = HOpen,
     raftdb = HOpen, dir_names = [''db.sqlite'', ''mgmt.sqlite'', ''raft.sqlite''], other_files = []\<rparr>"

lemma demo_sqlite_simps [simp]:
  "faults (demo_sqlite n es ps) = []" "state_tbl (demo_sqlite n es ps) = Some [first_row]"
  "entries_tbl (demo_sqlite n es ps) = Some es" "peers_tbl (demo_sqlite n es ps) = Some ps"
  "user_db (demo_sqlite n es ps) = []" "entriesToRetain (demo_sqlite n es ps) = n"
  "db (demo_sqlite n es ps) = HOpen" "mgmtdb (demo_sqlite n es ps) = HOpen"
  "raftdb (demo_sqlite n es ps) = HOpen"
  by (simp_all add: demo_sqlite_def)

lemma demo_sqlite_ready:
  "pk_ok Index es \<Longrightarrow> pk_ok NodeID ps \<Longrightarrow> sq_ready (demo_sqlite n es ps)"
  by (auto simp: sq_ready_def calm_def tables_ok_def first_row_def)

lemma sqlite_AppendEntries_eq:
  assumes "sq_ready s" and "entries_tbl s = Some t" and "contig t" and "fits_log t es"
    and "list_all storable es" and "small (entriesToRetain s)" and "es \<noteq> []"
  shows "sqlite_AppendEntries es s = (Ok (),
      s\<lparr>entries_tbl := Some (log_retain (entriesToRetain s) (Index (last es)) (log_append t es))\<rparr>)"
proof -
  let ?t = "log_append t es"
  have ct: "contig ?t" using assms(3,4) by (rule contig_log_append)
  have rd: "sq_ready (s\<lparr>entries_tbl := Some ?t\<rparr>)"
    using assms(1) ct by (intro ready_entries_update contig_pk_ok)
  have "small (Index (last es))"
    using assms(5,7) by (simp add: list_all_iff storable_def)
  then have del: "with_db raftdb [entriesToRetain s, Index (last es)]
      (delete_old sqlite_dialect (entriesToRetain s) (Index (last es))) (s\<lparr>entries_tbl := Some ?t\<rparr>)
    = (Ok (), s\<lparr>entries_tbl := Some (pk_delete
        (\<lambda>e. idx e + unat (entriesToRetain s) \<le> unat (Index (last es))) ?t)\<rparr>)"
    using assms(6) rd by (simp add: ready_with_db delete_old_def delete_entries_def)
  then show ?thesis
    using assms(7) sqlite_store.append_loop_runs [OF assms(1,5,2,3,4)]
    by (simp add: sqlite_AppendEntries_def op_defs Let_def pk_delete_def log_retain_def not_le)
qed

text \<open>
  C8. A started SQLite backend implements the abstract Raft log: \<open>AppendEntries\<close> with consecutive
  entries that start inside the stored log or right behind it succeeds, replaces the stored suffix
  from the first new index on by the new entries, then keeps only the newest \<open>entriesToRetain\<close>
  indices, touches no other table, and leaves the backend started.
\<close>

theorem sqlite_AppendEntries_refines:
  assumes "sq_ready s" and "entries_tbl s = Some t" and "contig t" and "fits_log t es"
    and "list_all storable es" and "small (entriesToRetain s)" and "es \<noteq> []"
  shows "sqlite_AppendEntries es s = (Ok (),
      s\<lparr>entries_tbl := Some (log_retain (entriesToRetain s) (Index (last es)) (log_append t es))\<rparr>)
    \<and> sq_ready (snd (sqlite_AppendEntries es s))"
proof -
  have "contig (log_append t es)" using assms(3,4) by (rule contig_log_append)
  with sqlite_AppendEntries_eq [OF assms] show ?thesis
    using assms(1) by (auto intro!: ready_entries_update contig_pk_ok contig_retain)
qed

lemma sqlite_AppendEntries_refines_witness:
  "let t = [demo_entry 1 1 ''a'', demo_entry 1 2 ''b'', demo_entry 1 3 ''c''];
       es = [demo_entry 2 3 ''d'', demo_entry 2 4 ''e'']
   in entries_tbl (snd (sqlite_AppendEntries es (demo_sqlite 3 t []))) =
        Some [demo_entry 1 2 ''b'', demo_entry 2 3 ''d'', demo_entry 2 4 ''e'']"
proof -
  let ?t = "[demo_entry 1 1 ''a'', demo_entry 1 2 ''b'', demo_entry 1 3 ''c'']"
  let ?es = "[demo_entry 2 3 ''d'', demo_entry 2 4 ''e'']"
  have "sqlite_AppendEntries ?es (demo_sqlite 3 ?t []) = (Ok (), (demo_sqlite 3 ?t [])\<lparr>entries_tbl :=
      Some (log_retain (entriesToRetain (demo_sqlite 3 ?t [])) (Index (last ?es)) (log_append ?t ?es))\<rparr>)
    \<and> sq_ready (snd (sqlite_AppendEntries ?es (demo_sqlite 3 ?t [])))"
    by (rule sqlite_AppendEntries_refines)
      (simp_all add: demo_sqlite_ready demo_entry_def fits_log_def storable_def small_def)
  then show ?thesis
    by (simp add: Let_def log_retain_def log_append_def) (simp add: demo_entry_def)
qed



lemma log_retain_bounds:
  assumes "contig l" and "l \<noteq> []" and "n \<noteq> 0" and "k = Index (last l)"
  shows "log_retain n k l \<noteq> [] \<and> last (log_retain n k l) = last l \<and> length (log_retain n k l) \<le> unat n
    \<and> (length l \<le> unat n \<longrightarrow> log_retain n k l = l)"
proof -
  let ?m = "Suc (idx (last l)) - unat n"
  have n: "0 < unat n" using assms(3) by (simp add: unat_gt_0)
  have "log_retain n k l = filter (\<lambda>x. ?m \<le> idx x) l"
    using assms(3,4) by (auto simp: log_retain_def intro: filter_cong)
  also have "\<dots> = drop (?m - idx (hd l)) l" using assms(1) by (rule contig_filter_ge)
  finally have eq: "log_retain n k l = drop (?m - idx (hd l)) l" .
  have len: "Suc (idx (last l)) = idx (hd l) + length l" using assms(1,2) by (rule contig_last)
  then have lt: "?m - idx (hd l) < length l" using n assms(2) by (cases l) auto
  with len show ?thesis unfolding eq by auto
qed

text \<open>
  Retention bounds: after a successful append with \<open>entriesToRetain = n > 0\<close> the log is not
  empty, ends with the last appended entry and holds at most \<open>n\<close> entries; a log that had at most
  \<open>n\<close> loses nothing.
\<close>

theorem sqlite_AppendEntries_retention:
  assumes "sq_ready s" and "entries_tbl s = Some t" and "contig t" and "fits_log t es"
    and "list_all storable es" and "small (entriesToRetain s)" and "es \<noteq> []"
    and "entriesToRetain s \<noteq> 0"
  shows "\<exists>t'. entries_tbl (snd (sqlite_AppendEntries es s)) = Some t' \<and> t' \<noteq> [] \<and> last t' = last es
    \<and> length t' \<le> unat (entriesToRetain s)
    \<and> (length (log_append t es) \<le> unat (entriesToRetain s) \<longrightarrow> t' = log_append t es)"
proof -
  let ?l = "log_append t es"
  have c: "contig ?l" using assms(3,4) by (rule contig_log_append)
  have "?l \<noteq> []" using assms(7) by (auto simp: log_append_def split: list.splits)
  then show ?thesis
    using sqlite_AppendEntries_eq [OF assms(1-7)] log_retain_bounds [OF c _ assms(8), of "Index (last es)"]
    by (simp add: last_log_append assms(7))
qed

lemma sqlite_AppendEntries_retention_witness:
  "\<exists>t'. entries_tbl (snd (sqlite_AppendEntries [demo_entry 2 3 ''c'']
       (demo_sqlite 2 [demo_entry 1 1 ''a'', demo_entry 1 2 ''b''] []))) = Some t' \<and> length t' \<le> 2"
  using sqlite_AppendEntries_retention [of "demo_sqlite 2 [demo_entry 1 1 ''a'', demo_entry 1 2 ''b''] []"
      "[demo_entry 1 1 ''a'', demo_entry 1 2 ''b'']" "[demo_entry 2 3 ''c'']"]
  by (auto simp: demo_sqlite_ready demo_entry_def fits_log_def storable_def small_def)

subsection \<open>The state row, the application's statements and the peers\<close>

lemma ready_state_row:
  assumes "sq_ready s"
  obtains r where "state_tbl s = Some [r]" and "row_id r = 1"
  using assms by (auto simp: sq_ready_def)

lemma ready_update_state:
  assumes "sq_ready s" and "state_tbl s = Some [r]" and "list_all small vs"
  shows "with_db raftdb vs (update_state sqlite_dialect vs f) s = (Ok (), s\<lparr>state_tbl := Some [f r]\<rparr>)"
proof -
  have "row_id r = 1" using assms(1,2) by (auto simp: sq_ready_def)
  then show ?thesis
    using assms fits_sqlite [OF assms(3)] by (simp add: ready_with_db update_state_def)
qed

lemma ready_SaveApplied:
  "sq_ready s \<Longrightarrow> state_tbl s = Some [r] \<Longrightarrow> small trm \<Longrightarrow> small ix \<Longrightarrow>
   sqlite_SaveApplied trm ix s = (Ok (), s\<lparr>state_tbl := Some [r\<lparr>row_term := trm, row_idx := ix\<rparr>]\<rparr>)"
  by (simp add: sqlite_SaveApplied_def wrap_err_def ready_update_state)

lemma ready_SaveHardState:
  "sq_ready s \<Longrightarrow> state_tbl s = Some [r] \<Longrightarrow> small (HSTerm hs) \<Longrightarrow> small (Vote hs) \<Longrightarrow> small (Commit hs) \<Longrightarrow>
   sqlite_SaveHardState hs s = (Ok (), s\<lparr>state_tbl := Some [r\<lparr>hardstate_term := HSTerm hs,
     hardstate_vote := Vote hs, hardstate_commit := Commit hs\<rparr>]\<rparr>)"
  by (simp add: sqlite_SaveHardState_def wrap_err_def ready_update_state)

lemma ready_SaveConfState:
  "sq_ready s \<Longrightarrow> state_tbl s = Some [r] \<Longrightarrow> cs_marshal X cs = Inr b \<Longrightarrow>
   sqlite_SaveConfState X cs s = (Ok (), s\<lparr>state_tbl := Some [r\<lparr>confstate := Some b\<rparr>]\<rparr>)"
  by (simp add: sqlite_SaveConfState_def wrap_err_def ready_update_state)

lemma ready_select_state:
  assumes "sq_ready s" and "state_tbl s = Some [r]"
  shows "with_db raftdb [] (select_state sqlite_dialect f) s = (Ok (f r), s)"
proof -
  have "row_id r = 1" using assms by (auto simp: sq_ready_def)
  then show ?thesis using assms by (simp add: ready_with_db select_state_def query_defs)
qed

lemma ready_GetAppliedIndex:
  "sq_ready s \<Longrightarrow> state_tbl s = Some [r] \<Longrightarrow> sqlite_GetAppliedIndex s = (Ok (row_idx r), s)"
  by (simp add: sqlite_GetAppliedIndex_def sqlite_queryInteger_def wrap_err_def ready_select_state)

lemmas ready_row_ops = ready_SaveApplied ready_SaveHardState ready_SaveConfState ready_GetAppliedIndex

lemma ready_ExecSQL:
  assumes "sq_ready s" and "state_tbl s = Some [r]" and "small trm" and "small ix"
  shows "sqlite_ExecSQL X trm ix q s = (case user_exec X q (user_db s) of
     (None, u) \<Rightarrow> (Ok (), s\<lparr>user_db := u, state_tbl := Some [r\<lparr>row_term := trm, row_idx := ix\<rparr>]\<rparr>)
   | (Some err, u) \<Rightarrow> (Err (case err of ESqlite c \<Rightarrow> EDBError err | _ \<Rightarrow> err), s\<lparr>user_db := u\<rparr>))"
proof -
  have run: "with_db db [] (run_user X q) s = run_user X q s"
    using assms(1) by (intro ready_with_db) auto
  obtain res u where ex: "user_exec X q (user_db s) = (res, u)" by fastforce
  have ap: "sqlite_SaveApplied trm ix (s\<lparr>user_db := u\<rparr>) =
      (Ok (), s\<lparr>user_db := u, state_tbl := Some [r\<lparr>row_term := trm, row_idx := ix\<rparr>]\<rparr>)"
    using ready_SaveApplied [OF ready_user_update [OF assms(1), of u] _ assms(3,4), of r] assms(2) by simp
  show ?thesis
    using run ex ap by (cases res) (simp_all add: sqlite_ExecSQL_def op_defs run_user_def)
qed

text \<open>
  \<open>ExecSQL\<close> and the applied index, on every answer of the engine: a statement that succeeds
  records its index, so that \<open>GetAppliedIndex\<close> returns it; a statement the engine refuses comes back
  as a \<open>DBError\<close> and leaves the applied index where it was; the log and the peers are untouched.
\<close>

theorem sqlite_ExecSQL_applied:
  assumes "sq_ready s" and "small trm" and "small ix"
  shows "let (res, s') = sqlite_ExecSQL X trm ix q s in
     sq_ready s' \<and> entries_tbl s' = entries_tbl s \<and> peers_tbl s' = peers_tbl s
     \<and> user_db s' = snd (user_exec X q (user_db s))
     \<and> (case fst (user_exec X q (user_db s)) of
          None \<Rightarrow> res = Ok () \<and> fst (sqlite_GetAppliedIndex s') = Ok ix
        | Some (ESqlite c) \<Rightarrow> res = Err (EDBError (ESqlite c))
            \<and> fst (sqlite_GetAppliedIndex s') = fst (sqlite_GetAppliedIndex s)
        | Some err \<Rightarrow> res = Err err \<and> fst (sqlite_GetAppliedIndex s') = fst (sqlite_GetAppliedIndex s))"
proof -
  obtain r where r: "state_tbl s = Some [r]" "row_id r = 1" using assms(1) by (rule ready_state_row)
  obtain res u where ex: "user_exec X q (user_db s) = (res, u)" by fastforce
  have u: "sq_ready (s\<lparr>user_db := u\<rparr>)" using assms(1) by (rule ready_user_update)
  then have u': "sq_ready (s\<lparr>user_db := u, state_tbl := Some [r\<lparr>row_term := trm, row_idx := ix\<rparr>]\<rparr>)"
    using r by (intro ready_state_update) simp_all
  show ?thesis
    using ready_ExecSQL [OF assms(1) r(1) assms(2,3), of X q] ex u u' r ready_GetAppliedIndex [OF u]
      ready_GetAppliedIndex [OF u'] ready_GetAppliedIndex [OF assms(1) r(1)]
    by (auto split: option.splits goerr.splits)
qed

definition demo_engine :: "(string list, nat) sqlite_engine" where
  "demo_engine = \<lparr>cs_marshal = demo_marshal, cs_unmarshal = demo_unmarshal, user_exec = demo_exec,
     user_query = (\<lambda>q u. Inr (length u)), img_user = concat, read_user = (\<lambda>b. [take 1 b]),
     img_mgmt = (\<lambda>t. if t = None then ''n'' else ''m''),
     read_mgmt = (\<lambda>b. if take 1 b = ''m'' then Some [] else None),
     img_raft = (\<lambda>_. ''r''), read_raft = (\<lambda>_. (None, None)), tar = (\<lambda>fs. concat (map snd fs)),
     untar = (\<lambda>b. ([(''db.sqlite'', take 1 b), (''mgmt.sqlite'', drop 1 b)],
       if length b < 2 then Some (EDriver ''unexpected EOF'') else None))\<rparr>"

lemma sqlite_ExecSQL_applied_witness:
  "fst (sqlite_ExecSQL demo_engine 3 7 ''insert'' (demo_sqlite 5 [] [])) = Ok ()
   \<and> fst (sqlite_GetAppliedIndex (snd (sqlite_ExecSQL demo_engine 3 7 ''insert'' (demo_sqlite 5 [] [])))) = Ok 7
   \<and> fst (sqlite_ExecSQL demo_engine 3 7 ''bad'' (demo_sqlite 5 [] [])) = Err (EDBError (ESqlite 1))"
  using sqlite_ExecSQL_applied [of "demo_sqlite 5 [] []" 3 7 demo_engine "''insert''"]
    sqlite_ExecSQL_applied [of "demo_sqlite 5 [] []" 3 7 demo_engine "''bad''"]
  by (auto simp: demo_sqlite_ready small_def demo_engine_def demo_exec_def Let_def split: prod.splits)

lemma ready_UpsertPeer:
  assumes "sq_ready s" and "peers_tbl s = Some ps" and "small (NodeID pi)"
  shows "sqlite_UpsertPeer pi s =
    (Ok (case find (\<lambda>r. Addr r = Addr pi \<and> Port r = Port pi) ps of None \<Rightarrow> 0 | Some r \<Rightarrow> NodeID r),
     s\<lparr>peers_tbl := Some (pk_replace NodeID pi ps)\<rparr>)"
proof -
  have f: "fits sqlite_dialect [NodeID pi]" using assms(3) by (intro fits_sqlite) simp
  show ?thesis
    using assms f
    by (auto simp: sqlite_UpsertPeer_def op_defs ready_with_db ready_read_rows select_peer_at_def
        query_defs replace_peer_def simp del: read_rows.simps split: option.splits)
qed

lemma ready_LoadPeers:
  "sq_ready s \<Longrightarrow> peers_tbl s = Some ps \<Longrightarrow> sqlite_LoadPeers s = (Ok ps, s)"
  by (simp add: sqlite_LoadPeers_def op_defs ready_with_db ready_read_rows select_peers_def query_defs)

lemma ready_RemovePeer:
  "sq_ready s \<Longrightarrow> peers_tbl s = Some ps \<Longrightarrow> small n \<Longrightarrow>
   sqlite_RemovePeer n s = (Ok (), s\<lparr>peers_tbl := Some (pk_delete (\<lambda>r. NodeID r = n) ps)\<rparr>)"
  by (simp add: sqlite_RemovePeer_def op_defs ready_with_db delete_peer_def)

text \<open>
  The stored peers are a map from node ID to address: after \<open>UpsertPeer p\<close> the loaded list
  has \<open>p\<close> under its ID and every other ID as before, and the call returned an ID that was stored
  under \<open>p\<close>'s address and port, or 0 when there was none; after \<open>RemovePeer n\<close> the ID \<open>n\<close> is gone and
  the rest is as before.
\<close>

theorem sqlite_peers_map:
  assumes "sq_ready s" and "fst (sqlite_LoadPeers s) = Ok ps" and "small (NodeID p)" and "small n"
  shows "(\<exists>prev ps'. fst (sqlite_UpsertPeer p s) = Ok prev
      \<and> fst (sqlite_LoadPeers (snd (sqlite_UpsertPeer p s))) = Ok ps'
      \<and> (\<forall>k. pk_find NodeID k ps' = (if k = NodeID p then Some p else pk_find NodeID k ps))
      \<and> ((\<exists>r \<in> set ps. Addr r = Addr p \<and> Port r = Port p \<and> prev = NodeID r)
         \<or> prev = 0 \<and> (\<forall>r \<in> set ps. \<not> (Addr r = Addr p \<and> Port r = Port p))))
    \<and> (\<exists>ps'. fst (sqlite_RemovePeer n s) = Ok ()
      \<and> fst (sqlite_LoadPeers (snd (sqlite_RemovePeer n s))) = Ok ps'
      \<and> (\<forall>k. pk_find NodeID k ps' = (if k = n then None else pk_find NodeID k ps)))"
proof -
  obtain t where "peers_tbl s = Some t" using assms(1) by (auto simp: sq_ready_def)
  then have t: "peers_tbl s = Some ps" using assms(1,2) ready_LoadPeers by fastforce
  then have ok: "pk_ok NodeID ps" using assms(1) by (simp add: sq_ready_def tables_ok_def)
  let ?u = "s\<lparr>peers_tbl := Some (pk_replace NodeID p ps)\<rparr>"
    and ?v = "s\<lparr>peers_tbl := Some (pk_delete (\<lambda>r. NodeID r = n) ps)\<rparr>"
  have "sq_ready ?u" "sq_ready ?v" using assms(1) ok by (simp_all add: ready_peers_update)
  then have load: "sqlite_LoadPeers ?u = (Ok (pk_replace NodeID p ps), ?u)"
    "sqlite_LoadPeers ?v = (Ok (pk_delete (\<lambda>r. NodeID r = n) ps), ?v)"
    by (simp_all add: ready_LoadPeers)
  show ?thesis
    using load ready_UpsertPeer [OF assms(1) t assms(3)] ready_RemovePeer [OF assms(1) t assms(4)]
    by (auto simp: pk_find_replace [OF ok] pk_find_delete [OF ok] find_Some_iff2 find_None_iff
        split: option.splits) (auto simp: find_Some_iff)
qed

lemma sqlite_peers_map_witness:
  "let p = \<lparr>NodeID = 3, Addr = ''h'', Port = ''10''\<rparr>; q = \<lparr>NodeID = 2, Addr = ''h'', Port = ''10''\<rparr>
   in fst (sqlite_UpsertPeer p (demo_sqlite 0 [] [q])) = Ok 2
    \<and> fst (sqlite_LoadPeers (snd (sqlite_UpsertPeer p (demo_sqlite 0 [] [q])))) = Ok [q, p]"
proof -
  let ?p = "\<lparr>NodeID = 3, Addr = ''h'', Port = ''10''\<rparr>" and ?q = "\<lparr>NodeID = 2, Addr = ''h'', Port = ''10''\<rparr>"
  have rd: "sq_ready (demo_sqlite 0 [] [?q])" by (simp add: demo_sqlite_ready)
  have "\<exists>prev ps'. fst (sqlite_UpsertPeer ?p (demo_sqlite 0 [] [?q])) = Ok prev
      \<and> fst (sqlite_LoadPeers (snd (sqlite_UpsertPeer ?p (demo_sqlite 0 [] [?q])))) = Ok ps'
      \<and> ((\<exists>r \<in> set [?q]. prev = NodeID r) \<or> prev = 0 \<and> False)"
    using sqlite_peers_map [OF rd, of "[?q]" ?p 2] ready_LoadPeers [OF rd] by (fastforce simp: small_def)
  moreover have "fst (sqlite_LoadPeers (snd (sqlite_UpsertPeer ?p (demo_sqlite 0 [] [?q])))) = Ok [?q, ?p]"
    using ready_UpsertPeer [OF rd, of "[?q]" ?p] rd
    by (simp add: small_def ready_LoadPeers ready_peers_update)
  ultimately show ?thesis by (auto simp: Let_def)
qed

text \<open>
  Values the column or the driver cannot hold are refused, not truncated: an entry whose index
  or term has its top bit set is not stored; the append fails and the object is unchanged.
\<close>

theorem sqlite_AppendEntries_high_bit:
  assumes "sq_ready s" and "\<not> storable e"
  shows "sqlite_AppendEntries (e # es) s = (Err (EWrap high_bit ''appending raft entries''), s)"
proof -
  have "list_ex (\<lambda>v. 2 ^ 63 \<le> unat v) [Index e, Term e]"
    using assms(2) by (auto simp: storable_def small_def)
  then have "sqlite_tryInsert e s = (Err high_bit, s)"
    using assms(1) by (simp add: sqlite_tryInsert_def with_db_def sq_ready_def)
  then show ?thesis
    by (simp add: sqlite_AppendEntries_def sqlite_appendEntry_def insert_or_truncate_def op_defs high_bit_def)
qed

lemma sqlite_AppendEntries_high_bit_witness:
  "fst (sqlite_AppendEntries [\<lparr>Term = 1, Index = 2 ^ 63, EType = EntryNormal, Data = []\<rparr>] (demo_sqlite 5 [] []))
   = Err (EWrap high_bit ''appending raft entries'')"
  using sqlite_AppendEntries_high_bit [of "demo_sqlite 5 [] []"
      "\<lparr>Term = 1, Index = 2 ^ 63, EType = EntryNormal, Data = []\<rparr>" "[]"]
  by (simp add: demo_sqlite_ready storable_def small_def)

section \<open>Starting\<close>

lemma ready_handles: "sq_ready s \<Longrightarrow> raftdb s = HOpen \<and> mgmtdb s = HOpen \<and> db s = HOpen \<and> calm s"
  by (simp add: sq_ready_def)

lemma calm_innerStart:
  "calm s \<Longrightarrow> sqlite_innerStart create s =
     (let s' = s\<lparr>db := HOpen, mgmtdb := HOpen, raftdb := HOpen\<rparr> in
      if create then sqlite_createTables s' else (Ok (), s'))"
  by (simp add: sqlite_innerStart_def op_defs sys_call_calm calm_def sys_call_def)

lemma calm_createTables:
  assumes "calm s" and "raftdb s = HOpen" and "mgmtdb s = HOpen"
  shows "sqlite_createTables s = (Ok (), s\<lparr>
      state_tbl := Some (case state_tbl s of None \<Rightarrow> [first_row] | Some [] \<Rightarrow> [first_row] | Some t \<Rightarrow> t),
      peers_tbl := Some (case peers_tbl s of None \<Rightarrow> [] | Some ps \<Rightarrow> ps),
      entries_tbl := Some (case entries_tbl s of None \<Rightarrow> [] | Some es \<Rightarrow> es)\<rparr>)"
  using assms
  by (auto simp: sqlite_createTables_def sqlite_queryInteger_def op_defs with_db_def with_handle_def sys_call_def
      calm_def stmt_defs split: option.splits list.splits)

text \<open>
  Starting over the files of a directory: on a fresh directory \<open>Start\<close> creates the three tables
  and the one row of \<open>state\<close>; on one that was used before it keeps the log, the applied
  index, the Raft state and the peers, whatever happened to the handles; in both cases the backend
  is ready. A run that is interrupted after the table \<open>state\<close> was created and before its row was
  inserted is completed by the next one.
\<close>

lemma start_ready:
  assumes "calm disk" and "tables_ok disk"
    and "state_tbl disk = None \<or> state_tbl disk = Some [] \<or> (\<exists>r. state_tbl disk = Some [r] \<and> row_id r = 1)"
  shows "\<exists>s. sqlite_Start (sqlite_New n disk) = (Ok (), s) \<and> sq_ready s \<and> entriesToRetain s = n
    \<and> state_tbl s = Some (case state_tbl disk of Some [r] \<Rightarrow> [r] | _ \<Rightarrow> [first_row])
    \<and> entries_tbl s = Some (case entries_tbl disk of None \<Rightarrow> [] | Some t \<Rightarrow> t)
    \<and> peers_tbl s = Some (case peers_tbl disk of None \<Rightarrow> [] | Some ps \<Rightarrow> ps)
    \<and> user_db s = user_db disk"
proof -
  let ?d = "(sqlite_New n disk)\<lparr>db := HOpen, mgmtdb := HOpen, raftdb := HOpen\<rparr>"
  have d: "calm ?d" "raftdb ?d = HOpen" "mgmtdb ?d = HOpen" "state_tbl ?d = state_tbl disk"
    "entries_tbl ?d = entries_tbl disk" "peers_tbl ?d = peers_tbl disk"
    using assms(1) by (simp_all add: sqlite_New_def calm_def)
  have "calm (sqlite_New n disk)" using assms(1) by (simp add: sqlite_New_def calm_def)
  then have "sqlite_Start (sqlite_New n disk) = sqlite_createTables ?d"
    by (simp add: sqlite_Start_def calm_innerStart Let_def)
  moreover have "row_id first_row = 1" by (simp add: first_row_def)
  ultimately show ?thesis
    using calm_createTables [OF d(1-3)] d assms
    by (auto simp: sq_ready_def calm_def tables_ok_def sqlite_New_def split: option.splits)
qed

section \<open>The interface\<close>

definition sqlite_backend :: "('u, 'q, 'e) sqlite_engine_scheme \<Rightarrow> ('u sqlite, 'q) db_backend" where
  "sqlite_backend X = \<lparr>be_Start = sqlite_Start, be_Stop = sqlite_Stop, be_AppendEntries = sqlite_AppendEntries,
     be_SaveApplied = sqlite_SaveApplied, be_GetAppliedIndex = sqlite_GetAppliedIndex,
     be_SaveHardState = sqlite_SaveHardState, be_SaveConfState = sqlite_SaveConfState X,
     be_SaveSnapshot = sqlite_SaveSnapshot, be_RemoveSavedSnapshot = sqlite_RemoveSavedSnapshot,
     be_ApplySnapshot = sqlite_ApplySnapshot X, be_LoadPeers = sqlite_LoadPeers,
     be_UpsertPeer = sqlite_UpsertPeer, be_RemovePeer = sqlite_RemovePeer,
     be_ExecSQL = sqlite_ExecSQL X, be_QuerySQL = sqlite_QuerySQL X\<rparr>"

lemma big_with_db:
  "sq_ready s \<Longrightarrow> h \<in> {db, mgmtdb, raftdb} \<Longrightarrow> \<not> list_all small vs \<Longrightarrow> with_db h vs m s = (Err high_bit, s)"
  by (auto simp: with_db_def sq_ready_def small_def list_all_iff list_ex_iff not_less)

text \<open>The parts of the state a committed write changes: the application's data and the applied index.\<close>

abbreviation sq_view :: "'u sqlite \<Rightarrow> 'u \<times> u64" where
  "sq_view s \<equiv> (user_db s, sq_applied s)"

lemma leaves_with_db:
  fixes m :: "('u sqlite, 'a) op"
  assumes "leaves sq_ready v m" and "h \<in> {db, mgmtdb, raftdb}"
  shows "leaves sq_ready v (with_db h args m)"
proof (rule leavesI)
  fix s :: "'u sqlite" assume s: "sq_ready s"
  show "(\<forall>e. fst (with_db h args m s) \<noteq> Panic e) \<and> sq_ready (snd (with_db h args m s))
    \<and> v (snd (with_db h args m s)) = v s"
  proof (cases "list_all small args")
    case True
    then show ?thesis using assms s by (simp add: ready_with_db leaves_def)
  next
    case False
    then show ?thesis using assms s by (simp add: big_with_db)
  qed
qed

lemma leaves_update_state:
  assumes "\<And>r. row_id (f r) = row_id r" and "\<And>r. row_idx (f r) = row_idx r"
  shows "leaves sq_ready sq_view (update_state sqlite_dialect vs f)"
proof (rule leavesI)
  fix s :: "'u sqlite" assume s: "sq_ready s"
  then obtain r where r: "state_tbl s = Some [r]" "row_id r = 1" by (rule ready_state_row)
  have "sq_ready (s\<lparr>state_tbl := Some [f r]\<rparr>)" using s r(2) assms(1) by (simp add: ready_state_update)
  then show "(\<forall>e. fst (update_state sqlite_dialect vs f s) \<noteq> Panic e)
    \<and> sq_ready (snd (update_state sqlite_dialect vs f s)) \<and> sq_view (snd (update_state sqlite_dialect vs f s)) = sq_view s"
    using s r assms(2) by (simp add: update_state_def sq_applied_def)
qed

lemma leaves_insert_entry: "leaves sq_ready sq_view (insert_entry sqlite_dialect e)"
proof (rule leavesI)
  fix s :: "'u sqlite" assume s: "sq_ready s"
  then obtain t where t: "entries_tbl s = Some t" "pk_ok Index t" by (auto simp: sq_ready_def tables_ok_def)
  have "sq_ready (s\<lparr>entries_tbl := Some t'\<rparr>)" if "pk_insert Index e t = Some t'" for t'
    using s pk_ok_insert [OF t(2) that] by (rule ready_entries_update)
  then show "(\<forall>x. fst (insert_entry sqlite_dialect e s) \<noteq> Panic x)
    \<and> sq_ready (snd (insert_entry sqlite_dialect e s)) \<and> sq_view (snd (insert_entry sqlite_dialect e s)) = sq_view s"
    using s t by (simp add: insert_entry_def sq_applied_def split: option.splits)
qed

lemma leaves_delete_entries: "leaves sq_ready sq_view (delete_entries sqlite_dialect P)"
proof (rule leavesI)
  fix s :: "'u sqlite" assume s: "sq_ready s"
  then obtain t where t: "entries_tbl s = Some t" "pk_ok Index t" by (auto simp: sq_ready_def tables_ok_def)
  then have "sq_ready (s\<lparr>entries_tbl := Some (pk_delete P t)\<rparr>)" using s by (simp add: ready_entries_update)
  then show "(\<forall>x. fst (delete_entries sqlite_dialect P s) \<noteq> Panic x)
    \<and> sq_ready (snd (delete_entries sqlite_dialect P s)) \<and> sq_view (snd (delete_entries sqlite_dialect P s)) = sq_view s"
    using t by (simp add: delete_entries_def sq_applied_def)
qed

lemma leaves_AppendEntries: "leaves sq_ready sq_view (sqlite_AppendEntries es)"
  unfolding sqlite_AppendEntries_def sqlite_appendEntry_def sqlite_tryInsert_def insert_or_truncate_def
    delete_from_def delete_old_def Let_def
  by (intro leaves_intros leaves_with_db leaves_insert_entry leaves_delete_entries) simp_all

lemma leaves_SaveHardState: "leaves sq_ready sq_view (sqlite_SaveHardState hs)"
  unfolding sqlite_SaveHardState_def by (intro leaves_intros leaves_with_db leaves_update_state) simp_all

lemma leaves_SaveConfState: "leaves sq_ready sq_view (sqlite_SaveConfState X cs)"
  unfolding sqlite_SaveConfState_def by (intro leaves_intros leaves_with_db leaves_update_state) simp_all

lemma leaves_UpsertPeer: "leaves sq_ready (\<lambda>s. (user_db s, sq_applied s)) (sqlite_UpsertPeer p)"
proof (rule leavesI)
  fix s
  assume s: "sq_ready s"
  then obtain ps where ps: "peers_tbl s = Some ps" by (auto simp: sq_ready_def)
  then have ok: "pk_ok NodeID ps" using s by (simp add: sq_ready_def tables_ok_def)
  show "(\<forall>e. fst (sqlite_UpsertPeer p s) \<noteq> Panic e) \<and> sq_ready (snd (sqlite_UpsertPeer p s))
    \<and> (user_db (snd (sqlite_UpsertPeer p s)), sq_applied (snd (sqlite_UpsertPeer p s))) = (user_db s, sq_applied s)"
  proof (cases "small (NodeID p)")
    case True
    from ready_UpsertPeer [OF s ps True] ok s show ?thesis
      by (simp add: sq_applied_def ready_peers_update)
  next
    case False
    then have "with_db mgmtdb [NodeID p] (replace_peer sqlite_dialect p) s = (Err high_bit, s)"
      using s by (intro big_with_db) auto
    then show ?thesis
      using s ps
      by (auto simp: sqlite_UpsertPeer_def op_defs ready_with_db ready_read_rows select_peer_at_def query_defs
          simp del: read_rows.simps split: option.splits)
  qed
qed

lemma leaves_RemovePeer: "leaves sq_ready (\<lambda>s. (user_db s, sq_applied s)) (sqlite_RemovePeer n)"
proof (rule leavesI)
  fix s
  assume s: "sq_ready s"
  then obtain ps where ps: "peers_tbl s = Some ps" by (auto simp: sq_ready_def)
  then have ok: "pk_ok NodeID ps" using s by (simp add: sq_ready_def tables_ok_def)
  show "(\<forall>e. fst (sqlite_RemovePeer n s) \<noteq> Panic e) \<and> sq_ready (snd (sqlite_RemovePeer n s))
    \<and> (user_db (snd (sqlite_RemovePeer n s)), sq_applied (snd (sqlite_RemovePeer n s))) = (user_db s, sq_applied s)"
  proof (cases "small n")
    case True
    from ready_RemovePeer [OF s ps True] ok s show ?thesis
      by (simp add: sq_applied_def ready_peers_update)
  next
    case False
    then have "with_db mgmtdb [n] (delete_peer sqlite_dialect n) s = (Err high_bit, s)"
      using s by (intro big_with_db) auto
    then show ?thesis using s by (simp add: sqlite_RemovePeer_def op_defs)
  qed
qed

text \<open>The SQLite backend keeps the contract a node relies on.\<close>

definition is_sqlite_error :: "goerr \<Rightarrow> bool" where
  "is_sqlite_error e \<longleftrightarrow> (case e of ESqlite c \<Rightarrow> True | _ \<Rightarrow> False)"

interpretation sqlite_sql: sql_backend "sqlite_backend X" sq_ready user_db sq_applied "user_exec X" small is_sqlite_error
  for X :: "('u, 'q, 'e) sqlite_engine_scheme"
proof
  fix s :: "'u sqlite" and trm ix q u
  assume s: "sq_ready s" and sm: "small trm" "small ix"
  obtain r where r: "state_tbl s = Some [r]" "row_id r = 1" using s by (rule ready_state_row)
  have u: "sq_ready (s\<lparr>user_db := u\<rparr>)" using s by (rule ready_user_update)
  then have u': "sq_ready (s\<lparr>user_db := u, state_tbl := Some [r\<lparr>row_term := trm, row_idx := ix\<rparr>]\<rparr>)"
    using r by (intro ready_state_update) simp_all
  note eq = ready_ExecSQL [OF s r(1) sm, of X q]
  { assume "user_exec X q (user_db s) = (None, u)"
    with eq u' show "\<exists>b'. be_ExecSQL (sqlite_backend X) trm ix q s = (Ok (), b') \<and> sq_ready b' \<and> user_db b' = u
        \<and> sq_applied b' = ix"
      by (simp add: sqlite_backend_def sq_applied_def) }
  { fix e
    assume "user_exec X q (user_db s) = (Some e, u)" and "is_sqlite_error e"
    with eq u show "\<exists>b'. be_ExecSQL (sqlite_backend X) trm ix q s = (Err (EDBError e), b') \<and> sq_ready b'
        \<and> user_db b' = u \<and> sq_applied b' = sq_applied s"
      by (auto simp: sqlite_backend_def sq_applied_def is_sqlite_error_def split: goerr.splits) }
qed (simp_all add: sqlite_backend_def leaves_SaveConfState leaves_UpsertPeer leaves_RemovePeer
    leaves_AppendEntries leaves_SaveHardState)

end
