(* ===== verification/Log_Reads.thy ===== *)
theory Log_Reads
  imports Backend_Interface
begin

text \<open>
  The reading loop of \<open>Entries\<close>, the same text in \<open>internal/backend/sqlite/storage.go\<close> and
  \<open>internal/backend/mysql/storage.go\<close>: the two bounds it tracks over the rows, and what its final
  checks decide on a consecutive log.
\<close>

text \<open>The two indices the loop over the rows tracks, both starting at 0.\<close>

definition row_bounds :: "entry list \<Rightarrow> u64 \<times> u64" where
  "row_bounds rows = fold (\<lambda>e (loIdx, hiIdx). (if loIdx = 0 then Index e else loIdx, Index e)) rows (0, 0)"

definition maxUint64 :: u64 where
  "maxUint64 = - 1"

lemma row_bounds_append: "row_bounds (rs @ [e]) =
    (if fst (row_bounds rs) = 0 then Index e else fst (row_bounds rs), Index e)"
  by (simp add: row_bounds_def split: prod.splits)

lemma row_bounds_eq:
  assumes "rs \<noteq> []" and "Index (hd rs) \<noteq> 0"
  shows "row_bounds rs = (Index (hd rs), Index (last rs))"
  using assms
proof (induction rs rule: rev_induct)
  case (snoc e rs)
  then show ?case
  proof (cases "rs = []")
    case True
    then show ?thesis by (simp add: row_bounds_def)
  next
    case False
    with snoc have "row_bounds rs = (Index (hd rs), Index (last rs))" by simp
    with False snoc.prems show ?thesis by (simp add: row_bounds_append)
  qed
qed simp

lemma contig_range:
  assumes "contig t"
  shows "filter (\<lambda>e. lo \<le> Index e \<and> Index e < hi) t =
    take (unat hi - max (unat lo) (idx (hd t))) (drop (unat lo - idx (hd t)) t)"
proof -
  let ?d = "drop (unat lo - idx (hd t)) t"
  have "filter (\<lambda>e. lo \<le> Index e \<and> Index e < hi) t =
      filter (\<lambda>e. idx e < unat hi) (filter (\<lambda>e. unat lo \<le> idx e) t)"
    by (simp add: word_less_nat_alt word_le_nat_alt conj_commute)
  also have "\<dots> = take (unat hi - idx (hd ?d)) ?d"
    using assms by (simp add: contig_filter_ge contig_filter_less contig_drop)
  also have "\<dots> = take (unat hi - max (unat lo) (idx (hd t))) ?d"
  proof (cases "?d = []")
    case False
    then have "idx (hd ?d) = idx (hd t) + (unat lo - idx (hd t))"
      using assms by (simp add: hd_drop_conv_nth contig_nth)
    then show ?thesis by (simp add: max_def)
  qed simp
  finally show ?thesis .
qed

lemma unat_hiIdx: "i < (hi :: u64) \<Longrightarrow> (i + 1 < hi) = (Suc (unat i) < unat hi)"
  by (simp add: word_less_nat_alt unat_Suc_less)

lemma cut_length:
  fixes lo f hi k n m :: nat
  assumes "k = min (min n (hi - lo)) (m - (lo - f))" and "f \<le> lo" and "lo < hi" and "lo - f < m"
  shows "(lo + k < hi) = (f + m < hi \<or> n < hi - lo)"
  using assms by (auto simp: min_def)

text \<open>The rows an interval selects from a consecutive log, by where the interval lies.\<close>

lemma entries_outcome:
  assumes "contig t" and "t \<noteq> []" and "0 < idx (hd t)" and "0 < lo" and "lo < hi"
    and rs: "rs = take n (filter (\<lambda>e. lo \<le> Index e \<and> Index e < hi) t)"
    and b: "row_bounds rs = (loIdx, hiIdx)"
  shows "(if lo < loIdx then Err ECompacted else if hiIdx + 1 < hi then Err EUnavailable else Ok rs) =
     (if unat hi \<le> idx (hd t) \<or> n = 0 then Err EUnavailable
      else if unat lo < idx (hd t) then Err ECompacted
      else if Suc (idx (last t)) < unat hi \<or> n < unat hi - unat lo then Err EUnavailable
      else Ok (take (unat hi - unat lo) (drop (unat lo - idx (hd t)) t)))"
proof -
  let ?f = "idx (hd t)"
  have len: "Suc (idx (last t)) = ?f + length t" using assms(1,2) by (rule contig_last)
  have rs': "rs = take (min n (unat hi - max (unat lo) ?f)) (drop (unat lo - ?f) t)"
    unfolding rs contig_range [OF assms(1)] by simp
  have lohi: "unat lo < unat hi" "0 < unat lo" using assms(4,5) by (simp_all add: word_less_nat_alt)
  show ?thesis
  proof (cases "rs = []")
    case True
    then have "loIdx = 0" "hiIdx = 0" using b by (simp_all add: row_bounds_def)
    moreover have "1 < hi" using lohi by (simp add: word_less_nat_alt)
    moreover have "n = 0 \<or> unat hi \<le> max (unat lo) ?f \<or> length t \<le> unat lo - ?f"
      using True rs' by (auto simp: min_def split: if_splits)
    ultimately show ?thesis using len lohi assms(2) by (auto simp: word_less_nat_alt max_def split: if_splits)
  next
    case False
    then have n: "0 < n" "?f < unat hi" "unat lo - ?f < length t"
      using rs' by (auto simp: max_def split: if_splits)
    have hd: "idx (hd rs) = max (unat lo) ?f"
      using False rs' n assms(1) by (simp add: hd_take hd_drop_conv_nth contig_nth max_def)
    have c: "contig rs" using assms(1) rs' by (simp add: contig_take contig_drop)
    have last: "Suc (idx (last rs)) = max (unat lo) ?f + length rs"
      using contig_last [OF c False] hd by simp
    have "last rs \<in> set rs" using False by simp
    then have lt: "Index (last rs) < hi" unfolding rs by (auto dest: in_set_takeD)
    have "idx (hd rs) \<noteq> 0" using hd lohi by simp
    then have "Index (hd rs) \<noteq> 0" by auto
    then have "loIdx = Index (hd rs)" "hiIdx = Index (last rs)"
      using row_bounds_eq [OF False] b by simp_all
    then have cmp: "(lo < loIdx) = (unat lo < ?f)"
      "(hiIdx + 1 < hi) = (max (unat lo) ?f + length rs < unat hi)"
      using hd last unat_hiIdx [OF lt] by (simp_all add: word_less_nat_alt less_max_iff_disj)
    show ?thesis
    proof (cases "unat lo < ?f")
      case True
      then show ?thesis using cmp(1) n by simp
    next
      case False
      then have mx: "max (unat lo) ?f = unat lo" by simp
      have "length rs = min (min n (unat hi - unat lo)) (length t - (unat lo - ?f))"
        unfolding rs' mx by (simp add: min.commute)
      then have "(unat lo + length rs < unat hi) = (?f + length t < unat hi \<or> n < unat hi - unat lo)"
        using False lohi(1) n(3) by (intro cut_length) simp_all
      then have "(hiIdx + 1 < hi) = (Suc (idx (last t)) < unat hi \<or> n < unat hi - unat lo)"
        unfolding cmp(2) mx len .
      moreover have "rs = take (unat hi - unat lo) (drop (unat lo - ?f) t)" if "\<not> n < unat hi - unat lo"
        using that unfolding rs' mx by (simp add: min_def)
      ultimately show ?thesis using False n cmp(1) by simp
    qed
  qed
qed

end
