(* ===== verification/Sqlite_Storage.thy ===== *)
theory Sqlite_Storage
  imports Sqlite_Backend Log_Reads
begin

text \<open>
  The \<open>raft.Storage\<close> half of the SQLite backend, \<open>internal/backend/sqlite/storage.go\<close>: what the
  Raft library reads back from the object.
\<close>

definition sqlite_InitialState ::
  "('u, 'q, 'e) engine_scheme \<Rightarrow> ('u sqlite, hard_state \<times> conf_state) op" where
  "sqlite_InitialState X =
     op_bind (wrap_err ''query: %s'' (with_db raftdb [] (select_state sqlite_dialect (\<lambda>r.
       (\<lparr>HSTerm = hardstate_term r, Vote = hardstate_vote r, Commit = hardstate_commit r\<rparr>,
        confstate r))))) (\<lambda>(hard, confBytes).
     case confBytes of
       None \<Rightarrow> op_ret (hard, zero_conf_state)
     | Some b \<Rightarrow>
         if b = [] then op_ret (hard, zero_conf_state)
         else (case cs_unmarshal X b of
             Inl e \<Rightarrow> op_err (ENew ''unmarshalling conf state'')
           | Inr conf \<Rightarrow> op_ret (hard, conf)))"

definition sqlite_Entries :: "u64 \<Rightarrow> u64 \<Rightarrow> u64 \<Rightarrow> ('u sqlite, entry list) op" where
  "sqlite_Entries lo hi maxSize =
     op_bind (wrap_err ''querying entries [%d,%d) limit %d''
       (if maxSize \<noteq> maxUint64
        then with_db raftdb [lo, hi, maxSize] (select_range sqlite_dialect lo hi (Some maxSize))
        else with_db raftdb [lo, hi] (select_range sqlite_dialect lo hi None))) (\<lambda>rows.
     op_bind (read_rows ''reading rows'' rows) (\<lambda>result.
     let (loIdx, hiIdx) = row_bounds result in
     if lo < loIdx then op_err ECompacted
     else if hiIdx + 1 < hi then op_err EUnavailable
     else op_ret result))"

definition sqlite_LastIndex :: "('u sqlite, u64) op" where
  "sqlite_LastIndex = sqlite_queryInteger raftdb [] (select_max sqlite_dialect)"

definition sqlite_FirstIndex :: "('u sqlite, u64) op" where
  "sqlite_FirstIndex = sqlite_queryInteger raftdb [] (select_min sqlite_dialect)"

definition sqlite_Term :: "u64 \<Rightarrow> ('u sqlite, u64) op" where
  "sqlite_Term i =
     (if i = 0 then op_ret 0
      else op_bind (attempt (sqlite_queryInteger raftdb [i] (select_term sqlite_dialect i))) (\<lambda>r. case r of
        Inl err \<Rightarrow>
          if err = ENoRows then
            op_bind (attempt sqlite_FirstIndex) (\<lambda>f.
            let firstIdx = (case f of Inl _ \<Rightarrow> 0 | Inr v \<Rightarrow> v) in
            if i < firstIdx then op_err ECompacted else op_err EUnavailable)
          else op_err err
      | Inr trm \<Rightarrow> op_ret trm))"

text \<open>The file images of the directory, in the directory's order.\<close>

definition file_image :: "('u, 'q, 'e) sqlite_engine_scheme \<Rightarrow> 'u sqlite \<Rightarrow> string \<Rightarrow> bytes" where
  "file_image X s n =
     (if n = ''db.sqlite'' then img_user X (user_db s)
      else if n = ''mgmt.sqlite'' then img_mgmt X (peers_tbl s)
      else if n = ''raft.sqlite'' then img_raft X (state_tbl s, entries_tbl s)
      else (case map_of (other_files s) n of None \<Rightarrow> [] | Some b \<Rightarrow> b))"

definition sqlite_Snapshot :: "('u, 'q, 'e) sqlite_engine_scheme \<Rightarrow> ('u sqlite, snapshot) op" where
  "sqlite_Snapshot X =
     op_bind (wrap_err ''opening dir %s'' (sys_call (op_ret ()))) (\<lambda>_.
     op_bind (wrap_err ''reading dir %s'' (sys_call (op_get dir_names))) (\<lambda>fileinfos.
     op_bind (op_foreach (\<lambda>fi. wrap_err ''opening file %s'' (sys_call (op_ret ()))) fileinfos) (\<lambda>_.
     op_bind (wrap_err ''retrieving raft state''
       (with_db raftdb [] (select_state sqlite_dialect (\<lambda>r. (row_term r, row_idx r))))) (\<lambda>(trm, ix).
     op_bind (op_get (\<lambda>s. map (\<lambda>n. (n, file_image X s n)) (filter (\<lambda>n. n \<noteq> ''raft.sqlite'') fileinfos)))
       (\<lambda>members.
     op_bind (op_foreach (\<lambda>m. wrap_err ''archiving file %s'' (sys_call (op_ret ()))) members) (\<lambda>_.
     op_ret \<lparr>SData = tar X members,
       Metadata = \<lparr>SMConfState = zero_conf_state, SMIndex = ix, SMTerm = trm\<rparr>\<rparr>))))))"

section \<open>Reading the log\<close>

lemma ready_select_range:
  assumes "sq_ready s" and "entries_tbl s = Some t" and "small lo" and "small hi"
    and "mx = maxUint64 \<or> small mx"
  shows "sqlite_Entries lo hi mx s =
    (let rs = filter (\<lambda>e. lo \<le> Index e \<and> Index e < hi) t;
         rs = (if mx = maxUint64 then rs else take (unat mx) rs);
         (loIdx, hiIdx) = row_bounds rs in
     (if lo < loIdx then Err ECompacted else if hiIdx + 1 < hi then Err EUnavailable else Ok rs, s))"
  using assms
  by (auto simp: sqlite_Entries_def op_defs ready_with_db ready_read_rows select_range_def query_defs Let_def
      split: prod.splits)

text \<open>
  C24. \<open>Entries\<close> on a started backend, on every interval of a consecutive log: the requested slice
  exactly when it lies inside the log and no more rows are asked for than the limit allows;
  \<open>ErrCompacted\<close> when the interval starts before the log but reaches into it, \<open>ErrUnavailable\<close>
  when it ends behind it, when it lies entirely before it, and when \<open>maxSize\<close>, which the query
  uses as a number of rows, is below the length of the interval.
\<close>

theorem sqlite_Entries_spec:
  assumes "sq_ready s" and "entries_tbl s = Some t" and "contig t" and "t \<noteq> []" and "0 < idx (hd t)"
    and "0 < lo" and "lo < hi" and "small hi" and "maxSize = maxUint64 \<or> small maxSize"
  shows "sqlite_Entries lo hi maxSize s =
    (if unat hi \<le> idx (hd t) \<or> maxSize = 0 then Err EUnavailable
     else if unat lo < idx (hd t) then Err ECompacted
     else if Suc (idx (last t)) < unat hi then Err EUnavailable
     else if maxSize \<noteq> maxUint64 \<and> unat maxSize < unat hi - unat lo then Err EUnavailable
     else Ok (take (unat hi - unat lo) (drop (unat lo - idx (hd t)) t)), s)"
proof -
  let ?sel = "filter (\<lambda>e. lo \<le> Index e \<and> Index e < hi) t"
  define n where "n = (if maxSize = maxUint64 then length t + 2 ^ 64 else unat maxSize)"
  have rows: "(if maxSize = maxUint64 then ?sel else take (unat maxSize) ?sel) = take n ?sel"
    by (auto simp: n_def intro!: take_all [symmetric] trans_le_add1 length_filter_le)
  have "small lo" using assms(7,8) by (simp add: small_def word_less_nat_alt)
  obtain loIdx hiIdx where b: "row_bounds (take n ?sel) = (loIdx, hiIdx)" by fastforce
  have lt: "unat hi < 2 ^ 64" using unsigned_less [of hi, where ?'a = nat] by simp
  have n: "n = 0 \<longleftrightarrow> maxSize = 0"
    "n < unat hi - unat lo \<longleftrightarrow> maxSize \<noteq> maxUint64 \<and> unat maxSize < unat hi - unat lo"
    using lt by (auto simp: n_def maxUint64_def unat_eq_zero)
  have "sqlite_Entries lo hi maxSize s =
     (if lo < loIdx then Err ECompacted else if hiIdx + 1 < hi then Err EUnavailable else Ok (take n ?sel), s)"
    using ready_select_range [OF assms(1,2) \<open>small lo\<close> assms(8,9)] b unfolding Let_def rows by simp
  then show ?thesis
    unfolding entries_outcome [OF assms(3-7) refl b] n by simp
qed

lemma sqlite_Entries_spec_witness:
  "let s = demo_sqlite 0 [demo_entry 1 4 ''a'', demo_entry 2 5 ''b'', demo_entry 2 6 ''c''] []
   in fst (sqlite_Entries 4 6 maxUint64 s) = Ok [demo_entry 1 4 ''a'', demo_entry 2 5 ''b'']
    \<and> fst (sqlite_Entries 4 6 1 s) = Err EUnavailable
    \<and> fst (sqlite_Entries 2 5 maxUint64 s) = Err ECompacted
    \<and> fst (sqlite_Entries 2 4 maxUint64 s) = Err EUnavailable"
proof -
  let ?t = "[demo_entry 1 4 ''a'', demo_entry 2 5 ''b'', demo_entry 2 6 ''c'']"
  have hyp: "sq_ready (demo_sqlite 0 ?t [])" "contig ?t" "0 < idx (hd ?t)"
    by (simp_all add: demo_sqlite_ready demo_entry_def)
  note spec = sqlite_Entries_spec [OF hyp(1) _ hyp(2) _ hyp(3)]
  show ?thesis
    using spec [of 4 6 maxUint64] spec [of 4 6 1] spec [of 2 5 maxUint64] spec [of 2 4 maxUint64]
    by (simp add: small_def Let_def maxUint64_def demo_entry_def)
qed

lemma ready_bounds:
  assumes "sq_ready s" and "entries_tbl s = Some t"
  shows "sqlite_FirstIndex s = (Ok (if t = [] then 1 else Index (hd t)), s)"
    and "sqlite_LastIndex s = (Ok (if t = [] then 0 else Index (last t)), s)"
proof -
  have "pk_ok Index t" using assms by (simp add: sq_ready_def tables_ok_def)
  then show "sqlite_FirstIndex s = (Ok (if t = [] then 1 else Index (hd t)), s)"
    and "sqlite_LastIndex s = (Ok (if t = [] then 0 else Index (last t)), s)"
    using assms by (simp_all add: sqlite_FirstIndex_def sqlite_LastIndex_def sqlite_queryInteger_def
        wrap_err_def ready_with_db select_min_eq select_max_eq)
qed

lemma ready_Term:
  assumes "sq_ready s" and "entries_tbl s = Some t" and "small i" and "i \<noteq> 0"
  shows "sqlite_Term i s = (case pk_find Index i t of
     None \<Rightarrow> Err (EWrap ENoRows ''query: %s %+v'') | Some e \<Rightarrow> Ok (Term e), s)"
  using assms
  by (auto simp: sqlite_Term_def sqlite_queryInteger_def op_defs ready_with_db select_term_def query_defs
      split: option.splits)

lemma small_Suc: "small k \<Longrightarrow> unat (k + 1) = Suc (unat k)"
  by (simp add: small_def unat_word_ariths)

text \<open>
  C12. What was appended is what the Raft library reads back: after a successful append of
  \<open>es\<close>, \<open>LastIndex\<close> is the index of the last new entry, every retained entry's term is returned by
  \<open>Term\<close> (all of \<open>es\<close> when retention is off), \<open>FirstIndex\<close> is the index of the oldest retained
  entry, and \<open>Entries\<close> from there to the end returns the whole stored log.
\<close>

theorem sqlite_append_read_back:
  assumes "sq_ready s" and "entries_tbl s = Some t" and "contig t" and "fits_log t es" and "es \<noteq> []"
    and "list_all storable (t @ es)" and "\<forall>e \<in> set (t @ es). 0 < Index e"
    and "small (entriesToRetain s)" and "small (Index (last es) + 1)"
  shows "\<exists>l s'. sqlite_AppendEntries es s = (Ok (), s') \<and> l \<noteq> []
    \<and> l = log_retain (entriesToRetain s) (Index (last es)) (log_append t es)
    \<and> fst (sqlite_LastIndex s') = Ok (Index (last es))
    \<and> fst (sqlite_FirstIndex s') = Ok (Index (hd l))
    \<and> (\<forall>e \<in> set l. fst (sqlite_Term (Index e) s') = Ok (Term e))
    \<and> fst (sqlite_Entries (Index (hd l)) (Index (last es) + 1) maxUint64 s') = Ok l"
proof -
  let ?n = "entriesToRetain s" and ?k = "Index (last es)"
  let ?a = "log_append t es" and ?l = "log_retain ?n ?k (log_append t es)"
  let ?s' = "s\<lparr>entries_tbl := Some ?l\<rparr>"
  have c: "contig ?a" using assms(3,4) by (rule contig_log_append)
  then have cl: "contig ?l" by (rule contig_retain)
  have ne: "?a \<noteq> []" using assms(5) by (auto simp: log_append_def split: list.splits)
  have la: "last ?a = last es" using assms(5) by (rule last_log_append)
  have l: "?l \<noteq> []" "last ?l = last es"
    using log_retain_bounds [OF c ne, of ?n ?k] ne la by (cases "?n = 0"; simp add: log_retain_def)+
  have sub: "set ?l \<subseteq> set (t @ es)"
    by (auto simp: log_retain_def log_append_def split: list.splits if_splits)
  have app: "sqlite_AppendEntries es s = (Ok (), ?s')"
    using assms by (intro sqlite_AppendEntries_eq) simp_all
  have rd: "sq_ready ?s'" using assms(1) cl by (intro ready_entries_update contig_pk_ok)
  have pos: "0 < Index e" "small (Index e)" if "e \<in> set ?l" for e
    using that sub assms(6,7) by (auto simp: list_all_iff storable_def)
  have trm: "fst (sqlite_Term (Index e) ?s') = Ok (Term e)" if e: "e \<in> set ?l" for e
  proof -
    have "pk_find Index (Index e) ?l = Some e"
      using e by (simp add: pk_find_Some_iff [OF contig_pk_ok [OF cl]])
    then show ?thesis using ready_Term [OF rd, of ?l "Index e"] pos [OF e] by auto
  qed
  have hd: "hd ?l \<in> set ?l" and lst: "last ?l \<in> set ?l" using l(1) by simp_all
  have "small ?k" using pos(2) [OF lst] l(2) by simp
  then have suc: "unat (?k + 1) = Suc (unat ?k)" by (rule small_Suc)
  have "idx (hd ?l) \<le> unat ?k" using contig_idx_range(1) [OF cl lst] l(2) by simp
  then have ents: "fst (sqlite_Entries (Index (hd ?l)) (?k + 1) maxUint64 ?s') = Ok ?l"
    using ready_select_range [OF rd _ pos(2) [OF hd] assms(9), of ?l maxUint64]
      entries_outcome [OF cl l(1), of "Index (hd ?l)" "?k + 1" _ "length ?l"]
      pos(1) [OF hd] suc l contig_last [OF cl l(1)]
    by (auto simp: Let_def word_less_nat_alt contig_range [OF cl] split: prod.splits)
  show ?thesis
    using app l trm ents ready_bounds [OF rd, of ?l] by (intro exI [of _ ?l] exI [of _ ?s']) simp
qed

lemma sqlite_append_read_back_witness:
  "let s' = snd (sqlite_AppendEntries [demo_entry 2 5 ''b'', demo_entry 2 6 ''c'']
       (demo_sqlite 2 [demo_entry 1 4 ''a'', demo_entry 1 5 ''x''] []))
   in fst (sqlite_LastIndex s') = Ok 6 \<and> (\<exists>l. fst (sqlite_Entries (Index (hd l)) 7 maxUint64 s') = Ok l \<and> l \<noteq> [])"
  using sqlite_append_read_back [of "demo_sqlite 2 [demo_entry 1 4 ''a'', demo_entry 1 5 ''x''] []"
      "[demo_entry 1 4 ''a'', demo_entry 1 5 ''x'']" "[demo_entry 2 5 ''b'', demo_entry 2 6 ''c'']"]
  by (auto simp: demo_sqlite_ready demo_entry_def fits_log_def storable_def small_def Let_def)

text \<open>
  \<open>Term\<close> never answers \<open>ErrCompacted\<close> or \<open>ErrUnavailable\<close>, in any state and under any fault:
  the error of \<open>queryInteger\<close> comes back wrapped, so the comparison with \<open>sql.ErrNoRows\<close> fails and
  the branch that consults \<open>FirstIndex\<close> is dead. A missing entry, the one before \<open>FirstIndex\<close>
  included, is reported as the wrapped \<open>sql.ErrNoRows\<close>.
\<close>

theorem sqlite_Term_never_compacted:
  "fst (sqlite_Term i s) \<noteq> Err ECompacted \<and> fst (sqlite_Term i s) \<noteq> Err EUnavailable
   \<and> (sq_ready s \<and> entries_tbl s = Some t \<and> small i \<and> i \<noteq> 0 \<and> (\<forall>e \<in> set t. Index e \<noteq> i) \<longrightarrow>
      fst (sqlite_Term i s) = Err (EWrap ENoRows ''query: %s %+v''))"
proof -
  have "pk_find Index i t = None" if "\<forall>e \<in> set t. Index e \<noteq> i"
    using that by (simp add: pk_find_None_iff)
  then have "fst (sqlite_Term i s) = Err (EWrap ENoRows ''query: %s %+v'')"
    if "sq_ready s" "entries_tbl s = Some t" "small i" "i \<noteq> 0" "\<forall>e \<in> set t. Index e \<noteq> i"
    using ready_Term [OF that(1-4)] that(5) by simp
  then show ?thesis
    by (auto simp: sqlite_Term_def sqlite_queryInteger_def op_defs split: prod.splits res.splits sum.splits)
qed

lemma sqlite_Term_never_compacted_witness:
  "fst (sqlite_Term 2 (demo_sqlite 0 [demo_entry 1 3 ''a''] [])) = Err (EWrap ENoRows ''query: %s %+v'')"
  using sqlite_Term_never_compacted [of 2 "demo_sqlite 0 [demo_entry 1 3 ''a''] []" "[demo_entry 1 3 ''a'']"]
  by (simp add: demo_sqlite_ready demo_entry_def small_def)

section \<open>The saved Raft state\<close>

lemma ready_InitialState:
  assumes "sq_ready s" and "state_tbl s = Some [r]"
  shows "sqlite_InitialState X s = (let hard = \<lparr>HSTerm = hardstate_term r, Vote = hardstate_vote r,
       Commit = hardstate_commit r\<rparr> in
     (case confstate r of
       None \<Rightarrow> Ok (hard, zero_conf_state)
     | Some b \<Rightarrow> if b = [] then Ok (hard, zero_conf_state) else (case cs_unmarshal X b of
           Inl e \<Rightarrow> Err (ENew ''unmarshalling conf state'')
         | Inr conf \<Rightarrow> Ok (hard, conf))), s)"
  using ready_select_state [OF assms, of "\<lambda>r. (\<lparr>HSTerm = hardstate_term r, Vote = hardstate_vote r,
      Commit = hardstate_commit r\<rparr>, confstate r)"]
  by (auto simp: sqlite_InitialState_def op_defs Let_def split: option.splits sum.splits)

text \<open>
  C27. What the Raft library saves is what it starts from: after \<open>SaveHardState hs\<close>,
  \<open>SaveApplied\<close> and \<open>SaveConfState cs\<close>, \<open>InitialState\<close> returns exactly \<open>hs\<close> and \<open>cs\<close>, the applied
  index is the one saved, and the log, the peers and the application's data are untouched.
\<close>

theorem sqlite_InitialState_roundtrip:
  assumes "sq_ready s" and "cs_codec_ok X cs"
    and "small (HSTerm hs)" and "small (Vote hs)" and "small (Commit hs)" and "small trm" and "small ix"
  shows "\<exists>s'. op_bind (sqlite_SaveHardState hs) (\<lambda>_. op_bind (sqlite_SaveApplied trm ix) (\<lambda>_.
        sqlite_SaveConfState X cs)) s = (Ok (), s')
    \<and> fst (sqlite_InitialState X s') = Ok (hs, cs)
    \<and> fst (sqlite_GetAppliedIndex s') = Ok ix
    \<and> entries_tbl s' = entries_tbl s \<and> peers_tbl s' = peers_tbl s \<and> user_db s' = user_db s"
proof -
  obtain r where r: "state_tbl s = Some [r]" "row_id r = 1" using assms(1) by (rule ready_state_row)
  obtain b where b: "cs_marshal X cs = Inr b" "b \<noteq> []" "cs_unmarshal X b = Inr cs"
    using assms(2) by (auto simp: cs_codec_ok_def)
  let ?r1 = "r\<lparr>hardstate_term := HSTerm hs, hardstate_vote := Vote hs, hardstate_commit := Commit hs\<rparr>"
  let ?r2 = "?r1\<lparr>row_term := trm, row_idx := ix\<rparr>" let ?r3 = "?r2\<lparr>confstate := Some b\<rparr>"
  have rd: "sq_ready (s\<lparr>state_tbl := Some [?r1]\<rparr>)" "sq_ready (s\<lparr>state_tbl := Some [?r2]\<rparr>)"
    "sq_ready (s\<lparr>state_tbl := Some [?r3]\<rparr>)"
    using assms(1) r(2) by (auto intro: ready_state_update)
  have "op_bind (sqlite_SaveHardState hs) (\<lambda>_. op_bind (sqlite_SaveApplied trm ix) (\<lambda>_.
      sqlite_SaveConfState X cs)) s = (Ok (), s\<lparr>state_tbl := Some [?r3]\<rparr>)"
    using ready_SaveHardState [OF assms(1) r(1) assms(3-5)]
      ready_SaveApplied [OF rd(1) _ assms(6,7), of ?r1] ready_SaveConfState [OF rd(2) _ b(1), of ?r2]
    by (simp add: op_bind_def)
  then show ?thesis
    using ready_InitialState [OF rd(3), of ?r3 X] ready_GetAppliedIndex [OF rd(3), of ?r3] b by simp
qed

lemma sqlite_InitialState_roundtrip_witness:
  "\<exists>s'. fst (sqlite_InitialState demo_engine s') = Ok (\<lparr>HSTerm = 4, Vote = 1, Commit = 9\<rparr>, demo_conf)
    \<and> fst (sqlite_GetAppliedIndex s') = Ok 8"
  using sqlite_InitialState_roundtrip [of "demo_sqlite 5 [] []" demo_engine demo_conf
      "\<lparr>HSTerm = 4, Vote = 1, Commit = 9\<rparr>" 4 8]
  by (auto simp: demo_sqlite_ready cs_codec_ok_def demo_engine_def demo_marshal_def demo_unmarshal_def small_def)

section \<open>Snapshots\<close>

lemma calm_foreach_noop:
  "calm s \<Longrightarrow> op_foreach (\<lambda>x. wrap_err m (sys_call (op_ret ()))) xs s = (Ok (), s)"
  by (induction xs) (simp_all add: op_defs sys_call_calm)

text \<open>What \<open>Snapshot\<close> archives: every file of the directory but the Raft database.\<close>

definition archive_of :: "('u, 'q, 'e) sqlite_engine_scheme \<Rightarrow> 'u sqlite \<Rightarrow> (string \<times> bytes) list" where
  "archive_of X s = map (\<lambda>n. (n, file_image X s n)) (filter (\<lambda>n. n \<noteq> ''raft.sqlite'') (dir_names s))"

lemma ready_Snapshot:
  assumes "sq_ready s" and "state_tbl s = Some [r]"
  shows "sqlite_Snapshot X s = (Ok \<lparr>SData = tar X (archive_of X s),
     Metadata = \<lparr>SMConfState = zero_conf_state, SMIndex = row_idx r, SMTerm = row_term r\<rparr>\<rparr>, s)"
proof -
  have c: "calm s" using assms(1) by (simp add: sq_ready_def)
  show ?thesis
    using ready_select_state [OF assms, of "\<lambda>r. (row_term r, row_idx r)"]
    by (simp add: sqlite_Snapshot_def op_bind_def wrap_err_def [of "''retrieving raft state''"]
        wrap_err_def [of "''opening dir %s''"] wrap_err_def [of "''reading dir %s''"]
        calm_foreach_noop [OF c, unfolded op_ret_def] sys_call_calm [OF c] op_ret_def op_get_def archive_of_def)
qed

lemma calm_extract:
  "calm s \<Longrightarrow> sqlite_extract X f s = write_file X (fst f) (snd f) s"
  by (simp add: sqlite_extract_def op_defs sys_call_calm write_file_def)

lemma two_names:
  assumes "distinct xs" and "set xs = {a, b}" and "a \<noteq> b"
  shows "xs = [a, b] \<or> xs = [b, a]"
proof -
  have "length xs = 2" using assms distinct_card [of xs] by simp
  then obtain x y where "xs = [x, y]" by (metis length_0_conv length_Suc_conv numeral_2_eq_2)
  with assms show ?thesis by auto
qed

text \<open>
  Restoring the two application files over another backend: the file images are read back whatever
  longer file they overwrite.
\<close>

definition images_ok :: "('u, 'q, 'e) sqlite_engine_scheme \<Rightarrow> 'u sqlite \<Rightarrow> bool" where
  "images_ok X s \<longleftrightarrow> (\<forall>rest. read_user X (img_user X (user_db s) @ rest) = user_db s)
     \<and> (\<forall>rest. read_mgmt X (img_mgmt X (peers_tbl s) @ rest) = peers_tbl s)"

lemma extract_db:
  assumes "images_ok X s" and "calm d"
  shows "\<exists>ns. sqlite_extract X (''db.sqlite'', file_image X s ''db.sqlite'') d = (Ok (), d\<lparr>user_db := user_db s, dir_names := ns\<rparr>)"
  using assms
  by (intro exI [of _ "if ''db.sqlite'' \<in> set (dir_names d) then dir_names d else dir_names d @ [''db.sqlite'']"], cases d)
    (simp add: calm_extract write_file_def file_image_def overwrite_def images_ok_def)

lemma extract_mgmt:
  assumes "images_ok X s" and "calm d"
  shows "\<exists>ns. sqlite_extract X (''mgmt.sqlite'', file_image X s ''mgmt.sqlite'') d = (Ok (), d\<lparr>peers_tbl := peers_tbl s, dir_names := ns\<rparr>)"
  using assms
  by (intro exI [of _ "if ''mgmt.sqlite'' \<in> set (dir_names d) then dir_names d else dir_names d @ [''mgmt.sqlite'']"], cases d)
    (simp add: calm_extract write_file_def file_image_def overwrite_def images_ok_def)

lemma extract_archive:
  assumes "calm d" and "images_ok X s" and "distinct (dir_names s)"
    and "set (dir_names s) = {''db.sqlite'', ''mgmt.sqlite'', ''raft.sqlite''}"
  shows "\<exists>ns. op_foreach (sqlite_extract X) (archive_of X s) d =
    (Ok (), d\<lparr>user_db := user_db s, peers_tbl := peers_tbl s, dir_names := ns\<rparr>)"
proof -
  let ?ns = "filter (\<lambda>n. n \<noteq> ''raft.sqlite'') (dir_names s)"
  have names: "set ?ns = {''db.sqlite'', ''mgmt.sqlite''}" using assms(4) by auto
  note wr = extract_db [OF assms(2)] extract_mgmt [OF assms(2)]
  have c: "calm (d\<lparr>user_db := u, dir_names := ns\<rparr>)" "calm (d\<lparr>peers_tbl := p, dir_names := ns\<rparr>)" for u p ns
    using assms(1) by (simp_all add: calm_def)
  from names have "?ns = [''db.sqlite'', ''mgmt.sqlite''] \<or> ?ns = [''mgmt.sqlite'', ''db.sqlite'']"
    using assms(3) by (intro two_names) auto
  then show ?thesis
  proof
    assume "?ns = [''db.sqlite'', ''mgmt.sqlite'']"
    moreover obtain n1 n2 where "sqlite_extract X (''db.sqlite'', file_image X s ''db.sqlite'') d =
        (Ok (), d\<lparr>user_db := user_db s, dir_names := n1\<rparr>)"
      "sqlite_extract X (''mgmt.sqlite'', file_image X s ''mgmt.sqlite'') (d\<lparr>user_db := user_db s, dir_names := n1\<rparr>) =
        (Ok (), d\<lparr>user_db := user_db s, dir_names := n1, peers_tbl := peers_tbl s, dir_names := n2\<rparr>)"
      using wr(1) [OF assms(1)] wr(2) [OF c(1)] by blast
    ultimately show ?thesis by (intro exI [of _ n2]) (simp add: archive_of_def op_bind_def op_ret_def)
  next
    assume "?ns = [''mgmt.sqlite'', ''db.sqlite'']"
    moreover obtain n1 n2 where "sqlite_extract X (''mgmt.sqlite'', file_image X s ''mgmt.sqlite'') d =
        (Ok (), d\<lparr>peers_tbl := peers_tbl s, dir_names := n1\<rparr>)"
      "sqlite_extract X (''db.sqlite'', file_image X s ''db.sqlite'') (d\<lparr>peers_tbl := peers_tbl s, dir_names := n1\<rparr>) =
        (Ok (), d\<lparr>peers_tbl := peers_tbl s, dir_names := n1, user_db := user_db s, dir_names := n2\<rparr>)"
      using wr(2) [OF assms(1)] wr(1) [OF c(2)] by blast
    ultimately show ?thesis by (intro exI [of _ n2]) (simp add: archive_of_def op_bind_def op_ret_def)
  qed
qed

text \<open>What restoring a snapshot of a started backend needs of the file images, of the archive format and of the codec.\<close>

definition sqlite_carries :: "('u, 'q, 'e) sqlite_engine_scheme \<Rightarrow> 'u sqlite \<Rightarrow> snapshot \<Rightarrow> bool" where
  "sqlite_carries X src snap \<longleftrightarrow> fst (sqlite_Snapshot X src) = Ok snap \<and> distinct (dir_names src)
     \<and> set (dir_names src) = {''db.sqlite'', ''mgmt.sqlite'', ''raft.sqlite''}
     \<and> untar X (tar X (archive_of X src)) = (archive_of X src, None) \<and> images_ok X src \<and> cs_codec_ok X zero_conf_state
     \<and> small (SMIndex (Metadata snap)) \<and> small (SMTerm (Metadata snap))"

lemma sqlite_restore:
  assumes "sq_ready src" and "sqlite_carries X src snap" and "sq_ready dst" and "state_tbl src = Some [r]"
    and "state_tbl dst = Some [r']" and b: "cs_marshal X zero_conf_state = Inr b"
  shows "\<exists>ns. let d = dst\<lparr>user_db := user_db src, peers_tbl := peers_tbl src, dir_names := ns,
      state_tbl := Some [r'\<lparr>confstate := Some b, row_term := row_term r, row_idx := row_idx r\<rparr>]\<rparr>
    in sqlite_ApplySnapshot X snap dst = (Ok (), d) \<and> sq_ready d"
proof -
  note c = assms(2) [unfolded sqlite_carries_def]
  have eq: "snap = \<lparr>SData = tar X (archive_of X src),
      Metadata = \<lparr>SMConfState = zero_conf_state, SMIndex = row_idx r, SMTerm = row_term r\<rparr>\<rparr>"
    using c [THEN conjunct1] unfolding ready_Snapshot [OF assms(1,4)] by simp
  then have snap: "SData snap = tar X (archive_of X src)" "SMConfState (Metadata snap) = zero_conf_state"
    "SMIndex (Metadata snap) = row_idx r" "SMTerm (Metadata snap) = row_term r" by simp_all
  have sm: "small (row_idx r)" "small (row_term r)" using c unfolding snap(3,4) by blast+
  have files: "images_ok X src" "distinct (dir_names src)" "set (dir_names src) = {''db.sqlite'', ''mgmt.sqlite'', ''raft.sqlite''}"
    "untar X (tar X (archive_of X src)) = (archive_of X src, None)" using c by blast+
  define st where "st = dst\<lparr>raftdb := close_handle (raftdb dst), mgmtdb := close_handle (mgmtdb dst),
    db := close_handle (db dst)\<rparr>"
  have stop: "calm st" "sqlite_Stop dst = (Ok (), st)"
    using assms(3) by (simp_all add: st_def sqlite_Stop_def op_mod_def sq_ready_def calm_def)
  have h: "db dst = HOpen" "mgmtdb dst = HOpen" "raftdb dst = HOpen" "calm dst"
    using ready_handles [OF assms(3)] by simp_all
  obtain ns where "op_foreach (sqlite_extract X) (archive_of X src) st =
      (Ok (), st\<lparr>user_db := user_db src, peers_tbl := peers_tbl src, dir_names := ns\<rparr>)"
    using extract_archive [OF stop(1) files(1-3)] by blast
  then have ext: "sqlite_extractAll X (SData snap) st =
      (Ok (), st\<lparr>user_db := user_db src, peers_tbl := peers_tbl src, dir_names := ns\<rparr>)"
    using files(4) snap(1) by (simp add: sqlite_extractAll_def op_bind_def op_ret_def)
  let ?up = "dst\<lparr>user_db := user_db src, peers_tbl := peers_tbl src, dir_names := ns\<rparr>"
  have reopen: "sqlite_innerStart False (st\<lparr>user_db := user_db src, peers_tbl := peers_tbl src, dir_names := ns\<rparr>) = (Ok (), ?up)"
    using h by (subst calm_innerStart) (simp_all add: st_def calm_def)
  have up: "sq_ready ?up" using assms(1,3) by (auto simp: sq_ready_def tables_ok_def calm_def)
  let ?r1 = "r'\<lparr>confstate := Some b\<rparr>" let ?r2 = "?r1\<lparr>row_term := row_term r, row_idx := row_idx r\<rparr>"
  have "row_id r' = 1" using assms(3,5) by (auto simp: sq_ready_def)
  then have rd: "sq_ready (?up\<lparr>state_tbl := Some [?r1]\<rparr>)" "sq_ready (?up\<lparr>state_tbl := Some [?r2]\<rparr>)"
    by (auto intro!: ready_state_update [OF up])
  have "sqlite_ApplySnapshot X snap dst = (Ok (), ?up\<lparr>state_tbl := Some [?r2]\<rparr>)"
    using stop(2) ext reopen ready_SaveConfState [OF up _ b, of r'] assms(5) snap
      ready_SaveApplied [OF rd(1) _ sm(2,1), of ?r1]
    by (simp add: sqlite_ApplySnapshot_def op_bind_def attempt_def wrap_err_def)
  with rd(2) show ?thesis by (intro exI [of _ ns]) simp
qed

lemma ready_QuerySQL: "sq_ready b \<Longrightarrow> snd (sqlite_QuerySQL X q b) = b \<and> fst (sqlite_QuerySQL X q b) \<noteq> Panic e"
  by (auto simp: sqlite_QuerySQL_def with_db_def with_handle_def sys_call_def sq_ready_def calm_def split: sum.splits)

lemma sqlite_carries_index:
  assumes "sq_ready src" and "sqlite_carries X src snap"
  shows "SMIndex (Metadata snap) = sq_applied src"
proof -
  obtain r where r: "state_tbl src = Some [r]" using assms(1) by (rule ready_state_row)
  have "Ok snap = fst (sqlite_Snapshot X src)" using assms(2) by (simp add: sqlite_carries_def)
  then show ?thesis using r unfolding ready_Snapshot [OF assms(1) r] by (simp add: sq_applied_def)
qed

text \<open>The SQLite backend keeps the contract of a backend whose snapshots can be restored.\<close>

interpretation sqlite_snap: snapshot_backend "sqlite_backend X" sq_ready user_db sq_applied "user_exec X" small is_sqlite_error
  "sqlite_carries X"
  for X :: "('u, 'q, 'e) sqlite_engine_scheme"
proof unfold_locales
  fix src b :: "'u sqlite" and snap
  assume src: "sq_ready src" and c: "sqlite_carries X src snap"
  show "SMIndex (Metadata snap) \<le> sq_applied src" using sqlite_carries_index [OF src c] by simp
  obtain r where r: "state_tbl src = Some [r]" using src by (rule ready_state_row)
  assume b: "sq_ready b"
  obtain r' where r': "state_tbl b = Some [r']" using b by (rule ready_state_row)
  obtain cs where cs: "cs_marshal X zero_conf_state = Inr cs"
    using c by (auto simp: sqlite_carries_def cs_codec_ok_def)
  from sqlite_restore [OF src c b r r' cs] r
  show "\<exists>b'. be_ApplySnapshot (sqlite_backend X) snap b = (Ok (), b') \<and> sq_ready b' \<and> user_db b' = user_db src
      \<and> sq_applied b' = sq_applied src"
    by (auto simp: sqlite_backend_def Let_def sq_applied_def)
next
  fix b :: "'u sqlite"
  assume b: "sq_ready b"
  obtain r where r: "state_tbl b = Some [r]" using b by (rule ready_state_row)
  show "be_GetAppliedIndex (sqlite_backend X) b = (Ok (sq_applied b), b)"
    using ready_GetAppliedIndex [OF b r] r by (simp add: sqlite_backend_def sq_applied_def)
next
  fix q
  show "leaves sq_ready (\<lambda>b. (user_db b, sq_applied b)) (be_QuerySQL (sqlite_backend X) q)"
    using ready_QuerySQL [of _ X q] by (auto simp: leaves_def sqlite_backend_def)
qed (auto simp: sqlite_backend_def sqlite_SaveSnapshot_def sqlite_RemoveSavedSnapshot_def op_ret_def leaves_def)



lemma calm_extract_members:
  "calm d \<Longrightarrow> list_all (\<lambda>m. fst m \<noteq> ''raft.sqlite'') ms \<Longrightarrow>
   \<exists>d'. op_foreach (sqlite_extract X) ms d = (Ok (), d') \<and> calm d'
     \<and> state_tbl d' = state_tbl d \<and> entries_tbl d' = entries_tbl d"
proof (induction ms arbitrary: d)
  case Nil
  then show ?case by (simp add: op_ret_def)
next
  case (Cons m ms)
  obtain d1 where d1: "sqlite_extract X m d = (Ok (), d1)" "calm d1"
    "state_tbl d1 = state_tbl d" "entries_tbl d1 = entries_tbl d"
    using Cons.prems by (simp add: calm_extract write_file_def Let_def) (simp add: calm_def)
  with Cons.IH [of d1] Cons.prems show ?case by (auto simp: op_bind_def)
qed

text \<open>
  A snapshot whose archive is damaged is reported, and the backend comes back up: the handles
  closed for the restore are open again, the log, the applied index and the Raft state are
  unchanged (the members read before the damage have been written over the application's files).
\<close>

theorem sqlite_ApplySnapshot_damaged:
  assumes "sq_ready s" and "untar X (SData snap) = (ms, Some e)"
    and "list_all (\<lambda>m. fst m \<noteq> ''raft.sqlite'') ms"
  shows "\<exists>s'. sqlite_ApplySnapshot X snap s = (Err (EWrap e ''reading tar''), s')
    \<and> raftdb s' = HOpen \<and> mgmtdb s' = HOpen \<and> db s' = HOpen
    \<and> entries_tbl s' = entries_tbl s \<and> state_tbl s' = state_tbl s"
proof -
  obtain st where stop: "sqlite_Stop s = (Ok (), st)" "calm st"
    "state_tbl st = state_tbl s" "entries_tbl st = entries_tbl s"
    using assms(1) by (simp add: sqlite_Stop_def op_mod_def sq_ready_def calm_def)
  obtain d where d: "op_foreach (sqlite_extract X) ms st = (Ok (), d)" "calm d"
    "state_tbl d = state_tbl s" "entries_tbl d = entries_tbl s"
    using calm_extract_members [OF stop(2) assms(3), of X] stop(3,4) by auto
  then have "sqlite_extractAll X (SData snap) st = (Err (EWrap e ''reading tar''), d)"
    using assms(2) by (simp add: sqlite_extractAll_def op_defs)
  then have "sqlite_ApplySnapshot X snap s = (Err (EWrap e ''reading tar''), d\<lparr>db := HOpen, mgmtdb := HOpen, raftdb := HOpen\<rparr>)"
    using stop(1) calm_innerStart [OF d(2), of False]
    by (simp add: sqlite_ApplySnapshot_def op_defs)
  with d(3,4) show ?thesis by simp
qed

lemma sqlite_ApplySnapshot_damaged_witness:
  "\<exists>s'. sqlite_ApplySnapshot demo_engine (zero_snapshot\<lparr>SData := ''x''\<rparr>) (demo_sqlite 5 [demo_entry 1 1 ''a''] [])
      = (Err (EWrap (EDriver ''unexpected EOF'') ''reading tar''), s')
    \<and> raftdb s' = HOpen \<and> entries_tbl s' = Some [demo_entry 1 1 ''a'']"
  using sqlite_ApplySnapshot_damaged [of "demo_sqlite 5 [demo_entry 1 1 ''a''] []" demo_engine
      "zero_snapshot\<lparr>SData := ''x''\<rparr>" "[(''db.sqlite'', ''x''), (''mgmt.sqlite'', [])]"
      "EDriver ''unexpected EOF''"]
  by (auto simp: demo_sqlite_ready demo_engine_def)

end
