(* ===== verification/Mysql_Backend.thy ===== *)
theory Mysql_Backend
  imports Backend_Interface
begin

text \<open>
  The MySQL backend, \<open>internal/backend/mysql/backend.go\<close>, and the SSH client it uses,
  \<open>MakeSSHSession\<close> of \<open>internal/lib/ssh.go\<close>. The state holds the object, the server's databases
  (the tables), and the pod the server runs in. What is outside the program is a parameter: what
  the pod's shell does with a command, how the pod changes while time passes, whether the server
  answers, what a remote host streams. A trace records what the program did to the pod.
\<close>

section \<open>The object and its surroundings\<close>

record mysql_params =
  mp_Addr :: string
  mp_MysqlPort :: int
  mp_SSHPort :: int
  mp_PrivateKey :: bytes
  mp_EntriesToRetain :: u64

record snapshotReference =
  ref_Addr :: string
  ref_SSHPort :: int

text \<open>A command run in the pod, one run on a remote host, the \<open>SHUTDOWN\<close> statement, a ping that failed, time slept.\<close>

datatype pod_event =
    Ran string
  | Remote string int string
  | SqlShutdown
  | PingFailed
  | Slept nat

record ('u, 'p) mysql = "'u tables" +
  databases :: "string list"
  my_entriesToRetain :: u64
  my_addr :: string
  mysqlPort :: int
  sshPort :: int
  privateKey :: bytes
  maindb :: handle
  my_mgmtdb :: handle
  my_raftdb :: handle
  pod :: 'p
  ssh_clients :: nat
  ev_trace :: "pod_event list"

text \<open>The content of the server's data directory.\<close>

record 'u datadir =
  dd_databases :: "string list"
  dd_state :: "state_row list option"
  dd_entries :: "entry list option"
  dd_peers :: "peer_info list option"
  dd_user :: 'u

definition datadir_of :: "('u, 'p) mysql \<Rightarrow> 'u datadir" where
  "datadir_of s = \<lparr>dd_databases = databases s, dd_state = state_tbl s, dd_entries = entries_tbl s,
     dd_peers = peers_tbl s, dd_user = user_db s\<rparr>"

definition put_datadir :: "'u datadir \<Rightarrow> ('u, 'p) mysql \<Rightarrow> ('u, 'p) mysql" where
  "put_datadir d s = s\<lparr>databases := dd_databases d, state_tbl := dd_state d, entries_tbl := dd_entries d,
     peers_tbl := dd_peers d, user_db := dd_user d\<rparr>"

text \<open>
  The parameters: \<open>reachable\<close> says whether the server accepts connections, \<open>second\<close> what one second
  does to the pod, \<open>sql_shutdown\<close> what the \<open>SHUTDOWN\<close> statement does to it, \<open>shell\<close> runs a command with
  its input on the pod and the data directory and yields the exit error and the error output,
  \<open>remote_run\<close> is the output of a command on another host, \<open>parse_key\<close> the error of parsing a private
  key, \<open>same_text\<close> the collation text columns are compared with, and the two \<open>json\<close> functions
  the encoding of a snapshot reference.
\<close>

record ('u, 'q, 'p) mysql_engine = "('u, 'q) engine" +
  reachable :: "'p \<Rightarrow> bool"
  second :: "'p \<Rightarrow> 'p"
  sql_shutdown :: "'p \<Rightarrow> 'p"
  shell :: "string \<Rightarrow> bytes \<Rightarrow> 'p \<times> 'u datadir \<Rightarrow> (goerr option \<times> string) \<times> 'p \<times> 'u datadir"
  remote_run :: "string \<Rightarrow> int \<Rightarrow> string \<Rightarrow> bytes"
  parse_key :: "bytes \<Rightarrow> goerr option"
  same_text :: "string \<Rightarrow> string \<Rightarrow> bool"
  ref_Marshal :: "snapshotReference \<Rightarrow> goerr + bytes"
  ref_Unmarshal :: "bytes \<Rightarrow> goerr + snapshotReference"

text \<open>MySQL's errors: duplicate key 1062, no such table 1146, unknown database 1049, value out of the
  range of an \<open>INT\<close> column 1264, data too long for a \<open>BLOB\<close> 1406, unsigned addition out of range 1690.\<close>

definition mysql_dialect :: dialect where
  "mysql_dialect = \<lparr>err_dup = EMySQL 1062, err_no_table = EMySQL 1146, err_range = EMySQL 1264,
     int_max = 2 ^ 31 - 1\<rparr>"

definition blob_max :: nat where
  "blob_max = 65535"

definition refused :: goerr where
  "refused = EOpError (Some EConnRefused)"

text \<open>A statement through one of the handles.\<close>

definition my_call :: "('u, 'q, 'p, 'e) mysql_engine_scheme \<Rightarrow> (('u, 'p) mysql \<Rightarrow> handle) \<Rightarrow>
    (('u, 'p) mysql, 'a) op \<Rightarrow> (('u, 'p) mysql, 'a) op" where
  "my_call X h m s = (case h s of
      HNil \<Rightarrow> (Panic nil_deref, s)
    | HClosed \<Rightarrow> (Err db_closed, s)
    | HOpen \<Rightarrow> if reachable X (pod s) then sys_call m s else (Err refused, s))"

definition in_database :: "string \<Rightarrow> (('u, 'p) mysql, 'a) op \<Rightarrow> (('u, 'p) mysql, 'a) op" where
  "in_database n m s = (if n \<in> set (databases s) then m s else (Err (EMySQL 1049), s))"

definition raft_stmt :: "('u, 'q, 'p, 'e) mysql_engine_scheme \<Rightarrow> (('u, 'p) mysql, 'a) op \<Rightarrow> (('u, 'p) mysql, 'a) op" where
  "raft_stmt X m = my_call X my_raftdb (in_database ''raft'' m)"

definition mgmt_stmt :: "('u, 'q, 'p, 'e) mysql_engine_scheme \<Rightarrow> (('u, 'p) mysql, 'a) op \<Rightarrow> (('u, 'p) mysql, 'a) op" where
  "mgmt_stmt X m = my_call X my_mgmtdb (in_database ''mgmt'' m)"

text \<open>\<open>queryInteger\<close>: scan one value; the driver's error comes back wrapped.\<close>

definition my_queryInteger :: "(('u, 'p) mysql, 'a) op \<Rightarrow> (('u, 'p) mysql, 'a) op" where
  "my_queryInteger q = wrap_err ''query: %s %+v'' q"

text \<open>\<open>time.Sleep\<close>, in seconds: the pod goes on meanwhile.\<close>

definition my_sleep :: "('u, 'q, 'p, 'e) mysql_engine_scheme \<Rightarrow> nat \<Rightarrow> (('u, 'p) mysql, unit) op" where
  "my_sleep X n = op_mod (\<lambda>s. s\<lparr>pod := (second X ^^ n) (pod s), ev_trace := ev_trace s @ [Slept n]\<rparr>)"

section \<open>Lifecycle\<close>

definition mysql_New :: "mysql_params \<Rightarrow> ('u, 'p) mysql \<Rightarrow> ('u, 'p) mysql" where
  "mysql_New p host = host\<lparr>my_entriesToRetain := mp_EntriesToRetain p, my_addr := mp_Addr p,
     mysqlPort := mp_MysqlPort p, sshPort := mp_SSHPort p, privateKey := mp_PrivateKey p,
     maindb := HNil, my_mgmtdb := HNil, my_raftdb := HNil\<rparr>"

definition create_database :: "string \<Rightarrow> (('u, 'p) mysql, unit) op" where
  "create_database n = op_mod (\<lambda>s. if n \<in> set (databases s) then s else s\<lparr>databases := databases s @ [n]\<rparr>)"

definition mysql_createTables :: "('u, 'q, 'p, 'e) mysql_engine_scheme \<Rightarrow> (('u, 'p) mysql, unit) op" where
  "mysql_createTables X =
     op_bind (wrap_err ''creating raft database'' (my_call X maindb (create_database ''raft''))) (\<lambda>_.
     op_bind (wrap_err ''creating mgmt database'' (my_call X maindb (create_database ''mgmt''))) (\<lambda>_.
     op_bind (wrap_err ''connecting to db, string: %s'' (sys_call (op_ret ()))) (\<lambda>_.
     op_bind (op_mod (\<lambda>s. s\<lparr>my_raftdb := HOpen\<rparr>)) (\<lambda>_.
     op_bind (wrap_err ''connecting to db, string: %s'' (sys_call (op_ret ()))) (\<lambda>_.
     op_bind (op_mod (\<lambda>s. s\<lparr>my_mgmtdb := HOpen\<rparr>)) (\<lambda>_.
     op_bind (wrap_err ''creating state table'' (raft_stmt X create_state)) (\<lambda>_.
     op_bind (wrap_err ''querying state table''
       (my_queryInteger (raft_stmt X (count_state mysql_dialect)))) (\<lambda>count.
     op_bind (if count = 0
       then wrap_err ''creating first row of state table'' (raft_stmt X (insert_state mysql_dialect))
       else op_ret ()) (\<lambda>_.
     op_bind (wrap_err ''creating peers table'' (mgmt_stmt X create_peers)) (\<lambda>_.
     wrap_err ''creating entries table'' (raft_stmt X create_entries)))))))))))"

text \<open>
  \<open>innerStart\<close>: \<open>sql.Open\<close> does not connect; the previous handle, if any, is closed and replaced.
\<close>

definition mysql_innerStart :: "('u, 'q, 'p, 'e) mysql_engine_scheme \<Rightarrow> bool \<Rightarrow> (('u, 'p) mysql, unit) op" where
  "mysql_innerStart X create =
     op_bind (wrap_err ''connecting to db, string %s'' (sys_call (op_ret ()))) (\<lambda>_.
     op_bind (op_mod (\<lambda>s. s\<lparr>maindb := HOpen\<rparr>)) (\<lambda>_.
     if create then mysql_createTables X else op_ret ()))"

definition mysql_Start :: "('u, 'q, 'p, 'e) mysql_engine_scheme \<Rightarrow> (('u, 'p) mysql, unit) op" where
  "mysql_Start X = mysql_innerStart X True"

definition mysql_Stop :: "(('u, 'p) mysql, unit) op" where
  "mysql_Stop = op_mod (\<lambda>s. s\<lparr>maindb := close_handle (maindb s), my_raftdb := close_handle (my_raftdb s),
     my_mgmtdb := close_handle (my_mgmtdb s)\<rparr>)"

section \<open>The Raft log\<close>

text \<open>The \<open>INSERT\<close>: the \<open>data\<close> column is a \<open>BLOB\<close>.\<close>

definition my_insert :: "entry \<Rightarrow> (('u, 'p) mysql, nat) op" where
  "my_insert e s = (if entries_tbl s \<noteq> None \<and> blob_max < length (Data e) then (Err (EMySQL 1406), s)
     else insert_entry mysql_dialect e s)"

definition mysql_tryInsert :: "('u, 'q, 'p, 'e) mysql_engine_scheme \<Rightarrow> entry \<Rightarrow> (('u, 'p) mysql, nat) op" where
  "mysql_tryInsert X e = raft_stmt X (my_insert e)"

definition mysql_appendEntry :: "('u, 'q, 'p, 'e) mysql_engine_scheme \<Rightarrow> entry \<Rightarrow> (('u, 'p) mysql, unit) op" where
  "mysql_appendEntry X e = insert_or_truncate (\<lambda>err. err = EMySQL 1062)
     (mysql_tryInsert X e) (raft_stmt X (delete_from mysql_dialect (Index e)))"

text \<open>\<open>DELETE FROM entries WHERE idx + ? <= ?\<close>: the sum is unsigned and must stay in range.\<close>

definition my_delete_old :: "u64 \<Rightarrow> u64 \<Rightarrow> (('u, 'p) mysql, unit) op" where
  "my_delete_old n lastIdx s =
     (if list_ex (\<lambda>e. 2 ^ 64 \<le> unat (Index e) + unat n) (case entries_tbl s of None \<Rightarrow> [] | Some t \<Rightarrow> t)
      then (Err (EMySQL 1690), s) else delete_old mysql_dialect n lastIdx s)"

definition mysql_AppendEntries :: "('u, 'q, 'p, 'e) mysql_engine_scheme \<Rightarrow> entry list \<Rightarrow> (('u, 'p) mysql, unit) op" where
  "mysql_AppendEntries X es =
     (if length es = 0 then op_ret ()
      else op_bind (op_foreach (mysql_appendEntry X) es) (\<lambda>_.
       op_bind (op_get my_entriesToRetain) (\<lambda>n.
       if n \<noteq> 0 then
         (let lastIdx = Index (es ! (length es - 1)) in
          wrap_err ''deleting old raft entries'' (raft_stmt X (my_delete_old n lastIdx)))
       else op_ret ())))"

section \<open>The state row\<close>

definition mysql_SaveHardState :: "('u, 'q, 'p, 'e) mysql_engine_scheme \<Rightarrow> hard_state \<Rightarrow> (('u, 'p) mysql, unit) op" where
  "mysql_SaveHardState X hs = wrap_err ''saving hard state''
     (raft_stmt X (update_state mysql_dialect [HSTerm hs, Vote hs, Commit hs]
       (\<lambda>r. r\<lparr>hardstate_term := HSTerm hs, hardstate_vote := Vote hs, hardstate_commit := Commit hs\<rparr>)))"

definition mysql_SaveApplied :: "('u, 'q, 'p, 'e) mysql_engine_scheme \<Rightarrow> u64 \<Rightarrow> u64 \<Rightarrow> (('u, 'p) mysql, unit) op" where
  "mysql_SaveApplied X trm ix = wrap_err ''saving applied state''
     (raft_stmt X (update_state mysql_dialect [trm, ix] (\<lambda>r. r\<lparr>row_term := trm, row_idx := ix\<rparr>)))"

definition mysql_GetAppliedIndex :: "('u, 'q, 'p, 'e) mysql_engine_scheme \<Rightarrow> (('u, 'p) mysql, u64) op" where
  "mysql_GetAppliedIndex X = wrap_err ''getting applied index''
     (my_queryInteger (raft_stmt X (select_state mysql_dialect row_idx)))"

definition my_save_conf :: "bytes \<Rightarrow> (('u, 'p) mysql, unit) op" where
  "my_save_conf d s = (if list_ex (\<lambda>r. row_id r = 1) (case state_tbl s of None \<Rightarrow> [] | Some t \<Rightarrow> t)
       \<and> blob_max < length d then (Err (EMySQL 1406), s)
     else update_state mysql_dialect [] (\<lambda>r. r\<lparr>confstate := Some d\<rparr>) s)"

definition mysql_SaveConfState :: "('u, 'q, 'p, 'e) mysql_engine_scheme \<Rightarrow> conf_state \<Rightarrow> (('u, 'p) mysql, unit) op" where
  "mysql_SaveConfState X cs = (case cs_marshal X cs of
      Inl e \<Rightarrow> op_err (EWrap e ''marshalling conf state'')
    | Inr d \<Rightarrow> wrap_err ''saving conf state'' (raft_stmt X (my_save_conf d)))"

section \<open>Peers\<close>

definition mysql_LoadPeers :: "('u, 'q, 'p, 'e) mysql_engine_scheme \<Rightarrow> (('u, 'p) mysql, peer_info list) op" where
  "mysql_LoadPeers X =
     op_bind (wrap_err ''query: %s'' (mgmt_stmt X (select_peers mysql_dialect))) (\<lambda>rows.
     read_rows ''scanning row of query: %s'' rows)"

text \<open>\<open>SELECT nodeid FROM peers WHERE address = ? AND port = ?\<close>, under the column's collation.\<close>

definition my_peer_at :: "('u, 'q, 'p, 'e) mysql_engine_scheme \<Rightarrow> string \<Rightarrow> string \<Rightarrow> (('u, 'p) mysql, u64 option) op" where
  "my_peer_at X a p = peers_query mysql_dialect (\<lambda>t.
     Ok (map_option NodeID (find (\<lambda>r. same_text X (Addr r) a \<and> same_text X (Port r) p) t)))"

definition mysql_UpsertPeer :: "('u, 'q, 'p, 'e) mysql_engine_scheme \<Rightarrow> peer_info \<Rightarrow> (('u, 'p) mysql, u64) op" where
  "mysql_UpsertPeer X pi =
     op_bind (wrap_err ''query when upserting address %s port %s''
       (mgmt_stmt X (my_peer_at X (Addr pi) (Port pi)))) (\<lambda>row.
     op_bind (case row of
         None \<Rightarrow> op_ret 0
       | Some n \<Rightarrow> op_bind (read_rows ''scanning row for existing peer node ID'' [n]) (\<lambda>xs.
           op_ret (case xs of [] \<Rightarrow> 0 | x # _ \<Rightarrow> x))) (\<lambda>existingNodeID.
     op_bind (wrap_err ''upserting peer'' (mgmt_stmt X (replace_peer mysql_dialect pi))) (\<lambda>_.
     op_ret existingNodeID)))"

definition mysql_RemovePeer :: "('u, 'q, 'p, 'e) mysql_engine_scheme \<Rightarrow> u64 \<Rightarrow> (('u, 'p) mysql, unit) op" where
  "mysql_RemovePeer X n = wrap_err ''deleting peer'' (mgmt_stmt X (delete_peer mysql_dialect n))"

section \<open>The application's SQL\<close>

definition mysql_ExecSQL ::
  "('u, 'q, 'p, 'e) mysql_engine_scheme \<Rightarrow> u64 \<Rightarrow> u64 \<Rightarrow> string \<Rightarrow> (('u, 'p) mysql, unit) op" where
  "mysql_ExecSQL X trm ix q =
     op_bind (attempt (my_call X maindb (run_user X q))) (\<lambda>r. case r of
       Inl err \<Rightarrow> op_err (case err of EMySQL c \<Rightarrow> EDBError err | _ \<Rightarrow> err)
     | Inr _ \<Rightarrow> mysql_SaveApplied X trm ix)"

definition mysql_QuerySQL :: "('u, 'q, 'p, 'e) mysql_engine_scheme \<Rightarrow> string \<Rightarrow> (('u, 'p) mysql, 'q) op" where
  "mysql_QuerySQL X q = my_call X maindb (\<lambda>s. case user_query X q (user_db s) of
      Inl e \<Rightarrow> (Err e, s) | Inr rows \<Rightarrow> (Ok rows, s))"

definition mysql_SaveSnapshot :: "snapshot \<Rightarrow> (('u, 'p) mysql, u64) op" where
  "mysql_SaveSnapshot snap = op_ret 0"

definition mysql_RemoveSavedSnapshot :: "u64 \<Rightarrow> (('u, 'p) mysql, unit) op" where
  "mysql_RemoveSavedSnapshot h = op_ret ()"

definition mysql_SSHPort :: "('u, 'p) mysql \<Rightarrow> int" where
  "mysql_SSHPort s = sshPort s"

section \<open>Commands over SSH\<close>

text \<open>
  \<open>MakeSSHSession\<close>: each step that follows the dial closes the client when it fails. A session that
  is returned keeps its client open: \<open>session.Close()\<close> ends the channel only.
\<close>

definition MakeSSHSession ::
  "('u, 'q, 'p, 'e) mysql_engine_scheme \<Rightarrow> string \<Rightarrow> int \<Rightarrow> bytes \<Rightarrow> (('u, 'p) mysql, unit) op" where
  "MakeSSHSession X addr port pemBytes = (case parse_key X pemBytes of
      Some e \<Rightarrow> op_err (EWrap e ''parsing private key'')
    | None \<Rightarrow>
        op_bind (wrap_err ''dialing to %s'' (sys_call (op_ret ()))) (\<lambda>_.
        op_bind (op_mod (\<lambda>s. s\<lparr>ssh_clients := Suc (ssh_clients s)\<rparr>)) (\<lambda>_.
        op_bind (attempt
          (op_bind (wrap_err ''starting session'' (sys_call (op_ret ()))) (\<lambda>_.
           wrap_err ''creating stderr pipe'' (sys_call (op_ret ()))))) (\<lambda>r. case r of
          Inl e \<Rightarrow> op_bind (op_mod (\<lambda>s. s\<lparr>ssh_clients := ssh_clients s - 1\<rparr>)) (\<lambda>_. op_err e)
        | Inr _ \<Rightarrow> op_ret ()))))"

text \<open>What the pod does with a command and its input.\<close>

definition run_shell ::
  "('u, 'q, 'p, 'e) mysql_engine_scheme \<Rightarrow> string \<Rightarrow> bytes \<Rightarrow> (('u, 'p) mysql, goerr option \<times> string) op" where
  "run_shell X cmd inp s = (case shell X cmd inp (pod s, datadir_of s) of
     (ex, p, d) \<Rightarrow> (Ok ex, put_datadir d (s\<lparr>pod := p, ev_trace := ev_trace s @ [Ran cmd]\<rparr>)))"

text \<open>\<open>io.ReadAll\<close> on a reader: what is left in it, and the reader drained.\<close>

definition ReadAll :: "string \<Rightarrow> string \<times> string" where
  "ReadAll r = (r, [])"

definition wrapErrorAndAddStderr :: "goerr \<Rightarrow> string \<Rightarrow> string \<Rightarrow> goerr" where
  "wrapErrorAndAddStderr err msg stderr =
     EWrap err (msg @ [CHR 0x0A] @ ''===== stderr ====='' @ [CHR 0x0A] @ fst (ReadAll stderr))"

definition runSSHCommand :: "('u, 'q, 'p, 'e) mysql_engine_scheme \<Rightarrow> string \<Rightarrow> (('u, 'p) mysql, unit) op" where
  "runSSHCommand X command =
     op_bind (op_get (\<lambda>s. (sshPort s, privateKey s))) (\<lambda>(port, key).
     op_bind (wrap_err ''starting SSH session for command [%s]'' (MakeSSHSession X ''localhost'' port key)) (\<lambda>_.
     op_bind (wrap_err ''creating stdout pipe'' (sys_call (op_ret ()))) (\<lambda>_.
     op_bind (wrap_err ''starting command [%s]'' (sys_call (run_shell X command []))) (\<lambda>(ex, localStderr).
     op_bind (wrap_err ''reading stdout'' (sys_call (op_ret ()))) (\<lambda>_.
     op_bind (attempt (sys_call (case ex of None \<Rightarrow> op_ret () | Some e \<Rightarrow> op_err e))) (\<lambda>r. case r of
       Inr _ \<Rightarrow> op_ret ()
     | Inl e \<Rightarrow>
         (let (stderrBytes, localStderr') = ReadAll localStderr in
          op_err (wrapErrorAndAddStderr e (''running command ['' @ command @ '']'') localStderr'))))))))"

section \<open>Statements\<close>

lemma keeps_my_call [keeps_intros]:
  "fault_free P \<Longrightarrow> keeps P m \<Longrightarrow> keeps P (my_call X h m)"
  using keeps_sys_call [of P m] by (auto simp: keeps_def my_call_def split: handle.splits)

lemma keeps_in_database [keeps_intros]: "keeps P m \<Longrightarrow> keeps P (in_database n m)"
  by (simp add: keeps_def in_database_def)

lemma keeps_raft_stmt [keeps_intros]: "fault_free P \<Longrightarrow> keeps P m \<Longrightarrow> keeps P (raft_stmt X m)"
  unfolding raft_stmt_def by (intro keeps_intros)

lemma my_call_Ok:
  assumes "my_call X h m s = (Ok x, t)"
  shows "\<exists>fs. m (s\<lparr>faults := fs\<rparr>) = (Ok x, t)"
  using assms with_handle_Ok [of h m s x t]
  by (auto simp: my_call_def with_handle_def split: handle.splits if_splits)

lemma raft_stmt_Ok: "raft_stmt X m s = (Ok x, t) \<Longrightarrow> \<exists>fs. m (s\<lparr>faults := fs\<rparr>) = (Ok x, t)"
  unfolding raft_stmt_def by (drule my_call_Ok) (auto simp: in_database_def split: if_splits)

section \<open>The loop of AppendEntries\<close>

lemma keeps_stage_my_insert [keeps_intros]:
  "contig t \<Longrightarrow> fits_log t [e] \<Longrightarrow> keeps (at_stage t e) (my_insert e)"
  by (rule keepsI) (simp add: my_insert_def keepsD [OF keeps_stage_insert])

lemma keeps_stage_my_tryInsert [keeps_intros]:
  "contig t \<Longrightarrow> fits_log t [e] \<Longrightarrow> keeps (at_stage t e) (mysql_tryInsert X e)"
  unfolding mysql_tryInsert_def by (intro keeps_intros)

lemma my_tryInsert_done:
  assumes "contig t" and "fits_log t [e]"
  shows "okpost (at_stage t e) (mysql_tryInsert X e)
    (\<lambda>n s'. n = 1 \<and> entries_tbl s' = Some (log_append t [e]))"
proof (rule okpostI)
  fix s n s'
  assume s: "at_stage t e s" and ins: "mysql_tryInsert X e s = (Ok n, s')"
  from raft_stmt_Ok [OF ins [unfolded mysql_tryInsert_def]]
  obtain fs where "insert_entry mysql_dialect e (s\<lparr>faults := fs\<rparr>) = (Ok n, s')"
    by (auto simp: my_insert_def split: if_splits)
  moreover have "at_stage t e (s\<lparr>faults := fs\<rparr>)" using s by (simp add: at_stage_def)
  ultimately show "n = 1 \<and> entries_tbl s' = Some (log_append t [e])"
    using insert_entry_done assms by blast
qed

interpretation mysql_log: entry_appender entries_tbl "mysql_appendEntry X"
  for X :: "('u, 'q, 'p, 'e) mysql_engine_scheme"
proof
  fix t e
  assume t: "contig t" "fits_log t [e]"
  then have "keeps (at_stage t e) (mysql_appendEntry X e)"
    unfolding mysql_appendEntry_def by (intro keeps_intros)
  then show "keeps (\<lambda>s. \<exists>t' \<in> append_stages t e. entries_tbl s = Some t') (mysql_appendEntry X e)"
    unfolding at_stage_def .
next
  fix t e s s'
  assume t: "contig t" "fits_log t [e]" "entries_tbl s = Some t" "mysql_appendEntry X e s = (Ok (), s')"
  have post: "okpost (at_stage t e) (mysql_appendEntry X e) (\<lambda>_ s'. entries_tbl s' = Some (log_append t [e]))"
    unfolding mysql_appendEntry_def using t(1,2)
    by (intro insert_or_truncate_done my_tryInsert_done keeps_intros)
  show "entries_tbl s' = Some (log_append t [e])"
    by (rule okpostD [OF post at_stage_start [OF t(3)] t(4)])
qed

section \<open>A started object\<close>

definition my_ready :: "('u, 'q, 'p, 'e) mysql_engine_scheme \<Rightarrow> ('u, 'p) mysql \<Rightarrow> bool" where
  "my_ready X s \<longleftrightarrow> calm s \<and> reachable X (pod s) \<and> maindb s = HOpen \<and> my_mgmtdb s = HOpen \<and> my_raftdb s = HOpen
     \<and> {''raft'', ''mgmt''} \<subseteq> set (databases s) \<and> tables_ok s
     \<and> (\<exists>r. state_tbl s = Some [r] \<and> row_id r = 1)
     \<and> entries_tbl s \<noteq> None \<and> peers_tbl s \<noteq> None"

text \<open>What an \<open>INT\<close> column holds, and an entry the table accepts.\<close>

definition int32 :: "u64 \<Rightarrow> bool" where
  "int32 v \<longleftrightarrow> unat v < 2 ^ 31"

definition my_storable :: "entry \<Rightarrow> bool" where
  "my_storable e \<longleftrightarrow> int32 (Index e) \<and> int32 (Term e) \<and> length (Data e) \<le> blob_max"

lemma err_dup_mysql [simp]: "err_dup mysql_dialect = EMySQL 1062"
  by (simp add: mysql_dialect_def)

lemma fits_mysql: "fits mysql_dialect vs \<longleftrightarrow> list_all int32 vs"
  by (auto simp: fits_def mysql_dialect_def int32_def list_all_iff)

lemma my_ready_stmt [calm_simps]:
  assumes "my_ready X s"
  shows "raft_stmt X m s = m s" and "mgmt_stmt X m s = m s" and "my_call X maindb m s = m s"
  using assms by (simp_all add: my_ready_def raft_stmt_def mgmt_stmt_def my_call_def in_database_def sys_call_calm)

lemma my_ready_read_rows [calm_simps]: "my_ready X s \<Longrightarrow> read_rows msg rs s = (Ok rs, s)"
  by (simp add: my_ready_def read_rows_calm)

lemma my_ready_updates:
  assumes "my_ready X s"
  shows "pk_ok Index t \<Longrightarrow> my_ready X (s\<lparr>entries_tbl := Some t\<rparr>)"
    and "pk_ok NodeID ps \<Longrightarrow> my_ready X (s\<lparr>peers_tbl := Some ps\<rparr>)"
    and "row_id r = 1 \<Longrightarrow> my_ready X (s\<lparr>state_tbl := Some [r]\<rparr>)"
    and "my_ready X (s\<lparr>user_db := u\<rparr>)"
  using assms by (auto simp: my_ready_def tables_ok_def calm_def)

lemma my_ready_parts:
  assumes "my_ready X s"
  obtains r t ps where "state_tbl s = Some [r]" "row_id r = 1" "entries_tbl s = Some t" "pk_ok Index t"
    "peers_tbl s = Some ps" "pk_ok NodeID ps"
  using assms by (auto simp: my_ready_def tables_ok_def)

lemma my_ready_tryInsert:
  assumes "my_ready X s" and "my_storable e" and "entries_tbl s = Some t"
  shows "mysql_tryInsert X e s = (case pk_insert Index e t of
     None \<Rightarrow> (Err (EMySQL 1062), s) | Some t' \<Rightarrow> (Ok 1, s\<lparr>entries_tbl := Some t'\<rparr>))"
proof -
  have "fits mysql_dialect [Index e, Term e]" using assms(2) by (simp add: fits_mysql my_storable_def)
  moreover have "\<not> blob_max < length (Data e)" using assms(2) by (simp add: my_storable_def)
  ultimately have "my_insert e s = (case pk_insert Index e t of
     None \<Rightarrow> (Err (EMySQL 1062), s) | Some t' \<Rightarrow> (Ok 1, s\<lparr>entries_tbl := Some t'\<rparr>))"
    using assms(3) unfolding my_insert_def insert_entry_def by (simp split: option.split)
  then show ?thesis using assms(1) by (simp add: mysql_tryInsert_def my_ready_stmt)
qed

lemma my_ready_appendEntry:
  assumes "my_ready X s" and "my_storable e" and t: "entries_tbl s = Some t" "contig t" and fit: "fits_log t [e]"
  shows "mysql_appendEntry X e s = (Ok (), s\<lparr>entries_tbl := Some (log_append t [e])\<rparr>)"
  unfolding mysql_appendEntry_def
proof (rule insert_or_truncate_runs [OF t fit])
  show "mysql_tryInsert X e (s\<lparr>entries_tbl := Some u\<rparr>) = (case pk_insert Index e u of
      None \<Rightarrow> (Err (EMySQL 1062), s\<lparr>entries_tbl := Some u\<rparr>)
    | Some u' \<Rightarrow> (Ok 1, s\<lparr>entries_tbl := Some u'\<rparr>))" if "pk_ok Index u" for u
    using my_ready_tryInsert [OF my_ready_updates(1) [OF assms(1) that] assms(2)]
    by (simp split: option.split)
  show "raft_stmt X (delete_from mysql_dialect (Index e)) s =
      (Ok (), s\<lparr>entries_tbl := Some (pk_delete (\<lambda>x. Index e \<le> Index x) t)\<rparr>)"
    using assms(1) t(1) by (simp add: my_ready_stmt delete_from_def delete_entries_def)
qed simp

interpretation mysql_store: entry_store "mysql_appendEntry X" "my_ready X" my_storable
  for X :: "('u, 'q, 'p, 'e) mysql_engine_scheme"
  by unfold_locales (simp_all add: my_ready_appendEntry my_ready_updates)

lemma my_ready_delete_old:
  assumes "my_ready X s" and "entries_tbl s = Some t" and "list_all (\<lambda>e. unat (Index e) + unat n < 2 ^ 64) t"
  shows "raft_stmt X (my_delete_old n k) s =
    (Ok (), s\<lparr>entries_tbl := Some (pk_delete (\<lambda>e. idx e + unat n \<le> unat k) t)\<rparr>)"
proof -
  have "\<not> list_ex (\<lambda>e. 2 ^ 64 \<le> unat (Index e) + unat n) t"
    using assms(3) by (auto simp: list_all_iff list_ex_iff not_le)
  then show ?thesis
    using assms(1,2) by (simp add: my_ready_stmt my_delete_old_def delete_old_def delete_entries_def)
qed

text \<open>A started object for the evaluations: the pod is up or not, and a second changes nothing.\<close>

definition demo_mysql :: "u64 \<Rightarrow> entry list \<Rightarrow> peer_info list \<Rightarrow> 'p \<Rightarrow> (string list, 'p) mysql" where
  "demo_mysql n es ps p = \<lparr>faults = [], state_tbl = Some [first_row], entries_tbl = Some es,
     peers_tbl = Some ps, user_db = [], databases = [''raft'', ''mgmt''], my_entriesToRetain = n,
     my_addr = ''pod-0'', mysqlPort = 3306, sshPort = 22, privateKey = ''key'', maindb = HOpen,
     my_mgmtdb = HOpen, my_raftdb = HOpen, pod = p, ssh_clients = 0, ev_trace = []\<rparr>"

lemma demo_mysql_simps [simp]:
  "faults (demo_mysql n es ps p) = []" "state_tbl (demo_mysql n es ps p) = Some [first_row]"
  "entries_tbl (demo_mysql n es ps p) = Some es" "peers_tbl (demo_mysql n es ps p) = Some ps"
  "user_db (demo_mysql n es ps p) = []" "databases (demo_mysql n es ps p) = [''raft'', ''mgmt'']"
  "my_entriesToRetain (demo_mysql n es ps p) = n" "maindb (demo_mysql n es ps p) = HOpen"
  "my_mgmtdb (demo_mysql n es ps p) = HOpen" "my_raftdb (demo_mysql n es ps p) = HOpen"
  "pod (demo_mysql n es ps p) = p" "sshPort (demo_mysql n es ps p) = 22"
  "privateKey (demo_mysql n es ps p) = ''key''" "my_addr (demo_mysql n es ps p) = ''pod-0''"
  "ssh_clients (demo_mysql n es ps p) = 0" "ev_trace (demo_mysql n es ps p) = []"
  by (simp_all add: demo_mysql_def)

lemma demo_mysql_ready:
  "pk_ok Index es \<Longrightarrow> pk_ok NodeID ps \<Longrightarrow> reachable X p \<Longrightarrow> my_ready X (demo_mysql n es ps p)"
  by (auto simp: my_ready_def calm_def tables_ok_def first_row_def)

definition demo_my_exec :: "string \<Rightarrow> string list \<Rightarrow> goerr option \<times> string list" where
  "demo_my_exec q u = (if q = ''bad'' then (Some (EMySQL 1064), u)
     else if q = ''lost'' then (Some (EDriver ''connection lost''), u) else (None, u @ [q]))"

definition demo_my :: "(string list, nat, bool) mysql_engine" where
  "demo_my = \<lparr>cs_marshal = demo_marshal, cs_unmarshal = demo_unmarshal, user_exec = demo_my_exec,
     user_query = (\<lambda>q u. Inr (length u)), reachable = (\<lambda>p. p), second = (\<lambda>p. p), sql_shutdown = (\<lambda>p. False),
     shell = (\<lambda>c i (p, d). ((None, []), p, d)), remote_run = (\<lambda>a p c. []), parse_key = (\<lambda>k. None),
     same_text = (=), ref_Marshal = (\<lambda>r. Inr (ref_Addr r)), ref_Unmarshal = (\<lambda>b. Inr \<lparr>ref_Addr = b, ref_SSHPort = 22\<rparr>)\<rparr>"

lemma demo_my_ready: "pk_ok Index es \<Longrightarrow> pk_ok NodeID ps \<Longrightarrow> my_ready demo_my (demo_mysql n es ps True)"
  by (simp add: demo_mysql_ready demo_my_def)

section \<open>Appending\<close>

lemma keeps_good_log_my_delete_old [keeps_intros]: "n \<noteq> 0 \<Longrightarrow> keeps good_log (my_delete_old n k)"
  by (rule keepsI) (simp add: my_delete_old_def keepsD [OF keeps_good_log_delete_old])

lemma last_index: "es \<noteq> [] \<Longrightarrow> es ! (length es - Suc 0) = last es"
  by (simp add: last_conv_nth)

lemma mysql_AppendEntries_eq:
  assumes "my_ready X s" and "entries_tbl s = Some t" and "contig t" and "fits_log t es"
    and "list_all my_storable es" and "unat (my_entriesToRetain s) < 2 ^ 63" and "es \<noteq> []"
  shows "mysql_AppendEntries X es s = (Ok (),
      s\<lparr>entries_tbl := Some (log_retain (my_entriesToRetain s) (Index (last es)) (log_append t es))\<rparr>)"
proof -
  let ?t = "log_append t es" and ?n = "my_entriesToRetain s"
  have ct: "contig ?t" using assms(3,4) by (rule contig_log_append)
  have rd: "my_ready X (s\<lparr>entries_tbl := Some ?t\<rparr>)"
    using assms(1) ct by (intro my_ready_updates contig_pk_ok)
  have "int32 (Index (last es))" using assms(5,7) by (simp add: list_all_iff my_storable_def)
  moreover have "last ?t = last es" using assms(7) by (rule last_log_append)
  ultimately have "idx e < 2 ^ 31" if "e \<in> set ?t" for e
    using contig_idx_range(2) [OF ct that] by (simp add: int32_def)
  then have "list_all (\<lambda>e. idx e + unat ?n < 2 ^ 64) ?t"
    using assms(6) unfolding list_all_iff by (fastforce dest: add_strict_mono)
  from my_ready_delete_old [OF rd _ this] show ?thesis
    using assms(7) mysql_store.append_loop_runs [OF assms(1,5,2,3,4)]
    by (simp add: mysql_AppendEntries_def op_defs Let_def pk_delete_def log_retain_def not_le last_index)
qed

text \<open>
  C9. A started MySQL backend implements the same abstract Raft log as SQLite's, within its narrower
  columns: \<open>AppendEntries\<close> with consecutive entries that start inside the stored log or right behind
  it, whose indices and terms fit a signed 32-bit column and whose data fit a \<open>BLOB\<close>, succeeds, replaces
  the stored suffix, keeps the newest \<open>entriesToRetain\<close> indices and changes nothing else; and whatever
  fails on the way, the stored log is still consecutive.
\<close>

theorem mysql_AppendEntries_refines:
  assumes "entries_tbl s = Some t" and "contig t" and "fits_log t es"
  shows "good_log (snd (mysql_AppendEntries X es s))
    \<and> (my_ready X s \<and> list_all my_storable es \<and> unat (my_entriesToRetain s) < 2 ^ 63 \<and> es \<noteq> [] \<longrightarrow>
      mysql_AppendEntries X es s = (Ok (),
        s\<lparr>entries_tbl := Some (log_retain (my_entriesToRetain s) (Index (last es)) (log_append t es))\<rparr>)
      \<and> my_ready X (snd (mysql_AppendEntries X es s)))"
proof (intro conjI impI)
  show "good_log (snd (mysql_AppendEntries X es s))"
  proof (cases "length es = 0")
    case True
    then show ?thesis using assms by (simp add: mysql_AppendEntries_def op_ret_def good_log_def)
  next
    case False
    have loop: "good_log (snd (op_foreach (mysql_appendEntry X) es s))"
      using mysql_log.append_loop_contig [OF assms] by (simp add: good_log_def)
    show ?thesis
      unfolding mysql_AppendEntries_def Let_def if_not_P [OF False]
      by (rule keeps_after [of good_log], rule loop, intro keeps_intros)
  qed
next
  assume a: "my_ready X s \<and> list_all my_storable es \<and> unat (my_entriesToRetain s) < 2 ^ 63 \<and> es \<noteq> []"
  then show eq: "mysql_AppendEntries X es s = (Ok (),
        s\<lparr>entries_tbl := Some (log_retain (my_entriesToRetain s) (Index (last es)) (log_append t es))\<rparr>)"
    using mysql_AppendEntries_eq [OF _ assms] by blast
  have "contig (log_append t es)" using assms(2,3) by (rule contig_log_append)
  then show "my_ready X (snd (mysql_AppendEntries X es s))"
    using a unfolding eq by (auto intro!: my_ready_updates contig_pk_ok contig_retain)
qed

lemma mysql_AppendEntries_refines_witness:
  "let t = [demo_entry 1 1 ''a'', demo_entry 1 2 ''b'']; es = [demo_entry 2 2 ''c'', demo_entry 2 3 ''d''] in
   mysql_AppendEntries demo_my es (demo_mysql 2 t [] True) = (Ok (),
      (demo_mysql 2 t [] True)\<lparr>entries_tbl := Some [demo_entry 2 2 ''c'', demo_entry 2 3 ''d'']\<rparr>)"
proof -
  let ?t = "[demo_entry 1 1 ''a'', demo_entry 1 2 ''b'']" and ?es = "[demo_entry 2 2 ''c'', demo_entry 2 3 ''d'']"
  have "mysql_AppendEntries demo_my ?es (demo_mysql 2 ?t [] True) = (Ok (), (demo_mysql 2 ?t [] True)
      \<lparr>entries_tbl := Some (log_retain 2 (Index (last ?es)) (log_append ?t ?es))\<rparr>)"
    using mysql_AppendEntries_refines [of "demo_mysql 2 ?t [] True" ?t ?es demo_my]
    by (simp add: demo_my_ready demo_entry_def fits_log_def my_storable_def int32_def blob_max_def)
  then show ?thesis by (simp add: log_retain_def log_append_def demo_entry_def)
qed

section \<open>The state row, the application's statements and the peers\<close>

lemma my_ready_update_state:
  assumes "my_ready X s" and "state_tbl s = Some [r]" and "list_all int32 vs"
  shows "raft_stmt X (update_state mysql_dialect vs f) s = (Ok (), s\<lparr>state_tbl := Some [f r]\<rparr>)"
proof -
  have "row_id r = 1" using assms(1,2) by (auto simp: my_ready_def)
  then show ?thesis using assms by (simp add: my_ready_stmt update_state_def fits_mysql)
qed

lemma my_ready_select_state:
  assumes "my_ready X s" and "state_tbl s = Some [r]"
  shows "raft_stmt X (select_state mysql_dialect f) s = (Ok (f r), s)"
proof -
  have "row_id r = 1" using assms by (auto simp: my_ready_def)
  then show ?thesis using assms by (simp add: my_ready_stmt select_state_def query_defs)
qed

lemma my_ready_SaveApplied:
  "my_ready X s \<Longrightarrow> state_tbl s = Some [r] \<Longrightarrow> int32 trm \<Longrightarrow> int32 ix \<Longrightarrow>
   mysql_SaveApplied X trm ix s = (Ok (), s\<lparr>state_tbl := Some [r\<lparr>row_term := trm, row_idx := ix\<rparr>]\<rparr>)"
  by (simp add: mysql_SaveApplied_def wrap_err_def my_ready_update_state)

lemma my_ready_GetAppliedIndex:
  "my_ready X s \<Longrightarrow> state_tbl s = Some [r] \<Longrightarrow> mysql_GetAppliedIndex X s = (Ok (row_idx r), s)"
  by (simp add: mysql_GetAppliedIndex_def my_queryInteger_def wrap_err_def my_ready_select_state)

lemma my_ready_ExecSQL:
  assumes "my_ready X s" and "state_tbl s = Some [r]" and "int32 trm" and "int32 ix"
  shows "mysql_ExecSQL X trm ix q s = (case user_exec X q (user_db s) of
     (None, u) \<Rightarrow> (Ok (), s\<lparr>user_db := u, state_tbl := Some [r\<lparr>row_term := trm, row_idx := ix\<rparr>]\<rparr>)
   | (Some e, u) \<Rightarrow> (Err (case e of EMySQL c \<Rightarrow> EDBError e | _ \<Rightarrow> e), s\<lparr>user_db := u\<rparr>))"
proof (cases "user_exec X q (user_db s)")
  case (Pair x u)
  have "mysql_SaveApplied X trm ix (s\<lparr>user_db := u\<rparr>) =
      (Ok (), s\<lparr>user_db := u, state_tbl := Some [r\<lparr>row_term := trm, row_idx := ix\<rparr>]\<rparr>)"
    using my_ready_SaveApplied [OF my_ready_updates(4) [OF assms(1)] _ assms(3,4)] assms(2) by simp
  with Pair show ?thesis
    using assms(1) by (cases x) (simp_all add: mysql_ExecSQL_def op_defs my_ready_stmt run_user_def)
qed

section \<open>The interface\<close>

abbreviation my_view :: "('u, 'p) mysql \<Rightarrow> 'u \<times> u64" where
  "my_view s \<equiv> (user_db s, sq_applied s)"

lemma leaves_stmt:
  assumes "leaves (my_ready X) v m"
  shows "leaves (my_ready X) v (raft_stmt X m)" and "leaves (my_ready X) v (mgmt_stmt X m)"
  using assms by (simp_all add: leaves_def my_ready_stmt)

lemma leaves_my_update_state:
  assumes "\<And>r. row_id (f r) = row_id r" and "\<And>r. row_idx (f r) = row_idx r"
  shows "leaves (my_ready X) my_view (update_state mysql_dialect vs f)"
proof (rule leavesI)
  fix s assume s: "my_ready X s"
  then obtain r where r: "state_tbl s = Some [r]" "row_id r = 1" by (rule my_ready_parts)
  have "my_ready X (s\<lparr>state_tbl := Some [f r]\<rparr>)" using s r(2) assms(1) by (simp add: my_ready_updates)
  then show "(\<forall>e. fst (update_state mysql_dialect vs f s) \<noteq> Panic e)
    \<and> my_ready X (snd (update_state mysql_dialect vs f s)) \<and> my_view (snd (update_state mysql_dialect vs f s)) = my_view s"
    using s r assms(2) by (simp add: update_state_def sq_applied_def)
qed

lemma leaves_my_save_conf: "leaves (my_ready X) my_view (my_save_conf d)"
proof (rule leavesI)
  fix s assume s: "my_ready X s"
  have "leaves (my_ready X) my_view (update_state mysql_dialect [] (\<lambda>r. r\<lparr>confstate := Some d\<rparr>))"
    by (rule leaves_my_update_state) simp_all
  with s show "(\<forall>e. fst (my_save_conf d s) \<noteq> Panic e) \<and> my_ready X (snd (my_save_conf d s))
      \<and> my_view (snd (my_save_conf d s)) = my_view s"
    by (simp add: my_save_conf_def leaves_def)
qed

lemma leaves_my_entries:
  assumes "\<And>s t. entries_tbl s = Some t \<Longrightarrow> pk_ok Index t \<Longrightarrow>
      (\<exists>r. m s = (r, s) \<and> (\<forall>e. r \<noteq> Panic e)) \<or> (\<exists>r t'. m s = (Ok r, s\<lparr>entries_tbl := Some t'\<rparr>) \<and> pk_ok Index t')"
  shows "leaves (my_ready X) my_view m"
proof (rule leavesI)
  fix s assume s: "my_ready X s"
  then obtain t where "entries_tbl s = Some t" "pk_ok Index t" by (rule my_ready_parts)
  from assms [OF this] s show "(\<forall>e. fst (m s) \<noteq> Panic e) \<and> my_ready X (snd (m s)) \<and> my_view (snd (m s)) = my_view s"
    by (auto simp: sq_applied_def my_ready_updates)
qed

lemma leaves_my_insert: "leaves (my_ready X) my_view (my_insert e)"
  by (rule leaves_my_entries) (auto simp: my_insert_def insert_entry_def dest: pk_ok_insert split: option.splits)

lemma leaves_my_delete:
  "leaves (my_ready X) my_view (delete_from mysql_dialect i)"
  "leaves (my_ready X) my_view (my_delete_old n k)"
  by (rule leaves_my_entries, auto simp: my_delete_old_def delete_from_def delete_old_def delete_entries_def)+

lemma leaves_my_peers:
  assumes "\<And>s t. peers_tbl s = Some t \<Longrightarrow> pk_ok NodeID t \<Longrightarrow>
      (\<exists>r. m s = (r, s) \<and> (\<forall>e. r \<noteq> Panic e)) \<or> (\<exists>r t'. m s = (Ok r, s\<lparr>peers_tbl := Some t'\<rparr>) \<and> pk_ok NodeID t')"
  shows "leaves (my_ready X) my_view m"
proof (rule leavesI)
  fix s assume s: "my_ready X s"
  then obtain t where "peers_tbl s = Some t" "pk_ok NodeID t" by (rule my_ready_parts)
  from assms [OF this] s show "(\<forall>e. fst (m s) \<noteq> Panic e) \<and> my_ready X (snd (m s)) \<and> my_view (snd (m s)) = my_view s"
    by (auto simp: sq_applied_def my_ready_updates)
qed

lemma leaves_my_peer_stmts:
  "leaves (my_ready X) my_view (my_peer_at X a p)" "leaves (my_ready X) my_view (replace_peer mysql_dialect pi)"
  "leaves (my_ready X) my_view (delete_peer mysql_dialect n)"
  by (rule leaves_my_peers, auto simp: my_peer_at_def replace_peer_def delete_peer_def query_defs)+

lemma leaves_my_rows: "leaves (my_ready X) my_view (read_rows msg rs)"
  by (simp add: leaves_def my_ready_read_rows)

lemmas leaves_mysql = leaves_stmt leaves_my_update_state leaves_my_save_conf leaves_my_insert leaves_my_delete
  leaves_my_peer_stmts leaves_my_rows

end
