(* ===== verification/Mysql_Snapshot.thy ===== *)
theory Mysql_Snapshot
  imports Mysql_Backend
begin

text \<open>
  Snapshots of the MySQL backend, \<open>internal/backend/mysql/backend.go\<close>: the loops that wait for the
  server, and \<open>ApplySnapshot\<close>, which shuts the server down, replaces its data directory by what
  \<open>xtrabackup\<close> streams from another pod, and brings the server up again.
\<close>

section \<open>Commands\<close>

text \<open>The command texts, in the order the code has them.\<close>

definition quoted :: "string \<Rightarrow> string" where
  "quoted s = [CHR 0x27] @ s @ [CHR 0x27]"

definition cmd_block :: string where
  "cmd_block = ''touch /var/lib/mysql/BLOCKED && echo '' @ quoted ''BLOCKED file ready''"

definition cmd_wipe :: string where
  "cmd_wipe = ''rm -rf /var/lib/mysql/active/*''"

definition cmd_cleanup_blocked :: string where
  "cmd_cleanup_blocked = ''rm -f /var/lib/mysql/BLOCKED''"

definition cmd_cleanup_restore :: string where
  "cmd_cleanup_restore = ''rm -rf /var/lib/mysql/restore''"

definition backupCmd :: string where
  "backupCmd = ''xtrabackup --backup --stream=xbstream -u root -S /var/lib/mysql/mysql.sock''"

definition restoreCmd :: string where
  "restoreCmd = ''bash -c '' @ quoted ''cd /var/lib/mysql && rm -rf restore new && mkdir restore new && cd restore && xbstream -x''"

definition cmd_prepare :: string where
  "cmd_prepare = ''cd /var/lib/mysql && xtrabackup --prepare --target-dir=/var/lib/mysql/restore''"

definition cmd_move_back :: string where
  "cmd_move_back = ''cd /var/lib/mysql && xtrabackup --move-back --datadir=/var/lib/mysql/active --target-dir=/var/lib/mysql/restore''"

definition cmd_permissions :: string where
  "cmd_permissions = ''chown -R 1001:1001 /var/lib/mysql/active && chmod -R 755 /var/lib/mysql/active && find /var/lib/mysql/active -type f -exec chmod 644 {} '' @ [CHR 0x5C] @ '';''"

definition cmd_unblock :: string where
  "cmd_unblock = ''rm -f /var/lib/mysql/BLOCKED && echo '' @ quoted ''BLOCKED file removed''"

definition checkCmd :: string where
  "checkCmd = ''ss -tln | grep '' @ quoted '':3306 '' @ '' || netstat -tln | grep '' @ quoted '':3306 '' @ '' || pgrep -f mysqld''"

definition errorLogCmd :: string where
  "errorLogCmd = ''tail -20 /var/log/mysql/error.log 2>/dev/null || journalctl -u mysql -n 20 2>/dev/null || echo '' @ quoted ''No error logs found''"

section \<open>Waiting\<close>

text \<open>\<open>PingContext\<close>; a failed ping is seen by the program.\<close>

definition my_ping :: "('u, 'q, 'p, 'e) mysql_engine_scheme \<Rightarrow> (('u, 'p) mysql, bool) op" where
  "my_ping X = op_bind (attempt (my_call X maindb (op_ret ()))) (\<lambda>r. case r of
     Inr _ \<Rightarrow> op_ret True
   | Inl _ \<Rightarrow> op_bind (op_mod (\<lambda>s. s\<lparr>ev_trace := ev_trace s @ [PingFailed]\<rparr>)) (\<lambda>_. op_ret False))"

text \<open>\<open>waitForShutdownCompletion\<close>, with the attempts left: a nil handle is not pinged.\<close>

fun waitForShutdownCompletion :: "('u, 'q, 'p, 'e) mysql_engine_scheme \<Rightarrow> nat \<Rightarrow> (('u, 'p) mysql, unit) op" where
  "waitForShutdownCompletion X 0 = op_err (ENew ''MySQL shutdown did not complete within timeout'')"
| "waitForShutdownCompletion X (Suc n) =
     op_bind (op_get (\<lambda>s. maindb s \<noteq> HNil)) (\<lambda>has_db.
     op_bind (if has_db then my_ping X else op_ret True) (\<lambda>answers.
     if \<not> answers then my_sleep X 3
     else op_bind (my_sleep X 1) (\<lambda>_. waitForShutdownCompletion X n)))"

text \<open>\<open>waitForMySQLToStart\<close>: attempt \<open>i\<close>, with the attempts left.\<close>

fun mysql_start_loop :: "('u, 'q, 'p, 'e) mysql_engine_scheme \<Rightarrow> nat \<Rightarrow> nat \<Rightarrow> (('u, 'p) mysql, unit) op" where
  "mysql_start_loop X i 0 = op_err (ENew ''MySQL did not start listening on port 3306 within timeout'')"
| "mysql_start_loop X i (Suc n) =
     op_bind (attempt (runSSHCommand X checkCmd)) (\<lambda>r. case r of
       Inr _ \<Rightarrow> op_ret ()
     | Inl _ \<Rightarrow>
         op_bind (if 0 < i \<and> i mod 10 = 0 then ignore_err (runSSHCommand X errorLogCmd) else op_ret ()) (\<lambda>_.
         op_bind (my_sleep X 1) (\<lambda>_. mysql_start_loop X (Suc i) n)))"

definition waitForMySQLToStart :: "('u, 'q, 'p, 'e) mysql_engine_scheme \<Rightarrow> nat \<Rightarrow> (('u, 'p) mysql, unit) op" where
  "waitForMySQLToStart X attempts = mysql_start_loop X 0 attempts"

text \<open>The caller's \<open>recoverPortForwarding\<close>: it acts on the pod's surroundings and may fail.\<close>

definition call_recover :: "('p \<Rightarrow> goerr option \<times> 'p) \<Rightarrow> (('u, 'p) mysql, unit) op" where
  "call_recover rec s = (case rec (pod s) of
      (None, p) \<Rightarrow> (Ok (), s\<lparr>pod := p\<rparr>) | (Some e, p) \<Rightarrow> (Err e, s\<lparr>pod := p\<rparr>))"

text \<open>
  \<open>waitForDatabaseToComeUpWithRecovery\<close>: attempt \<open>i\<close>, with the attempts left and the current value
  of \<open>err\<close>, which only \<open>innerStart\<close> sets.
\<close>

fun come_up_loop :: "('u, 'q, 'p, 'e) mysql_engine_scheme \<Rightarrow> ('p \<Rightarrow> goerr option \<times> 'p) \<Rightarrow> nat \<Rightarrow> nat \<Rightarrow> goerr option \<Rightarrow>
    (('u, 'p) mysql, unit) op" where
  "come_up_loop X rec i 0 err = (case err of None \<Rightarrow> op_ret () | Some e \<Rightarrow> op_err e)"
| "come_up_loop X rec i (Suc n) err =
     op_bind (attempt (mysql_innerStart X False)) (\<lambda>r.
     op_bind (case r of Inl _ \<Rightarrow> op_ret False
       | Inr _ \<Rightarrow> op_bind (attempt (my_call X maindb (op_ret ()))) (\<lambda>r2.
           op_ret (case r2 of Inl _ \<Rightarrow> False | Inr _ \<Rightarrow> True))) (\<lambda>answers.
     if answers then op_ret ()
     else
       op_bind (if 0 < i \<and> i mod 5 = 0 then ignore_err (call_recover rec) else op_ret ()) (\<lambda>_.
       op_bind (my_sleep X 1) (\<lambda>_.
       come_up_loop X rec (Suc i) n (case r of Inl e \<Rightarrow> Some e | Inr _ \<Rightarrow> None)))))"

definition waitForDatabaseToComeUpWithRecovery ::
  "('u, 'q, 'p, 'e) mysql_engine_scheme \<Rightarrow> nat \<Rightarrow> ('p \<Rightarrow> goerr option \<times> 'p) \<Rightarrow> (('u, 'p) mysql, unit) op" where
  "waitForDatabaseToComeUpWithRecovery X attempts rec = come_up_loop X rec 0 attempts None"

definition waitForDatabaseToComeUp :: "('u, 'q, 'p, 'e) mysql_engine_scheme \<Rightarrow> nat \<Rightarrow> (('u, 'p) mysql, unit) op" where
  "waitForDatabaseToComeUp X attempts = waitForDatabaseToComeUpWithRecovery X attempts (\<lambda>p. (None, p))"

section \<open>Applying a snapshot\<close>

text \<open>The \<open>SHUTDOWN\<close> statement.\<close>

definition do_shutdown :: "('u, 'q, 'p, 'e) mysql_engine_scheme \<Rightarrow> (('u, 'p) mysql, unit) op" where
  "do_shutdown X = op_mod (\<lambda>s. s\<lparr>pod := sql_shutdown X (pod s), ev_trace := ev_trace s @ [SqlShutdown]\<rparr>)"

text \<open>
  The copy between the two SSH sessions. The error of opening the remote session is overwritten, so
  that a session that could not be opened is used as nil. The restore command reads what the copy
  delivers, nothing when the copy fails; neither command's exit status is read.
\<close>

definition start_remote :: "string \<Rightarrow> int \<Rightarrow> string \<Rightarrow> (('u, 'p) mysql, unit) op" where
  "start_remote addr port cmd = op_mod (\<lambda>s. s\<lparr>ev_trace := ev_trace s @ [Remote addr port cmd]\<rparr>)"

definition pipe_backup ::
  "('u, 'q, 'p, 'e) mysql_engine_scheme \<Rightarrow> snapshotReference \<Rightarrow> (('u, 'p) mysql, unit) op" where
  "pipe_backup X ref =
     op_bind (op_get (\<lambda>s. (sshPort s, privateKey s))) (\<lambda>(port, key).
     op_bind (attempt (MakeSSHSession X (ref_Addr ref) (ref_SSHPort ref) key)) (\<lambda>remote.
     op_bind (case remote of Inl _ \<Rightarrow> op_panic nil_deref
       | Inr _ \<Rightarrow> wrap_err ''creating remote stdout'' (sys_call (op_ret ()))) (\<lambda>_.
     op_bind (wrap_err ''running ssh backup command: %s''
       (sys_call (start_remote (ref_Addr ref) (ref_SSHPort ref) backupCmd))) (\<lambda>_.
     op_bind (wrap_err ''creating local ssh'' (MakeSSHSession X ''localhost'' port key)) (\<lambda>_.
     op_bind (wrap_err ''creating local stdin'' (sys_call (op_ret ()))) (\<lambda>_.
     op_bind (wrap_err ''running ssh restore command: %s'' (sys_call (op_ret ()))) (\<lambda>_.
     op_bind (attempt (sys_call (op_ret (remote_run X (ref_Addr ref) (ref_SSHPort ref) backupCmd)))) (\<lambda>copied.
     op_bind (run_shell X restoreCmd (case copied of Inl _ \<Rightarrow> [] | Inr b \<Rightarrow> b)) (\<lambda>_.
     case copied of
       Inl e \<Rightarrow> op_err (EWrap e ''piping backup'')
     | Inr _ \<Rightarrow> op_ret ())))))))))"

text \<open>What follows the deferred clean-up, up to \<open>success = true\<close>.\<close>

definition restore_from ::
  "('u, 'q, 'p, 'e) mysql_engine_scheme \<Rightarrow> ('p \<Rightarrow> goerr option \<times> 'p) \<Rightarrow> snapshot \<Rightarrow> (('u, 'p) mysql, unit) op" where
  "restore_from X rec snap = (case ref_Unmarshal X (SData snap) of
      Inl e \<Rightarrow> op_err (EWrap e ''unmarshaling snapshot reference'')
    | Inr ref \<Rightarrow>
        op_bind (pipe_backup X ref) (\<lambda>_.
        op_bind (wrap_err ''preparing xtrabackup'' (runSSHCommand X cmd_prepare)) (\<lambda>_.
        op_bind (wrap_err ''moving restored data to active directory'' (runSSHCommand X cmd_move_back)) (\<lambda>_.
        op_bind (wrap_err ''setting permissions on restored data'' (runSSHCommand X cmd_permissions)) (\<lambda>_.
        op_bind (ignore_err (runSSHCommand X cmd_unblock)) (\<lambda>_.
        op_bind (my_sleep X 5) (\<lambda>_.
        op_bind (wrap_err ''MySQL did not start listening inside pod'' (waitForMySQLToStart X 60)) (\<lambda>_.
        op_bind (wrap_err ''recovering port forwarding'' (call_recover rec)) (\<lambda>_.
        op_bind (wrap_err ''database did not come up'' (waitForDatabaseToComeUpWithRecovery X 360 rec)) (\<lambda>_.
        ignore_err (runSSHCommand X cmd_cleanup_restore)))))))))))"

text \<open>A deferred function that runs when the body did not succeed, by an error or a panic.\<close>

definition unless_success :: "('s, unit) op \<Rightarrow> ('s, 'a) op \<Rightarrow> ('s, 'a) op" where
  "unless_success cleanup m s = (case m s of
      (Ok x, s') \<Rightarrow> (Ok x, s')
    | (r, s') \<Rightarrow> (r, snd (cleanup s')))"

definition snapshot_cleanup :: "('u, 'q, 'p, 'e) mysql_engine_scheme \<Rightarrow> (('u, 'p) mysql, unit) op" where
  "snapshot_cleanup X =
     op_bind (ignore_err (runSSHCommand X cmd_cleanup_blocked)) (\<lambda>_.
     ignore_err (runSSHCommand X cmd_cleanup_restore))"

definition ApplySnapshotWithPortRecovery ::
  "('u, 'q, 'p, 'e) mysql_engine_scheme \<Rightarrow> snapshot \<Rightarrow> ('p \<Rightarrow> goerr option \<times> 'p) \<Rightarrow> (('u, 'p) mysql, unit) op" where
  "ApplySnapshotWithPortRecovery X snap rec =
     op_bind (wrap_err ''ensuring BLOCKED file exists'' (runSSHCommand X cmd_block)) (\<lambda>_.
     op_bind (wrap_err ''shutting down'' (my_call X maindb (do_shutdown X))) (\<lambda>_.
     op_bind (wrap_err ''MySQL shutdown did not complete properly'' (waitForShutdownCompletion X 30)) (\<lambda>_.
     op_bind (wrap_err ''removing old data dir'' (runSSHCommand X cmd_wipe)) (\<lambda>_.
     unless_success (snapshot_cleanup X) (restore_from X rec snap)))))"

definition mysql_ApplySnapshot ::
  "('u, 'q, 'p, 'e) mysql_engine_scheme \<Rightarrow> snapshot \<Rightarrow> (('u, 'p) mysql, unit) op" where
  "mysql_ApplySnapshot X snap = ApplySnapshotWithPortRecovery X snap (\<lambda>p. (None, p))"

section \<open>The interface\<close>

definition mysql_backend :: "('u, 'q, 'p, 'e) mysql_engine_scheme \<Rightarrow> (('u, 'p) mysql, 'q) db_backend" where
  "mysql_backend X = \<lparr>be_Start = mysql_Start X, be_Stop = mysql_Stop, be_AppendEntries = mysql_AppendEntries X,
     be_SaveApplied = mysql_SaveApplied X, be_GetAppliedIndex = mysql_GetAppliedIndex X,
     be_SaveHardState = mysql_SaveHardState X, be_SaveConfState = mysql_SaveConfState X,
     be_SaveSnapshot = mysql_SaveSnapshot, be_RemoveSavedSnapshot = mysql_RemoveSavedSnapshot,
     be_ApplySnapshot = mysql_ApplySnapshot X, be_LoadPeers = mysql_LoadPeers X,
     be_UpsertPeer = mysql_UpsertPeer X, be_RemovePeer = mysql_RemovePeer X,
     be_ExecSQL = mysql_ExecSQL X, be_QuerySQL = mysql_QuerySQL X\<rparr>"

lemma leaves_mysql_ops:
  "leaves (my_ready X) my_view (mysql_AppendEntries X es)"
  "leaves (my_ready X) my_view (mysql_SaveHardState X hs)"
  "leaves (my_ready X) my_view (mysql_SaveConfState X cs)"
  "leaves (my_ready X) my_view (mysql_UpsertPeer X p)"
  "leaves (my_ready X) my_view (mysql_RemovePeer X n)"
  unfolding mysql_AppendEntries_def mysql_appendEntry_def mysql_tryInsert_def insert_or_truncate_def Let_def
    mysql_SaveHardState_def mysql_SaveConfState_def mysql_UpsertPeer_def mysql_RemovePeer_def
  by (intro leaves_intros leaves_mysql; simp)+

text \<open>The MySQL backend keeps the contract a node relies on.\<close>

definition is_mysql_error :: "goerr \<Rightarrow> bool" where
  "is_mysql_error e \<longleftrightarrow> (case e of EMySQL c \<Rightarrow> True | _ \<Rightarrow> False)"

interpretation mysql_sql: sql_backend "mysql_backend X" "my_ready X" user_db sq_applied "user_exec X" int32 is_mysql_error
  for X :: "('u, 'q, 'p, 'e) mysql_engine_scheme"
proof
  fix s :: "('u, 'p) mysql" and trm ix q u
  assume s: "my_ready X s" and sm: "int32 trm" "int32 ix"
  obtain r where r: "state_tbl s = Some [r]" "row_id r = 1" using s by (rule my_ready_parts)
  have u: "my_ready X (s\<lparr>user_db := u\<rparr>)" using s by (rule my_ready_updates)
  then have u': "my_ready X (s\<lparr>user_db := u, state_tbl := Some [r\<lparr>row_term := trm, row_idx := ix\<rparr>]\<rparr>)"
    using r by (intro my_ready_updates(3)) simp_all
  note eq = my_ready_ExecSQL [OF s r(1) sm, of q]
  { assume "user_exec X q (user_db s) = (None, u)"
    with eq u' show "\<exists>b'. be_ExecSQL (mysql_backend X) trm ix q s = (Ok (), b') \<and> my_ready X b' \<and> user_db b' = u
        \<and> sq_applied b' = ix"
      by (simp add: mysql_backend_def sq_applied_def) }
  { fix e
    assume "user_exec X q (user_db s) = (Some e, u)" and "is_mysql_error e"
    with eq u show "\<exists>b'. be_ExecSQL (mysql_backend X) trm ix q s = (Err (EDBError e), b') \<and> my_ready X b'
        \<and> user_db b' = u \<and> sq_applied b' = sq_applied s"
      by (auto simp: mysql_backend_def sq_applied_def is_mysql_error_def split: goerr.splits) }
qed (simp_all add: mysql_backend_def leaves_mysql_ops)

section \<open>How long the loops wait\<close>

text \<open>After how many steps, below a bound, a condition first holds.\<close>

fun waits :: "('p \<Rightarrow> bool) \<Rightarrow> ('p \<Rightarrow> 'p) \<Rightarrow> nat \<Rightarrow> 'p \<Rightarrow> nat option" where
  "waits P f 0 p = None"
| "waits P f (Suc n) p = (if P p then Some 0 else map_option Suc (waits P f n (f p)))"

lemma waits_Some_iff:
  "waits P f n p = Some k \<longleftrightarrow> k < n \<and> P ((f ^^ k) p) \<and> (\<forall>j < k. \<not> P ((f ^^ j) p))"
proof (induction n arbitrary: p k)
  case (Suc n)
  have "(\<forall>j < Suc k'. \<not> P ((f ^^ j) p)) \<longleftrightarrow> \<not> P p \<and> (\<forall>j < k'. \<not> P ((f ^^ j) (f p)))" for k'
    by (simp add: All_less_Suc2 funpow_swap1)
  with Suc.IH [of "f p"] show ?case by (cases k) (auto simp: funpow_swap1)
qed simp

lemma waits_None_iff: "waits P f n p = None \<longleftrightarrow> (\<forall>k < n. \<not> P ((f ^^ k) p))"
proof (induction n arbitrary: p)
  case (Suc n)
  then show ?case by (simp add: All_less_Suc2 funpow_swap1)
qed simp

lemma waits_found: "\<exists>k < n. P ((f ^^ k) p) \<Longrightarrow> \<exists>k. waits P f n p = Some k"
  using waits_None_iff [of P f n p] by (cases "waits P f n p") auto

text \<open>What the pod has become, and what was recorded, after \<open>k\<close> waits of a second.\<close>

definition after_waits :: "('u, 'q, 'p, 'e) mysql_engine_scheme \<Rightarrow> nat \<Rightarrow> ('u, 'p) mysql \<Rightarrow> ('u, 'p) mysql" where
  "after_waits X k s = s\<lparr>pod := (second X ^^ k) (pod s), ev_trace := ev_trace s @ replicate k (Slept 1)\<rparr>"

lemma after_waits_simps [simp]:
  "after_waits X 0 s = s"
  "after_waits X k (after_waits X (Suc 0) s) = after_waits X (Suc k) s"
  "calm (after_waits X k s) = calm s" "maindb (after_waits X k s) = maindb s"
  "pod (after_waits X k s) = (second X ^^ k) (pod s)" "datadir_of (after_waits X k s) = datadir_of s"
  by (simp_all add: after_waits_def calm_def datadir_of_def funpow_swap1)

lemma my_sleep_1: "my_sleep X (Suc 0) s = (Ok (), after_waits X (Suc 0) s)"
  by (simp add: my_sleep_def op_mod_def after_waits_def)

lemma my_ping_eq:
  assumes "calm s" and "maindb s = HOpen"
  shows "my_ping X s = (if reachable X (pod s) then (Ok True, s)
    else (Ok False, s\<lparr>ev_trace := ev_trace s @ [PingFailed]\<rparr>))"
  using assms by (simp add: my_ping_def my_call_def sys_call_calm op_defs)

lemma waitForShutdown_eq:
  "calm s \<Longrightarrow> maindb s = HOpen \<Longrightarrow> waitForShutdownCompletion X n s =
    (case waits (\<lambda>p. \<not> reachable X p) (second X) n (pod s) of
       None \<Rightarrow> (Err (ENew ''MySQL shutdown did not complete within timeout''), after_waits X n s)
     | Some k \<Rightarrow> (Ok (), (after_waits X k s)\<lparr>pod := (second X ^^ (k + 3)) (pod s),
         ev_trace := ev_trace s @ replicate k (Slept 1) @ [PingFailed, Slept 3]\<rparr>))"
proof (induction n arbitrary: s)
  case 0
  then show ?case by (simp add: op_err_def)
next
  case (Suc n)
  have un: "waitForShutdownCompletion X (Suc n) s = op_bind (my_ping X) (\<lambda>answers.
     if \<not> answers then my_sleep X 3
     else op_bind (my_sleep X 1) (\<lambda>_. waitForShutdownCompletion X n)) s"
    using Suc.prems by (simp add: op_bind_get)
  show ?case
  proof (cases "reachable X (pod s)")
    case False
    then have "waitForShutdownCompletion X (Suc n) s = my_sleep X 3 (s\<lparr>ev_trace := ev_trace s @ [PingFailed]\<rparr>)"
      unfolding un using my_ping_eq [OF Suc.prems, of X] by (simp add: op_bind_def)
    with False show ?thesis by (simp add: my_sleep_def op_mod_def numeral_3_eq_3)
  next
    case True
    then have "waitForShutdownCompletion X (Suc n) s = waitForShutdownCompletion X n (after_waits X 1 s)"
      unfolding un using my_ping_eq [OF Suc.prems, of X] by (simp add: op_bind_def my_sleep_1)
    with True Suc.IH [of "after_waits X 1 s"] Suc.prems show ?thesis
      by (auto simp: after_waits_def calm_def funpow_swap1 numeral_3_eq_3 split: option.splits)
  qed
qed

lemma come_up_eq:
  "calm s \<Longrightarrow> maindb s = HOpen \<Longrightarrow> n \<noteq> 0 \<or> err = None \<Longrightarrow> come_up_loop X (\<lambda>p. (None, p)) i n err s =
    (Ok (), after_waits X (case waits (reachable X) (second X) n (pod s) of None \<Rightarrow> n | Some k \<Rightarrow> k) s)"
proof (induction n arbitrary: s i err)
  case 0
  then show ?case by (simp add: op_ret_def)
next
  case (Suc n)
  have "mysql_innerStart X False s = (Ok (), s)"
    using Suc.prems by (simp add: mysql_innerStart_def op_defs sys_call_calm)
  moreover have "my_call X maindb (op_ret ()) s = (if reachable X (pod s) then Ok () else Err refused, s)"
    using Suc.prems by (simp add: my_call_def sys_call_calm op_ret_def)
  moreover have "ignore_err (call_recover (\<lambda>p. (None, p))) s = (Ok (), s)"
    by (simp add: op_defs call_recover_def)
  ultimately have step: "come_up_loop X (\<lambda>p. (None, p)) i (Suc n) err s = (if reachable X (pod s) then (Ok (), s)
      else come_up_loop X (\<lambda>p. (None, p)) (Suc i) n None (after_waits X (Suc 0) s))"
    by (simp add: op_bind_def attempt_def op_ret_def my_sleep_1)
  show ?case
    unfolding step using Suc.IH [of "after_waits X (Suc 0) s" None "Suc i"] Suc.prems
    by (auto split: option.splits)
qed

text \<open>
  C19. The waits are bounded, and the last one does not report failure. While no connection attempt is
  refused by the client library itself: \<open>waitForShutdownCompletion\<close> returns within its number of seconds plus three, with
  nil exactly when the server stopped answering in time; \<open>waitForDatabaseToComeUp\<close> returns within its
  number of seconds, as soon as the server answers, but it returns nil also when the server never
  did, because the error of the probing statement is not kept.
\<close>

theorem mysql_waits_bounded:
  assumes "calm s" and "maindb s = HOpen"
  shows "(let stops = (\<exists>j < n. \<not> reachable X ((second X ^^ j) (pod s)));
            (r, s') = waitForShutdownCompletion X n s
        in r = (if stops then Ok () else Err (ENew ''MySQL shutdown did not complete within timeout''))
         \<and> (\<exists>k \<le> n. ev_trace s' = ev_trace s @ replicate k (Slept 1) @ (if stops then [PingFailed, Slept 3] else [])))
    \<and> (\<exists>k \<le> n. waitForDatabaseToComeUp X n s = (Ok (), after_waits X k s)
        \<and> (reachable X ((second X ^^ k) (pod s)) \<or> k = n \<and> (\<forall>j < n. \<not> reachable X ((second X ^^ j) (pod s)))))"
proof (intro conjI)
  show "let stops = (\<exists>j < n. \<not> reachable X ((second X ^^ j) (pod s)));
            (r, s') = waitForShutdownCompletion X n s
        in r = (if stops then Ok () else Err (ENew ''MySQL shutdown did not complete within timeout''))
         \<and> (\<exists>k \<le> n. ev_trace s' = ev_trace s @ replicate k (Slept 1) @ (if stops then [PingFailed, Slept 3] else []))"
  proof (cases "waits (\<lambda>p. \<not> reachable X p) (second X) n (pod s)")
    case None
    then have "\<forall>j < n. reachable X ((second X ^^ j) (pod s))" by (simp add: waits_None_iff)
    with None show ?thesis
      using waitForShutdown_eq [OF assms, of X n] by (auto simp: after_waits_def)
  next
    case (Some k)
    then have "\<exists>j < n. \<not> reachable X ((second X ^^ j) (pod s))" "k \<le> n" by (auto simp: waits_Some_iff)
    with Some show ?thesis
      using waitForShutdown_eq [OF assms, of X n] by (auto simp: Let_def)
  qed
  show "\<exists>k \<le> n. waitForDatabaseToComeUp X n s = (Ok (), after_waits X k s)
      \<and> (reachable X ((second X ^^ k) (pod s)) \<or> k = n \<and> (\<forall>j < n. \<not> reachable X ((second X ^^ j) (pod s))))"
    unfolding waitForDatabaseToComeUp_def waitForDatabaseToComeUpWithRecovery_def
  proof (cases "waits (reachable X) (second X) n (pod s)")
    case None
    then show "\<exists>k \<le> n. come_up_loop X (\<lambda>p. (None, p)) 0 n None s = (Ok (), after_waits X k s)
      \<and> (reachable X ((second X ^^ k) (pod s)) \<or> k = n \<and> (\<forall>j < n. \<not> reachable X ((second X ^^ j) (pod s))))"
      using come_up_eq [OF assms, of n None X 0] waits_None_iff [of "reachable X" "second X" n "pod s"]
      by (intro exI [of _ n]) simp
  next
    case (Some k)
    then show "\<exists>k \<le> n. come_up_loop X (\<lambda>p. (None, p)) 0 n None s = (Ok (), after_waits X k s)
      \<and> (reachable X ((second X ^^ k) (pod s)) \<or> k = n \<and> (\<forall>j < n. \<not> reachable X ((second X ^^ j) (pod s))))"
      using come_up_eq [OF assms, of n None X 0] waits_Some_iff [of "reachable X" "second X" n "pod s" k]
      by (intro exI [of _ k]) simp
  qed
qed

text \<open>A server that never comes up: ten attempts, ten seconds, and nil.\<close>

lemma mysql_waits_bounded_witness:
  "fst (waitForDatabaseToComeUp demo_my 10 (demo_mysql 0 [] [] False)) = Ok ()
   \<and> fst (waitForShutdownCompletion demo_my 30 (demo_mysql 0 [] [] True)) =
       Err (ENew ''MySQL shutdown did not complete within timeout'')"
proof -
  have still: "(second demo_my ^^ j) p = p" for j p by (induction j) (simp_all add: demo_my_def)
  have up: "reachable demo_my p = p" for p by (simp add: demo_my_def)
  show ?thesis
    using mysql_waits_bounded [of "demo_mysql 0 [] [] False" 10 demo_my]
      mysql_waits_bounded [of "demo_mysql 0 [] [] True" 30 demo_my]
    by (auto simp: calm_def still up Let_def split: prod.splits)
qed

section \<open>The order of the steps, whatever fails\<close>

text \<open>
  The steps that decide over the data directory, in the order they must be taken, for a snapshot
  that refers to the given host.
\<close>

definition snapshot_steps :: "snapshotReference \<Rightarrow> pod_event list" where
  "snapshot_steps ref = [Ran cmd_block, SqlShutdown, PingFailed, Ran cmd_wipe,
     Remote (ref_Addr ref) (ref_SSHPort ref) backupCmd, Ran restoreCmd, Ran cmd_prepare, Ran cmd_move_back,
     Ran cmd_permissions]"

fun is_step :: "pod_event \<Rightarrow> bool" where
  "is_step (Ran c) = (c \<in> {cmd_block, cmd_wipe, restoreCmd, cmd_prepare, cmd_move_back, cmd_permissions, cmd_unblock})"
| "is_step (Slept n) = False"
| "is_step _ = True"

definition steps_of :: "pod_event list \<Rightarrow> pod_event list" where
  "steps_of evs = filter is_step evs"

lemma steps_of_simps [simp]:
  "steps_of [] = []" "steps_of (xs @ ys) = steps_of xs @ steps_of ys"
  "steps_of (x # xs) = (if is_step x then x # steps_of xs else steps_of xs)"
  by (simp_all add: steps_of_def)

text \<open>
  \<open>does must may m\<close>: the steps \<open>m\<close> takes are an initial part of \<open>must @ may\<close>, and when \<open>m\<close> returns a
  value, it has taken all of \<open>must\<close>.
\<close>

definition does :: "pod_event list \<Rightarrow> pod_event list \<Rightarrow> (('u, 'p) mysql, 'a) op \<Rightarrow> bool" where
  "does must may m \<longleftrightarrow> (\<forall>s. \<exists>evs. ev_trace (snd (m s)) = ev_trace s @ evs
     \<and> (\<exists>rest. must @ may = steps_of evs @ rest)
     \<and> (is_ok (fst (m s)) \<longrightarrow> (\<exists>more. steps_of evs = must @ more)))"

named_theorems does_intros \<open>which steps an operation takes\<close>

lemma doesI:
  "(\<And>s. \<exists>evs. ev_trace (snd (m s)) = ev_trace s @ evs \<and> (\<exists>rest. must @ may = steps_of evs @ rest)
     \<and> (is_ok (fst (m s)) \<longrightarrow> (\<exists>more. steps_of evs = must @ more))) \<Longrightarrow> does must may m"
  by (simp add: does_def)

text \<open>An operation that records nothing.\<close>

lemma does_silent: "(\<And>s. ev_trace (snd (m s)) = ev_trace s) \<Longrightarrow> does [] may m"
  by (intro doesI exI [of _ "[]"]) simp

lemma does_bind:
  assumes m: "does must [] m" and f: "\<And>x. does must' may (f x)"
  shows "does (must @ must') may (op_bind m f)"
proof (rule doesI)
  fix s
  obtain r s1 where ms: "m s = (r, s1)" by fastforce
  obtain evs rest where e: "ev_trace s1 = ev_trace s @ evs" "must = steps_of evs @ rest"
    "is_ok r \<longrightarrow> (\<exists>more. steps_of evs = must @ more)"
    using m ms unfolding does_def by (metis append_Nil2 fst_conv snd_conv)
  show "\<exists>evs. ev_trace (snd (op_bind m f s)) = ev_trace s @ evs
      \<and> (\<exists>rest. (must @ must') @ may = steps_of evs @ rest)
      \<and> (is_ok (fst (op_bind m f s)) \<longrightarrow> (\<exists>more. steps_of evs = (must @ must') @ more))"
  proof (cases r)
    case (Ok x)
    with e(2,3) have st: "steps_of evs = must" by auto
    obtain evs' rest' where f': "ev_trace (snd (f x s1)) = ev_trace s1 @ evs'" "must' @ may = steps_of evs' @ rest'"
      "is_ok (fst (f x s1)) \<longrightarrow> (\<exists>more. steps_of evs' = must' @ more)"
      using f [of x] unfolding does_def by blast
    have "op_bind m f s = f x s1" using ms Ok by (simp add: op_bind_def)
    then show ?thesis using e(1) st f' by (intro exI [of _ "evs @ evs'"]) auto
  qed (use ms e in \<open>auto simp: op_bind_def intro!: exI [of _ evs]\<close>)
qed

text \<open>What follows takes no step: the optional steps may come before.\<close>

lemma does_bind_silent:
  assumes m: "does must may m" and f: "\<And>x. does [] [] (f x)"
  shows "does must may (op_bind m f)"
proof (rule doesI)
  fix s
  obtain r s1 where ms: "m s = (r, s1)" by fastforce
  obtain evs where e: "ev_trace s1 = ev_trace s @ evs" "\<exists>rest. must @ may = steps_of evs @ rest"
    "is_ok r \<longrightarrow> (\<exists>more. steps_of evs = must @ more)"
    using m ms unfolding does_def by (metis fst_conv snd_conv)
  show "\<exists>evs. ev_trace (snd (op_bind m f s)) = ev_trace s @ evs
      \<and> (\<exists>rest. must @ may = steps_of evs @ rest)
      \<and> (is_ok (fst (op_bind m f s)) \<longrightarrow> (\<exists>more. steps_of evs = must @ more))"
  proof (cases r)
    case (Ok x)
    obtain evs' where f': "ev_trace (snd (f x s1)) = ev_trace s1 @ evs'" "steps_of evs' = []"
      using f [of x] unfolding does_def by (metis append_is_Nil_conv append_Nil2)
    have "op_bind m f s = f x s1" using ms Ok by (simp add: op_bind_def)
    then show ?thesis using e f' Ok by (intro exI [of _ "evs @ evs'"]) auto
  qed (use ms e in \<open>auto simp: op_bind_def intro!: exI [of _ evs]\<close>)
qed

lemma does_wrap [does_intros]: "does must may m \<Longrightarrow> does must may (wrap_err msg m)"
proof (rule doesI)
  fix s assume "does must may m"
  moreover have "is_ok (fst (wrap_err msg m s)) = is_ok (fst (m s))"
    by (auto simp: wrap_err_def split: prod.splits res.splits)
  ultimately show "\<exists>evs. ev_trace (snd (wrap_err msg m s)) = ev_trace s @ evs
      \<and> (\<exists>rest. must @ may = steps_of evs @ rest)
      \<and> (is_ok (fst (wrap_err msg m s)) \<longrightarrow> (\<exists>more. steps_of evs = must @ more))"
    unfolding does_def by simp
qed

text \<open>Once errors are caught, nothing is certain to have been done.\<close>

lemma does_attempt: "does must may m \<Longrightarrow> does [] (must @ may) (attempt m)"
  unfolding does_def by (simp add: snd_attempt) blast

lemma does_ignore: "does must may m \<Longrightarrow> does [] (must @ may) (ignore_err m)"
  unfolding ignore_err_def
  by (intro does_bind_silent does_attempt does_silent) (simp_all add: op_ret_def)

text \<open>Operations that leave the trace alone.\<close>

lemma does_quiet: "(\<And>c. keeps (\<lambda>s. ev_trace s = c) m) \<Longrightarrow> does [] may m"
  by (rule does_silent) (simp add: keeps_def)

lemma fault_free_trace [keeps_intros]: "fault_free (\<lambda>s. ev_trace s = c)"
  by (rule fault_freeI) simp

lemma keeps_trace_session [keeps_intros]: "keeps (\<lambda>s. ev_trace s = c) (MakeSSHSession X a p k)"
proof -
  have "keeps (\<lambda>s. ev_trace s = c) (op_mod (\<lambda>s. s\<lparr>ssh_clients := g s\<rparr>))" for g
    by (simp add: keeps_def op_mod_def)
  then show ?thesis unfolding MakeSSHSession_def by (intro keeps_intros)
qed

lemma keeps_trace_recover [keeps_intros]: "keeps (\<lambda>s. ev_trace s = c) (call_recover rec)"
  by (rule keepsI) (auto simp: call_recover_def split: prod.splits option.splits)

lemma keeps_trace_innerStart [keeps_intros]: "keeps (\<lambda>s. ev_trace s = c) (mysql_innerStart X False)"
proof -
  have "keeps (\<lambda>s. ev_trace s = c) (op_mod (\<lambda>s. s\<lparr>maindb := HOpen\<rparr>))" by (simp add: keeps_def op_mod_def)
  then show ?thesis unfolding mysql_innerStart_def by (intro keeps_intros) simp_all
qed

text \<open>A call that leaves the process and records one event when it takes effect.\<close>

lemma does_sys_call:
  assumes "\<And>s. \<exists>x. fst (m s) = Ok x \<and> ev_trace (snd (m s)) = ev_trace s @ [ev]"
  shows "does (steps_of [ev]) [] (sys_call m)"
proof (rule doesI)
  fix s :: "('a, 'b) mysql"
  have m: "is_ok (fst (m u))" "ev_trace (snd (m u)) = ev_trace u @ [ev]" for u
    using assms [of u] by (auto simp: is_ok_iff)
  show "\<exists>evs. ev_trace (snd (sys_call m s)) = ev_trace s @ evs \<and> (\<exists>rest. steps_of [ev] @ [] = steps_of evs @ rest)
      \<and> (is_ok (fst (sys_call m s)) \<longrightarrow> (\<exists>more. steps_of evs = steps_of [ev] @ more))"
  proof (cases "\<exists>e fs. faults s = FailBefore e # fs")
    case True
    then show ?thesis by (intro exI [of _ "[]"]) (auto simp: sys_call_def)
  next
    case False
    then show ?thesis using m by (intro exI [of _ "[ev]"]) (auto simp: sys_call_def split: list.splits fault.splits)
  qed
qed

lemma does_shell: "does (steps_of [Ran c]) [] (sys_call (run_shell X c inp))"
  by (rule does_sys_call) (auto simp: run_shell_def put_datadir_def split: prod.splits)

lemma does_then_quiet:
  "does must may m \<Longrightarrow> (\<And>x c. keeps (\<lambda>s. ev_trace s = c) (f x)) \<Longrightarrow> does must may (op_bind m f)"
  by (intro does_bind_silent does_quiet)

lemma does_after_quiet:
  "(\<And>c. keeps (\<lambda>s. ev_trace s = c) m) \<Longrightarrow> (\<And>x. does must may (f x)) \<Longrightarrow> does must may (op_bind m f)"
  using does_bind [OF does_quiet, of m must may f] by simp

lemma does_case_prod: "(\<And>a b. does must may (f a b)) \<Longrightarrow> does must may (case x of (a, b) \<Rightarrow> f a b)"
  by (cases x) simp

lemma does_if:
  "(c \<Longrightarrow> does must may m) \<Longrightarrow> (\<not> c \<Longrightarrow> does must may m') \<Longrightarrow> does must may (if c then m else m')"
  by simp

lemma does_ssh: "does (steps_of [Ran c]) [] (runSSHCommand X c)"
  unfolding runSSHCommand_def ReadAll_def Let_def prod.case
  by (rule does_after_quiet, rule keeps_get, rule does_case_prod, rule does_after_quiet, intro keeps_intros,
      rule does_after_quiet, intro keeps_intros, rule does_then_quiet, rule does_wrap, rule does_shell,
      intro keeps_intros)

text \<open>A command that is not one of the steps, with its error dropped or not.\<close>

lemma does_other: "\<not> is_step (Ran c) \<Longrightarrow> does [] [] (runSSHCommand X c)"
  using does_ssh [of c X] by simp

lemma does_dropped: "does [] (steps_of [Ran c]) (ignore_err (runSSHCommand X c))"
  by (rule does_ignore [OF does_ssh, unfolded append_Nil2])

text \<open>The commands are different texts.\<close>

lemma not_steps:
  "\<not> is_step (Ran checkCmd)" "\<not> is_step (Ran errorLogCmd)" "\<not> is_step (Ran cmd_cleanup_blocked)"
  "\<not> is_step (Ran cmd_cleanup_restore)"
  by (simp_all add: checkCmd_def errorLogCmd_def cmd_cleanup_blocked_def cmd_cleanup_restore_def cmd_block_def
      cmd_wipe_def restoreCmd_def cmd_prepare_def cmd_move_back_def cmd_permissions_def cmd_unblock_def quoted_def)

lemma does_sleep [does_intros]: "does [] [] (my_sleep X n)"
  by (intro doesI exI [of _ "[Slept n]"]) (simp add: my_sleep_def op_mod_def)

lemma does_start_loop: "does [] [] (mysql_start_loop X i n)"
proof (induction n arbitrary: i)
  case (Suc n)
  have log: "does [] [] (if 0 < i \<and> i mod 10 = 0 then ignore_err (runSSHCommand X errorLogCmd) else op_ret ())"
    using does_dropped [of errorLogCmd X] not_steps(2) by (simp add: does_quiet)
  have chk: "does [] [] (attempt (runSSHCommand X checkCmd))"
    using does_attempt [OF does_other [OF not_steps(1)], of X] by simp
  show ?case
    unfolding mysql_start_loop.simps
  proof (rule does_bind_silent [OF chk])
    fix r :: "goerr + unit"
    show "does [] [] (case r of Inr _ \<Rightarrow> op_ret () | Inl _ \<Rightarrow>
         op_bind (if 0 < i \<and> i mod 10 = 0 then ignore_err (runSSHCommand X errorLogCmd) else op_ret ()) (\<lambda>_.
         op_bind (my_sleep X 1) (\<lambda>_. mysql_start_loop X (Suc i) n)))"
      using log Suc.IH by (cases r) (auto intro!: does_bind_silent does_sleep intro: does_quiet)
  qed
qed (simp add: does_quiet)

lemma does_come_up_loop: "does [] [] (come_up_loop X rec i n err)"
proof (induction n arbitrary: i err)
  case (Suc n)
  show ?case
    unfolding come_up_loop.simps
    by (rule does_after_quiet, intro keeps_intros, rule does_after_quiet, intro keeps_intros,
        rule does_if, rule does_quiet, intro keeps_intros, rule does_after_quiet, intro keeps_intros,
        rule does_bind_silent, rule does_sleep, rule Suc.IH)
qed (simp add: does_quiet split: option.split)

lemma my_ping_trace:
  assumes "my_ping X s = (r, s')"
  shows "ev_trace s' = ev_trace s @ (if r = Ok False then [PingFailed] else [])"
proof -
  obtain q u where q: "my_call X maindb (op_ret ()) s = (q, u)" by fastforce
  have k: "keeps (\<lambda>u. ev_trace u = ev_trace s) (my_call X maindb (op_ret ()))" by (intro keeps_intros)
  have "ev_trace u = ev_trace s" using keepsD [OF k refl] q by simp
  with assms q show ?thesis by (cases q) (auto simp: my_ping_def op_defs)
qed

lemma does_shutdown_wait: "does [PingFailed] [] (waitForShutdownCompletion X n)"
proof (induction n)
  case (Suc n)
  show ?case
  proof (rule doesI)
    fix s :: "('a, 'b) mysql"
    define m where "m = (if maindb s \<noteq> HNil then my_ping X else op_ret True)"
    obtain r u where m: "m s = (r, u)" by fastforce
    then have tr: "ev_trace u = ev_trace s @ (if r = Ok False then [PingFailed] else [])"
      using my_ping_trace [of X s r u] by (auto simp: m_def op_ret_def split: if_splits)
    have un: "waitForShutdownCompletion X (Suc n) s = op_bind m (\<lambda>answers.
        if \<not> answers then my_sleep X 3 else op_bind (my_sleep X 1) (\<lambda>_. waitForShutdownCompletion X n)) s"
      by (simp add: op_bind_get m_def)
    have "does [PingFailed] [] (op_bind (my_sleep X 1) (\<lambda>_. waitForShutdownCompletion X n))"
      using does_bind [OF does_sleep Suc.IH, of X] by simp
    then obtain evs where evs: "ev_trace (snd (op_bind (my_sleep X 1) (\<lambda>_. waitForShutdownCompletion X n) u)) = ev_trace u @ evs"
      "\<exists>rest. [PingFailed] @ [] = steps_of evs @ rest"
      "is_ok (fst (op_bind (my_sleep X 1) (\<lambda>_. waitForShutdownCompletion X n) u)) \<longrightarrow> (\<exists>more. steps_of evs = [PingFailed] @ more)"
      unfolding does_def by blast
    show "\<exists>evs. ev_trace (snd (waitForShutdownCompletion X (Suc n) s)) = ev_trace s @ evs
        \<and> (\<exists>rest. [PingFailed] @ [] = steps_of evs @ rest)
        \<and> (is_ok (fst (waitForShutdownCompletion X (Suc n) s)) \<longrightarrow> (\<exists>more. steps_of evs = [PingFailed] @ more))"
    proof (cases "r = Ok True")
      case True
      then have "waitForShutdownCompletion X (Suc n) s =
          op_bind (my_sleep X 1) (\<lambda>_. waitForShutdownCompletion X n) u"
        unfolding un using m by (simp add: op_bind_def)
      then show ?thesis using evs tr True by (intro exI [of _ evs]) simp
    next
      case False
      then show ?thesis
        using m tr unfolding un
        by (cases r) (auto simp: op_bind_def my_sleep_def op_mod_def intro!: exI [of _ "[PingFailed, Slept 3]"])
    qed
  qed
qed (auto simp: does_def op_err_def)

lemma does_my_call_shutdown: "does [SqlShutdown] [] (my_call X maindb (do_shutdown X))"
proof (rule doesI)
  fix s :: "('a, 'b) mysql"
  have sys: "does (steps_of [SqlShutdown]) [] (sys_call (do_shutdown X))"
    by (rule does_sys_call) (simp add: do_shutdown_def op_mod_def)
  show "\<exists>evs. ev_trace (snd (my_call X maindb (do_shutdown X) s)) = ev_trace s @ evs
      \<and> (\<exists>rest. [SqlShutdown] @ [] = steps_of evs @ rest)
      \<and> (is_ok (fst (my_call X maindb (do_shutdown X) s)) \<longrightarrow> (\<exists>more. steps_of evs = [SqlShutdown] @ more))"
  proof (cases "maindb s = HOpen \<and> reachable X (pod s)")
    case True
    then have "my_call X maindb (do_shutdown X) s = sys_call (do_shutdown X) s" by (simp add: my_call_def)
    then show ?thesis using sys unfolding does_def by simp
  next
    case False
    then show ?thesis by (intro exI [of _ "[]"]) (auto simp: my_call_def split: handle.splits)
  qed
qed

lemma does_remote: "does (steps_of [Remote a p c]) [] (sys_call (start_remote a p c))"
  by (rule does_sys_call) (simp add: start_remote_def op_mod_def)

lemma does_local_shell: "does (steps_of [Ran c]) [] (run_shell X c inp)"
  by (intro doesI exI [of _ "[Ran c]"]) (auto simp: run_shell_def put_datadir_def split: prod.splits)

lemma does_pipe: "does [Remote (ref_Addr ref) (ref_SSHPort ref) backupCmd, Ran restoreCmd] [] (pipe_backup X ref)"
proof -
  have rest: "does [Ran restoreCmd] [] (op_bind (wrap_err ''creating local ssh'' (MakeSSHSession X ''localhost'' port key)) (\<lambda>_.
     op_bind (wrap_err ''creating local stdin'' (sys_call (op_ret ()))) (\<lambda>_.
     op_bind (wrap_err ''running ssh restore command: %s'' (sys_call (op_ret ()))) (\<lambda>_.
     op_bind (attempt (sys_call (op_ret b))) (\<lambda>copied.
     op_bind (run_shell X restoreCmd (case copied of Inl _ \<Rightarrow> [] | Inr b \<Rightarrow> b)) (\<lambda>_.
     case copied of Inl e \<Rightarrow> op_err (EWrap e ''piping backup'') | Inr _ \<Rightarrow> op_ret ()))))))" for port key b
    by (rule does_after_quiet, intro keeps_intros, rule does_after_quiet, intro keeps_intros,
        rule does_after_quiet, intro keeps_intros, rule does_after_quiet, intro keeps_intros,
        rule does_then_quiet, rule does_local_shell [of restoreCmd, simplified], intro keeps_intros)
  have "does ([Remote (ref_Addr ref) (ref_SSHPort ref) backupCmd] @ [Ran restoreCmd]) [] (pipe_backup X ref)"
    unfolding pipe_backup_def
    by (rule does_after_quiet, rule keeps_get, rule does_case_prod, rule does_after_quiet, intro keeps_intros,
        rule does_after_quiet, intro keeps_intros, rule does_bind, rule does_wrap,
        rule does_remote [simplified], rule rest)
  then show ?thesis by simp
qed

lemma does_step: "is_step (Ran c) \<Longrightarrow> does [Ran c] [] (wrap_err msg (runSSHCommand X c))"
  using does_wrap [OF does_ssh [of c X]] by simp

lemma does_restore_tail:
  "does [] [Ran cmd_unblock] (op_bind (ignore_err (runSSHCommand X cmd_unblock)) (\<lambda>_.
     op_bind (my_sleep X 5) (\<lambda>_.
     op_bind (wrap_err m1 (waitForMySQLToStart X 60)) (\<lambda>_.
     op_bind (wrap_err m2 (call_recover rec)) (\<lambda>_.
     op_bind (wrap_err m3 (waitForDatabaseToComeUpWithRecovery X 360 rec)) (\<lambda>_.
     ignore_err (runSSHCommand X cmd_cleanup_restore)))))))"
proof (rule does_bind_silent)
  show "does [] [Ran cmd_unblock] (ignore_err (runSSHCommand X cmd_unblock))"
    using does_dropped [of cmd_unblock X] by simp
  have cl: "does [] [] (ignore_err (runSSHCommand X cmd_cleanup_restore))"
    using does_dropped [of cmd_cleanup_restore X] not_steps(4) by simp
  have recover: "does [] [] (call_recover rec)" by (rule does_quiet, rule keeps_trace_recover)
  show "does [] [] (op_bind (my_sleep X 5) (\<lambda>_. op_bind (wrap_err m1 (waitForMySQLToStart X 60)) (\<lambda>_.
     op_bind (wrap_err m2 (call_recover rec)) (\<lambda>_.
     op_bind (wrap_err m3 (waitForDatabaseToComeUpWithRecovery X 360 rec)) (\<lambda>_.
     ignore_err (runSSHCommand X cmd_cleanup_restore))))))"
    unfolding waitForMySQLToStart_def waitForDatabaseToComeUpWithRecovery_def
    by (intro does_bind_silent does_sleep does_wrap does_start_loop does_come_up_loop recover cl)
qed

lemma does_restore:
  assumes "ref_Unmarshal X (SData snap) = Inr ref"
  shows "does [Remote (ref_Addr ref) (ref_SSHPort ref) backupCmd, Ran restoreCmd, Ran cmd_prepare,
      Ran cmd_move_back, Ran cmd_permissions] [Ran cmd_unblock] (restore_from X rec snap)"
proof -
  have "does ([Remote (ref_Addr ref) (ref_SSHPort ref) backupCmd, Ran restoreCmd] @ [Ran cmd_prepare] @
      [Ran cmd_move_back] @ [Ran cmd_permissions] @ []) [Ran cmd_unblock] (restore_from X rec snap)"
    unfolding restore_from_def assms sum.case
    by (rule does_bind, rule does_pipe, rule does_bind, rule does_step, simp, rule does_bind, rule does_step, simp,
        rule does_bind, rule does_step, simp, rule does_restore_tail)
  then show ?thesis by simp
qed

lemma does_unless_success:
  assumes m: "does must may m" and cl: "does [] [] cl"
  shows "does must may (unless_success cl m)"
proof (rule doesI)
  fix s
  obtain r u where ms: "m s = (r, u)" by fastforce
  obtain evs where e: "ev_trace u = ev_trace s @ evs" "\<exists>rest. must @ may = steps_of evs @ rest"
    "is_ok r \<longrightarrow> (\<exists>more. steps_of evs = must @ more)"
    using m ms unfolding does_def by (metis fst_conv snd_conv)
  obtain evs' where c: "ev_trace (snd (cl u)) = ev_trace u @ evs'" "steps_of evs' = []"
    using cl unfolding does_def by (metis append_is_Nil_conv append_Nil2)
  show "\<exists>evs. ev_trace (snd (unless_success cl m s)) = ev_trace s @ evs
      \<and> (\<exists>rest. must @ may = steps_of evs @ rest)
      \<and> (is_ok (fst (unless_success cl m s)) \<longrightarrow> (\<exists>more. steps_of evs = must @ more))"
  proof (cases "is_ok r")
    case True
    then have "unless_success cl m s = (r, u)" using ms by (auto simp: unless_success_def is_ok_iff)
    with e show ?thesis by auto
  next
    case False
    then have "unless_success cl m s = (r, snd (cl u))" using ms by (cases r) (auto simp: unless_success_def)
    with e c False show ?thesis by (intro exI [of _ "evs @ evs'"]) auto
  qed
qed

lemma does_cleanup: "does [] [] (snapshot_cleanup X)"
  unfolding snapshot_cleanup_def
  using does_dropped [of cmd_cleanup_blocked X] does_dropped [of cmd_cleanup_restore X] not_steps
  by (intro does_bind_silent) simp_all

lemma does_ApplySnapshot:
  assumes "ref_Unmarshal X (SData snap) = Inr ref"
  shows "does (snapshot_steps ref) [Ran cmd_unblock] (ApplySnapshotWithPortRecovery X snap rec)"
proof -
  let ?tail = "[Remote (ref_Addr ref) (ref_SSHPort ref) backupCmd, Ran restoreCmd, Ran cmd_prepare,
      Ran cmd_move_back, Ran cmd_permissions]"
  have "does ([Ran cmd_block] @ [SqlShutdown] @ [PingFailed] @ [Ran cmd_wipe] @ ?tail) [Ran cmd_unblock]
      (ApplySnapshotWithPortRecovery X snap rec)"
    unfolding ApplySnapshotWithPortRecovery_def
    by (rule does_bind, rule does_step, simp, rule does_bind, rule does_wrap, rule does_my_call_shutdown,
        rule does_bind, rule does_wrap, rule does_shutdown_wait, rule does_bind, rule does_step, simp,
        rule does_unless_success, rule does_restore [OF assms], rule does_cleanup)
  then show ?thesis by (simp add: snapshot_steps_def)
qed



section \<open>Undisturbed runs\<close>

text \<open>The parts of the object that commands do not change, and the pod with its data.\<close>

definition same_object :: "('u, 'p) mysql \<Rightarrow> ('u, 'p) mysql \<Rightarrow> bool" where
  "same_object s s' \<longleftrightarrow> faults s' = faults s \<and> maindb s' = maindb s \<and> my_mgmtdb s' = my_mgmtdb s
     \<and> my_raftdb s' = my_raftdb s \<and> privateKey s' = privateKey s \<and> sshPort s' = sshPort s"

abbreviation podd :: "('u, 'p) mysql \<Rightarrow> 'p \<times> 'u datadir" where
  "podd s \<equiv> (pod s, datadir_of s)"

text \<open>A pod of which the program can run commands: no fault pending and a usable key.\<close>

definition can_ssh :: "('u, 'q, 'p, 'e) mysql_engine_scheme \<Rightarrow> ('u, 'p) mysql \<Rightarrow> bool" where
  "can_ssh X s \<longleftrightarrow> calm s \<and> parse_key X (privateKey s) = None"

lemma same_object_ssh: "same_object s s' \<Longrightarrow> can_ssh X s \<Longrightarrow> can_ssh X s'"
  by (simp add: same_object_def can_ssh_def calm_def)

lemma calm_session:
  "can_ssh X s \<Longrightarrow> MakeSSHSession X a p (privateKey s) s = (Ok (), s\<lparr>ssh_clients := Suc (ssh_clients s)\<rparr>)"
  by (simp add: MakeSSHSession_def can_ssh_def op_defs sys_call_def calm_def)

lemma calm_run_shell:
  "run_shell X c b s = (Ok (fst (shell X c b (podd s))), put_datadir (snd (snd (shell X c b (podd s))))
     (s\<lparr>pod := fst (snd (shell X c b (podd s))), ev_trace := ev_trace s @ [Ran c]\<rparr>))"
  by (simp add: run_shell_def split: prod.split)

lemma datadir_put [simp]: "datadir_of (put_datadir d s) = d"
  by (simp add: datadir_of_def put_datadir_def)

lemma put_datadir_simps [simp]:
  "pod (put_datadir d s) = pod s" "faults (put_datadir d s) = faults s" "maindb (put_datadir d s) = maindb s"
  "privateKey (put_datadir d s) = privateKey s" "sshPort (put_datadir d s) = sshPort s"
  "ev_trace (put_datadir d s) = ev_trace s" "ssh_clients (put_datadir d s) = ssh_clients s"
  "my_mgmtdb (put_datadir d s) = my_mgmtdb s" "my_raftdb (put_datadir d s) = my_raftdb s"
  by (simp_all add: put_datadir_def)

lemma datadir_upd [simp]:
  "datadir_of (s\<lparr>ssh_clients := n\<rparr>) = datadir_of s" "datadir_of (s\<lparr>pod := q\<rparr>) = datadir_of s"
  "datadir_of (s\<lparr>ev_trace := t\<rparr>) = datadir_of s" "datadir_of (s\<lparr>maindb := h\<rparr>) = datadir_of s"
  by (simp_all add: datadir_of_def)

lemma calm_ssh:
  assumes "can_ssh X s"
  shows "\<exists>s'. runSSHCommand X c s = (case fst (fst (shell X c [] (podd s))) of None \<Rightarrow> Ok ()
        | Some e \<Rightarrow> Err (EWrap e ((''running command ['' @ c @ '']'') @ [CHR 0x0A] @ ''===== stderr ====='' @ [CHR 0x0A])), s')
    \<and> same_object s s' \<and> podd s' = snd (shell X c [] (podd s)) \<and> ev_trace s' = ev_trace s @ [Ran c]
    \<and> ssh_clients s' = Suc (ssh_clients s)"
proof -
  let ?s1 = "s\<lparr>ssh_clients := Suc (ssh_clients s)\<rparr>"
  obtain ex er p d where sh: "shell X c [] (podd s) = ((ex, er), p, d)" by (metis prod.collapse)
  define s' where "s' = put_datadir d (?s1\<lparr>pod := p, ev_trace := ev_trace s @ [Ran c]\<rparr>)"
  have c1: "calm ?s1" "calm s'" using assms by (simp_all add: can_ssh_def calm_def s'_def)
  have "run_shell X c [] ?s1 = (Ok (ex, er), s')" using sh by (simp add: calm_run_shell s'_def)
  then have "runSSHCommand X c s = (case ex of None \<Rightarrow> Ok ()
        | Some e \<Rightarrow> Err (EWrap e ((''running command ['' @ c @ '']'') @ [CHR 0x0A] @ ''===== stderr ====='' @ [CHR 0x0A])), s')"
    using calm_session [OF assms] c1
    by (cases ex) (simp_all add: runSSHCommand_def op_get_def op_bind_def wrap_err_def sys_call_calm op_ret_def
        attempt_def ReadAll_def wrapErrorAndAddStderr_def op_err_def)
  then show ?thesis
    using sh by (intro exI [of _ s']) (simp add: same_object_def s'_def)
qed

lemma calm_ssh_Ok:
  assumes "can_ssh X s" and "fst (fst (shell X c [] (podd s))) = None"
  obtains s' where "runSSHCommand X c s = (Ok (), s')" "same_object s s'" "podd s' = snd (shell X c [] (podd s))"
    "ev_trace s' = ev_trace s @ [Ran c]" "can_ssh X s'"
  using calm_ssh [OF assms(1), of c] assms same_object_ssh by auto

text \<open>
  What is assumed of a pod that does what it is told: the two commands around the shutdown succeed,
  blocking does not stop the server, and the server is down within 30 seconds of \<open>SHUTDOWN\<close>.
\<close>

definition pod_stops :: "('u, 'q, 'p, 'e) mysql_engine_scheme \<Rightarrow> bool" where
  "pod_stops X \<longleftrightarrow> (\<forall>p d. fst (fst (shell X cmd_block [] (p, d))) = None \<and> fst (fst (shell X cmd_wipe [] (p, d))) = None
      \<and> (reachable X p \<longrightarrow> reachable X (fst (snd (shell X cmd_block [] (p, d))))))
    \<and> (\<forall>p. \<exists>k < 30. \<not> reachable X ((second X ^^ k) (sql_shutdown X p)))"

lemma calm_until_wiped:
  assumes "can_ssh X s" and "maindb s = HOpen" and "reachable X (pod s)" and "pod_stops X"
  obtains s' p d k where "ApplySnapshotWithPortRecovery X snap rec s =
      unless_success (snapshot_cleanup X) (restore_from X rec snap) s'"
    "same_object s s'" "can_ssh X s'" "podd s' = snd (shell X cmd_wipe [] (p, d))" "k < 30"
    "ev_trace s' = ev_trace s @ [Ran cmd_block, SqlShutdown] @ replicate k (Slept 1) @ [PingFailed, Slept 3, Ran cmd_wipe]"
proof -
  have works: "fst (fst (shell X cmd_block [] (p, d))) = None" "fst (fst (shell X cmd_wipe [] (p, d))) = None" for p d
    using assms(4) by (simp_all add: pod_stops_def)
  obtain s1 where s1: "runSSHCommand X cmd_block s = (Ok (), s1)" "same_object s s1"
    "podd s1 = snd (shell X cmd_block [] (podd s))" "ev_trace s1 = ev_trace s @ [Ran cmd_block]" "can_ssh X s1"
    using calm_ssh_Ok [OF assms(1) works(1)] by blast
  have "reachable X (fst (snd (shell X cmd_block [] (podd s))))" using assms(3,4) by (simp add: pod_stops_def)
  then have up1: "reachable X (pod s1)" "maindb s1 = HOpen" "calm s1"
    using s1 assms(2) by (metis fst_conv, simp_all add: same_object_def can_ssh_def)
  let ?s2 = "s1\<lparr>pod := sql_shutdown X (pod s1), ev_trace := ev_trace s1 @ [SqlShutdown]\<rparr>"
  have s2: "my_call X maindb (do_shutdown X) s1 = (Ok (), ?s2)"
    using up1 by (simp add: my_call_def sys_call_calm do_shutdown_def op_mod_def)
  obtain k where k: "waits (\<lambda>p. \<not> reachable X p) (second X) 30 (pod ?s2) = Some k"
    using assms(4) waits_found [of 30 "\<lambda>p. \<not> reachable X p" "second X" "pod ?s2"] by (auto simp: pod_stops_def)
  let ?s3 = "(after_waits X k ?s2)\<lparr>pod := (second X ^^ (k + 3)) (pod ?s2),
         ev_trace := ev_trace ?s2 @ replicate k (Slept 1) @ [PingFailed, Slept 3]\<rparr>"
  have s3: "waitForShutdownCompletion X 30 ?s2 = (Ok (), ?s3)"
    using waitForShutdown_eq [of ?s2 X 30] up1 k by (simp add: calm_def)
  have ssh3: "can_ssh X ?s3" using s1(5) by (simp add: can_ssh_def after_waits_def calm_def)
  obtain s4 where s4: "runSSHCommand X cmd_wipe ?s3 = (Ok (), s4)" "same_object ?s3 s4"
    "podd s4 = snd (shell X cmd_wipe [] (podd ?s3))" "ev_trace s4 = ev_trace ?s3 @ [Ran cmd_wipe]" "can_ssh X s4"
    using calm_ssh_Ok [OF ssh3 works(2)] by blast
  have run: "ApplySnapshotWithPortRecovery X snap rec s =
      unless_success (snapshot_cleanup X) (restore_from X rec snap) s4"
    unfolding ApplySnapshotWithPortRecovery_def op_bind_def wrap_err_def using s1(1) s2 s3 s4(1) by simp
  have "k < 30" using k by (simp add: waits_Some_iff)
  then show thesis
    using that [OF run _ s4(5) s4(3)] s1(2,4) s4(2,4) by (simp add: same_object_def after_waits_def)
qed

text \<open>
  A snapshot whose reference cannot be read costs the node its data: \<open>ApplySnapshot\<close> parses the
  reference only after the server was shut down and its data directory deleted; it then reports the
  error, unblocks the server and removes the restore directory, and the data directory is what the
  deletion left.
\<close>

theorem mysql_snapshot_bad_reference:
  assumes "can_ssh X s" and "maindb s = HOpen" and "reachable X (pod s)" and "pod_stops X"
    and bad: "ref_Unmarshal X (SData snap) = Inl e"
    and quiet: "\<forall>c \<in> {cmd_cleanup_blocked, cmd_cleanup_restore}. \<forall>p d. snd (snd (shell X c [] (p, d))) = d"
  shows "\<exists>s' k p d. mysql_ApplySnapshot X snap s = (Err (EWrap e ''unmarshaling snapshot reference''), s')
    \<and> datadir_of s' = snd (snd (shell X cmd_wipe [] (p, d)))
    \<and> ev_trace s' = ev_trace s @ [Ran cmd_block, SqlShutdown] @ replicate k (Slept 1)
        @ [PingFailed, Slept 3, Ran cmd_wipe, Ran cmd_cleanup_blocked, Ran cmd_cleanup_restore]"
proof -
  obtain s1 p d k where run: "ApplySnapshotWithPortRecovery X snap (\<lambda>p. (None, p)) s =
      unless_success (snapshot_cleanup X) (restore_from X (\<lambda>p. (None, p)) snap) s1" "same_object s s1"
    and s1: "can_ssh X s1" "podd s1 = snd (shell X cmd_wipe [] (p, d))" "k < 30"
    "ev_trace s1 = ev_trace s @ [Ran cmd_block, SqlShutdown] @ replicate k (Slept 1) @ [PingFailed, Slept 3, Ran cmd_wipe]"
    by (rule calm_until_wiped [OF assms(1-4)])
  obtain s2 r2 where s2: "runSSHCommand X cmd_cleanup_blocked s1 = (r2, s2)" "same_object s1 s2"
    "podd s2 = snd (shell X cmd_cleanup_blocked [] (podd s1))" "ev_trace s2 = ev_trace s1 @ [Ran cmd_cleanup_blocked]"
    "\<forall>x. r2 \<noteq> Panic x"
    using calm_ssh [OF s1(1), of cmd_cleanup_blocked] by (auto split: option.splits)
  have "can_ssh X s2" using same_object_ssh [OF s2(2) s1(1)] .
  then obtain s3 r3 where s3: "runSSHCommand X cmd_cleanup_restore s2 = (r3, s3)"
    "podd s3 = snd (shell X cmd_cleanup_restore [] (podd s2))" "ev_trace s3 = ev_trace s2 @ [Ran cmd_cleanup_restore]"
    "\<forall>x. r3 \<noteq> Panic x"
    using calm_ssh [of X s2 cmd_cleanup_restore] by (auto split: option.splits)
  have "snd (snapshot_cleanup X s1) = s3"
    using s2(1,5) s3(1,4) unfolding snapshot_cleanup_def
    by (cases r2; cases r3) (simp_all add: op_defs)
  then have "mysql_ApplySnapshot X snap s = (Err (EWrap e ''unmarshaling snapshot reference''), s3)"
    using run(1) bad by (simp add: mysql_ApplySnapshot_def unless_success_def restore_from_def op_err_def)
  moreover have "datadir_of s3 = snd (snd (shell X cmd_wipe [] (p, d)))"
    using s3(2) s2(3) s1(2) quiet by (metis insertCI snd_conv)
  ultimately show ?thesis using s1(4) s2(4) s3(3) by auto
qed

text \<open>
  What is assumed of a pod that restores: every command succeeds; what the restore command unpacks
  from a stream (\<open>unpack\<close>) stays in the restore directory while it is prepared and is what the move
  puts in the data directory; the later commands leave the data alone; five seconds after it was
  unblocked the server's process is found, and it answers within 360 seconds.
\<close>

definition pod_restores :: "('u, 'q, 'p, 'e) mysql_engine_scheme \<Rightarrow> ('p \<Rightarrow> 'u datadir option) \<Rightarrow> (bytes \<Rightarrow> 'u datadir) \<Rightarrow> bool" where
  "pod_restores X restored unpack \<longleftrightarrow> pod_stops X
    \<and> (\<forall>c \<in> {cmd_prepare, cmd_move_back, cmd_permissions, cmd_unblock, cmd_cleanup_restore}. \<forall>q.
        fst (fst (shell X c [] q)) = None)
    \<and> (\<forall>c \<in> {cmd_permissions, cmd_unblock, checkCmd, cmd_cleanup_restore}. \<forall>q. snd (snd (shell X c [] q)) = snd q)
    \<and> (\<forall>q b. restored (fst (snd (shell X restoreCmd b q))) = Some (unpack b))
    \<and> (\<forall>q. restored (fst (snd (shell X cmd_prepare [] q))) = restored (fst q))
    \<and> (\<forall>q x. restored (fst q) = Some x \<longrightarrow> snd (snd (shell X cmd_move_back [] q)) = x)
    \<and> (\<forall>q d. fst (fst (shell X checkCmd [] ((second X ^^ 5) (fst (snd (shell X cmd_unblock [] q))), d))) = None)
    \<and> (\<forall>q. fst (fst (shell X checkCmd [] q)) = None \<longrightarrow>
        (\<exists>k < 360. reachable X ((second X ^^ k) (fst (snd (shell X checkCmd [] q))))))
    \<and> (\<forall>q. reachable X (fst q) \<longrightarrow> reachable X (fst (snd (shell X cmd_cleanup_restore [] q))))"

lemma pod_restoresD:
  assumes "pod_restores X restored unpack"
  shows "pod_stops X"
    and "c \<in> {cmd_prepare, cmd_move_back, cmd_permissions, cmd_unblock, cmd_cleanup_restore} \<Longrightarrow>
      fst (fst (shell X c [] q)) = None"
    and "c \<in> {cmd_permissions, cmd_unblock, checkCmd, cmd_cleanup_restore} \<Longrightarrow> snd (snd (shell X c [] q)) = snd q"
    and "restored (fst (snd (shell X restoreCmd b q))) = Some (unpack b)"
    and "restored (fst (snd (shell X cmd_prepare [] q))) = restored (fst q)"
    and "restored (fst q) = Some x \<Longrightarrow> snd (snd (shell X cmd_move_back [] q)) = x"
    and "fst (fst (shell X checkCmd [] ((second X ^^ 5) (fst (snd (shell X cmd_unblock [] q))), d))) = None"
    and "fst (fst (shell X checkCmd [] q)) = None \<Longrightarrow>
      \<exists>k < 360. reachable X ((second X ^^ k) (fst (snd (shell X checkCmd [] q))))"
    and "reachable X (fst q) \<Longrightarrow> reachable X (fst (snd (shell X cmd_cleanup_restore [] q)))"
proof -
  note a = assms [unfolded pod_restores_def]
  show "pod_stops X" by (rule a [THEN conjunct1])
  show "c \<in> {cmd_prepare, cmd_move_back, cmd_permissions, cmd_unblock, cmd_cleanup_restore} \<Longrightarrow>
      fst (fst (shell X c [] q)) = None"
    by (rule a [THEN conjunct2, THEN conjunct1, rule_format])
  show "c \<in> {cmd_permissions, cmd_unblock, checkCmd, cmd_cleanup_restore} \<Longrightarrow>
      snd (snd (shell X c [] q)) = snd q"
    by (rule a [THEN conjunct2, THEN conjunct2, THEN conjunct1, rule_format])
  show "restored (fst (snd (shell X restoreCmd b q))) = Some (unpack b)"
    by (rule a [THEN conjunct2, THEN conjunct2, THEN conjunct2, THEN conjunct1, rule_format])
  show "restored (fst (snd (shell X cmd_prepare [] q))) = restored (fst q)"
    by (rule a [THEN conjunct2, THEN conjunct2, THEN conjunct2, THEN conjunct2, THEN conjunct1, rule_format])
  show "restored (fst q) = Some x \<Longrightarrow> snd (snd (shell X cmd_move_back [] q)) = x"
    by (rule a [THEN conjunct2, THEN conjunct2, THEN conjunct2, THEN conjunct2, THEN conjunct2, THEN conjunct1, rule_format])
  show "fst (fst (shell X checkCmd [] ((second X ^^ 5) (fst (snd (shell X cmd_unblock [] q))), d))) = None"
    by (rule a [THEN conjunct2, THEN conjunct2, THEN conjunct2, THEN conjunct2, THEN conjunct2, THEN conjunct2, THEN conjunct1, rule_format])
  show "fst (fst (shell X checkCmd [] q)) = None \<Longrightarrow>
      \<exists>k < 360. reachable X ((second X ^^ k) (fst (snd (shell X checkCmd [] q))))"
    by (rule a [THEN conjunct2, THEN conjunct2, THEN conjunct2, THEN conjunct2, THEN conjunct2, THEN conjunct2, THEN conjunct2, THEN conjunct1, rule_format])
  show "reachable X (fst q) \<Longrightarrow> reachable X (fst (snd (shell X cmd_cleanup_restore [] q)))"
    by (rule a [THEN conjunct2, THEN conjunct2, THEN conjunct2, THEN conjunct2, THEN conjunct2, THEN conjunct2, THEN conjunct2, THEN conjunct2, rule_format])
qed

lemma calm_pipe:
  assumes "can_ssh X s"
  obtains s' where "pipe_backup X ref s = (Ok (), s')" "same_object s s'" "can_ssh X s'"
    "podd s' = snd (shell X restoreCmd (remote_run X (ref_Addr ref) (ref_SSHPort ref) backupCmd) (podd s))"
proof -
  let ?b = "remote_run X (ref_Addr ref) (ref_SSHPort ref) backupCmd"
  let ?s1 = "s\<lparr>ssh_clients := Suc (ssh_clients s)\<rparr>"
  let ?s2 = "?s1\<lparr>ev_trace := ev_trace s @ [Remote (ref_Addr ref) (ref_SSHPort ref) backupCmd]\<rparr>"
  let ?s3 = "?s2\<lparr>ssh_clients := Suc (Suc (ssh_clients s))\<rparr>"
  have ssh: "can_ssh X ?s2" "calm ?s1" "calm ?s2" "calm ?s3" using assms by (simp_all add: can_ssh_def calm_def)
  have l: "MakeSSHSession X a p (privateKey s) ?s2 = (Ok (), ?s3)" for a p
    using calm_session [OF ssh(1), of a p] by simp
  obtain ex p' d' where sh: "shell X restoreCmd ?b (podd s) = (ex, p', d')" by (metis prod.collapse)
  let ?s4 = "put_datadir d' (?s3\<lparr>pod := p', ev_trace := ev_trace ?s3 @ [Ran restoreCmd]\<rparr>)"
  have r: "run_shell X restoreCmd ?b ?s3 = (Ok ex, ?s4)" using sh by (simp add: calm_run_shell)
  have "pipe_backup X ref s = (Ok (), ?s4)"
    using calm_session [OF assms] l r ssh
    by (simp add: pipe_backup_def op_get_def op_bind_def attempt_def wrap_err_def sys_call_calm op_ret_def
        start_remote_def op_mod_def)
  moreover have "same_object s ?s4" by (simp add: same_object_def)
  moreover from this have "can_ssh X ?s4" using assms by (rule same_object_ssh)
  ultimately show thesis using that sh by simp
qed

lemma started_at_once:
  "runSSHCommand X checkCmd s = (Ok (), s') \<Longrightarrow> 0 < n \<Longrightarrow> waitForMySQLToStart X n s = (Ok (), s')"
  by (cases n) (simp_all add: waitForMySQLToStart_def op_bind_def attempt_def op_ret_def)

text \<open>The last part: the server is unblocked, found, reached, and the restore directory removed.\<close>

lemma calm_restart:
  assumes "can_ssh X s" and "maindb s = HOpen" and works: "pod_restores X restored unpack"
  obtains s' where "op_bind (ignore_err (runSSHCommand X cmd_unblock)) (\<lambda>_.
     op_bind (my_sleep X 5) (\<lambda>_.
     op_bind (wrap_err m1 (waitForMySQLToStart X 60)) (\<lambda>_.
     op_bind (wrap_err m2 (call_recover (\<lambda>p. (None, p)))) (\<lambda>_.
     op_bind (wrap_err m3 (waitForDatabaseToComeUpWithRecovery X 360 (\<lambda>p. (None, p)))) (\<lambda>_.
     ignore_err (runSSHCommand X cmd_cleanup_restore)))))) s = (Ok (), s')"
    "same_object s s'" "reachable X (pod s')" "datadir_of s' = datadir_of s"
proof -
  note w = pod_restoresD [OF works]
  obtain s5 where s5: "runSSHCommand X cmd_unblock s = (Ok (), s5)" "same_object s s5"
    "podd s5 = snd (shell X cmd_unblock [] (podd s))" "can_ssh X s5"
    by (rule calm_ssh_Ok [OF assms(1) w(2), of cmd_unblock]) simp_all
  let ?s6 = "s5\<lparr>pod := (second X ^^ 5) (pod s5), ev_trace := ev_trace s5 @ [Slept 5]\<rparr>"
  have ssh6: "can_ssh X ?s6" using s5(4) by (simp add: can_ssh_def calm_def)
  have "pod s5 = fst (snd (shell X cmd_unblock [] (podd s)))" using s5(3) by (metis fst_conv)
  then have chk: "fst (fst (shell X checkCmd [] (podd ?s6))) = None"
    using w(7) [of "podd s" "datadir_of s5"] by simp
  obtain s7 where s7: "runSSHCommand X checkCmd ?s6 = (Ok (), s7)" "same_object ?s6 s7"
    "podd s7 = snd (shell X checkCmd [] (podd ?s6))" "can_ssh X s7"
    by (rule calm_ssh_Ok [OF ssh6 chk])
  have started: "waitForMySQLToStart X 60 ?s6 = (Ok (), s7)"
    using s7(1) by (intro started_at_once) simp_all
  have m7: "maindb s7 = HOpen" "calm s7"
    using assms(2) s5(2) s7(2,4) by (simp_all add: same_object_def can_ssh_def)
  have "\<exists>k < 360. reachable X ((second X ^^ k) (pod s7))" using w(8) [OF chk] s7(3) by (metis fst_conv)
  then obtain k where k: "waits (reachable X) (second X) 360 (pod s7) = Some k"
    using waits_found [of 360 "reachable X" "second X" "pod s7"] by auto
  let ?s8 = "after_waits X k s7"
  have up: "waitForDatabaseToComeUpWithRecovery X 360 (\<lambda>p. (None, p)) s7 = (Ok (), ?s8)"
    using come_up_eq [OF m7(2,1), of 360 None X 0] k by (simp add: waitForDatabaseToComeUpWithRecovery_def)
  have ssh8: "can_ssh X ?s8" using s7(4) by (simp add: can_ssh_def after_waits_def calm_def)
  obtain s9 where s9: "runSSHCommand X cmd_cleanup_restore ?s8 = (Ok (), s9)" "same_object ?s8 s9"
    "podd s9 = snd (shell X cmd_cleanup_restore [] (podd ?s8))" "can_ssh X s9"
    by (rule calm_ssh_Ok [OF ssh8 w(2), of cmd_cleanup_restore]) simp_all
  have data: "datadir_of s9 = datadir_of s"
    using w(3) [of cmd_cleanup_restore "podd ?s8"] w(3) [of checkCmd "podd ?s6"] w(3) [of cmd_unblock "podd s"]
      s9(3) s7(3) s5(3) by (metis after_waits_simps(6) datadir_upd(2,3) insertCI snd_conv)
  have "reachable X (pod ?s8)" using k by (simp add: waits_Some_iff)
  then have "reachable X (pod s9)" using w(9) [of "podd ?s8"] s9(3) by (metis fst_conv)
  moreover have "same_object s s9" using s5(2) s7(2) s9(2) by (simp add: same_object_def after_waits_def)
  ultimately show thesis
    using s5(1) started up s9(1) data
    by (intro that [of s9]) (simp_all add: op_bind_def ignore_err_def attempt_def op_ret_def my_sleep_def op_mod_def
        wrap_err_def call_recover_def)
qed

lemma calm_restore:
  assumes "can_ssh X s" and "maindb s = HOpen" and ref: "ref_Unmarshal X (SData snap) = Inr ref"
    and works: "pod_restores X restored unpack"
  obtains s' where "restore_from X (\<lambda>p. (None, p)) snap s = (Ok (), s')" "same_object s s'"
    "reachable X (pod s')" "datadir_of s' = unpack (remote_run X (ref_Addr ref) (ref_SSHPort ref) backupCmd)"
proof -
  note w = pod_restoresD [OF works]
  obtain s1 where s1: "pipe_backup X ref s = (Ok (), s1)" "same_object s s1" "can_ssh X s1"
    "podd s1 = snd (shell X restoreCmd (remote_run X (ref_Addr ref) (ref_SSHPort ref) backupCmd) (podd s))"
    by (rule calm_pipe [OF assms(1)])
  obtain s2 where s2: "runSSHCommand X cmd_prepare s1 = (Ok (), s2)" "same_object s1 s2"
    "podd s2 = snd (shell X cmd_prepare [] (podd s1))" "can_ssh X s2"
    by (rule calm_ssh_Ok [OF s1(3) w(2), of cmd_prepare]) simp_all
  obtain s3 where s3: "runSSHCommand X cmd_move_back s2 = (Ok (), s3)" "same_object s2 s3"
    "podd s3 = snd (shell X cmd_move_back [] (podd s2))" "can_ssh X s3"
    by (rule calm_ssh_Ok [OF s2(4) w(2), of cmd_move_back]) simp_all
  obtain s4 where s4: "runSSHCommand X cmd_permissions s3 = (Ok (), s4)" "same_object s3 s4"
    "podd s4 = snd (shell X cmd_permissions [] (podd s3))" "can_ssh X s4"
    by (rule calm_ssh_Ok [OF s3(4) w(2), of cmd_permissions]) simp_all
  have "restored (pod s2) = Some (unpack (remote_run X (ref_Addr ref) (ref_SSHPort ref) backupCmd))"
    using w(5) [of "podd s1"] w(4) [of _ "podd s"] s1(4) s2(3) by (metis fst_conv)
  then have "datadir_of s3 = unpack (remote_run X (ref_Addr ref) (ref_SSHPort ref) backupCmd)"
    using w(6) [of "podd s2"] s3(3) by (metis fst_conv snd_conv)
  then have d4: "datadir_of s4 = unpack (remote_run X (ref_Addr ref) (ref_SSHPort ref) backupCmd)"
    using w(3) [of cmd_permissions "podd s3"] s4(3) by (metis insertI1 snd_conv)
  have "maindb s4 = HOpen" using assms(2) s1(2) s2(2) s3(2) s4(2) by (simp add: same_object_def)
  then obtain s5 where s5: "op_bind (ignore_err (runSSHCommand X cmd_unblock)) (\<lambda>_.
     op_bind (my_sleep X 5) (\<lambda>_.
     op_bind (wrap_err ''MySQL did not start listening inside pod'' (waitForMySQLToStart X 60)) (\<lambda>_.
     op_bind (wrap_err ''recovering port forwarding'' (call_recover (\<lambda>p. (None, p)))) (\<lambda>_.
     op_bind (wrap_err ''database did not come up'' (waitForDatabaseToComeUpWithRecovery X 360 (\<lambda>p. (None, p)))) (\<lambda>_.
     ignore_err (runSSHCommand X cmd_cleanup_restore)))))) s4 = (Ok (), s5)"
    "same_object s4 s5" "reachable X (pod s5)" "datadir_of s5 = datadir_of s4"
    by (rule calm_restart [OF s4(4) _ works])
  have "restore_from X (\<lambda>p. (None, p)) snap s = (Ok (), s5)"
    unfolding restore_from_def ref sum.case
    using s1(1) s2(1) s3(1) s4(1) s5(1) by (simp add: op_bind_eq_of_Ok wrap_err_def)
  moreover have "same_object s s5" using s1(2) s2(2) s3(2) s4(2) s5(2) by (simp add: same_object_def)
  ultimately show thesis using that s5(3,4) d4 by simp
qed

lemma calm_ApplySnapshot:
  assumes "can_ssh X s" and "maindb s = HOpen" and "reachable X (pod s)"
    and ref: "ref_Unmarshal X (SData snap) = Inr ref" and works: "pod_restores X restored unpack"
  shows "\<exists>s'. mysql_ApplySnapshot X snap s = (Ok (), s') \<and> same_object s s' \<and> reachable X (pod s')
    \<and> datadir_of s' = unpack (remote_run X (ref_Addr ref) (ref_SSHPort ref) backupCmd)"
proof -
  obtain s1 p d k where s1: "ApplySnapshotWithPortRecovery X snap (\<lambda>p. (None, p)) s =
      unless_success (snapshot_cleanup X) (restore_from X (\<lambda>p. (None, p)) snap) s1" "same_object s s1"
    "can_ssh X s1" "podd s1 = snd (shell X cmd_wipe [] (p, d))" "k < 30"
    "ev_trace s1 = ev_trace s @ [Ran cmd_block, SqlShutdown] @ replicate k (Slept 1) @ [PingFailed, Slept 3, Ran cmd_wipe]"
    by (rule calm_until_wiped [OF assms(1-3) pod_restoresD(1) [OF works]])
  have "maindb s1 = HOpen" using assms(2) s1(2) by (simp add: same_object_def)
  then obtain s2 where "restore_from X (\<lambda>p. (None, p)) snap s1 = (Ok (), s2)" "same_object s1 s2"
    "reachable X (pod s2)" "datadir_of s2 = unpack (remote_run X (ref_Addr ref) (ref_SSHPort ref) backupCmd)"
    by (rule calm_restore [OF s1(3) _ ref works])
  then show ?thesis using s1(1,2) by (simp add: mysql_ApplySnapshot_def unless_success_def same_object_def)
qed

section \<open>A pod for the evaluations\<close>

record demo_pod =
  running :: bool
  blocked :: bool
  restore_dir :: "string list datadir option"

text \<open>The directory of a server that executed the statements \<open>u\<close>, at the indices from 1 on.\<close>

definition demo_dir :: "string list \<Rightarrow> string list datadir" where
  "demo_dir u = \<lparr>dd_databases = [''raft'', ''mgmt''], dd_state = Some [first_row\<lparr>row_idx := of_nat (length u)\<rparr>], dd_entries = Some [],
     dd_peers = Some [], dd_user = u\<rparr>"

definition no_dir :: "string list datadir" where
  "no_dir = \<lparr>dd_databases = [], dd_state = None, dd_entries = None, dd_peers = None, dd_user = []\<rparr>"

definition demo_shell :: "string \<Rightarrow> bytes \<Rightarrow> demo_pod \<times> string list datadir \<Rightarrow>
    (goerr option \<times> string) \<times> demo_pod \<times> string list datadir" where
  "demo_shell c b q = (case q of (p, d) \<Rightarrow>
     if c = cmd_block then ((None, []), p\<lparr>blocked := True\<rparr>, d)
     else if c = cmd_wipe then ((None, []), p, no_dir)
     else if c = restoreCmd then ((None, []), p\<lparr>restore_dir := Some (demo_dir [''x'', b])\<rparr>, d)
     else if c = cmd_move_back then ((None, []), p, case restore_dir p of None \<Rightarrow> d | Some x \<Rightarrow> x)
     else if c = cmd_unblock \<or> c = cmd_cleanup_blocked then ((None, []), p\<lparr>blocked := False\<rparr>, d)
     else if c = checkCmd then ((if running p then None else Some (ENew ''exit status 1''), []), p, d)
     else ((None, []), p, d))"

definition demo_podx :: "(string list, nat, demo_pod) mysql_engine" where
  "demo_podx = \<lparr>cs_marshal = demo_marshal, cs_unmarshal = demo_unmarshal, user_exec = demo_my_exec,
     user_query = (\<lambda>q u. Inr (length u)), reachable = running,
     second = (\<lambda>p. if blocked p then p else p\<lparr>running := True\<rparr>), sql_shutdown = (\<lambda>p. p\<lparr>running := False\<rparr>),
     shell = demo_shell, remote_run = (\<lambda>a p c. a), parse_key = (\<lambda>k. None), same_text = (=),
     ref_Marshal = (\<lambda>r. Inr (ref_Addr r)),
     ref_Unmarshal = (\<lambda>b. if b = [] then Inl (ENew ''unexpected end of JSON input'')
       else Inr \<lparr>ref_Addr = b, ref_SSHPort = 22\<rparr>)\<rparr>"

definition demo_pod0 :: demo_pod where
  "demo_pod0 = \<lparr>running = True, blocked = False, restore_dir = None\<rparr>"

lemma commands_distinct:
  "distinct [cmd_block, cmd_wipe, restoreCmd, cmd_prepare, cmd_move_back, cmd_permissions, cmd_unblock,
     cmd_cleanup_blocked, cmd_cleanup_restore, checkCmd, errorLogCmd]"
  by (simp add: checkCmd_def errorLogCmd_def cmd_cleanup_blocked_def cmd_cleanup_restore_def cmd_block_def
      cmd_wipe_def restoreCmd_def cmd_prepare_def cmd_move_back_def cmd_permissions_def cmd_unblock_def quoted_def)

lemma commands_distinct_rev:
  "distinct (rev [cmd_block, cmd_wipe, restoreCmd, cmd_prepare, cmd_move_back, cmd_permissions, cmd_unblock,
     cmd_cleanup_blocked, cmd_cleanup_restore, checkCmd, errorLogCmd])"
  unfolding distinct_rev by (rule commands_distinct)

lemmas command_neqs = commands_distinct [simplified] commands_distinct_rev [simplified]

lemma demo_pod_stops: "pod_stops demo_podx"
  unfolding pod_stops_def demo_podx_def demo_shell_def using command_neqs by (auto intro!: exI [of _ 0])

lemma demo_second_5: "\<not> blocked p \<Longrightarrow> running ((second demo_podx ^^ 5) p)"
  by (simp add: demo_podx_def eval_nat_numeral)

lemma demo_reachable: "reachable demo_podx = running"
  by (simp add: demo_podx_def)

lemma demo_shell_eqs:
  "shell demo_podx cmd_unblock [] q = ((None, []), (fst q)\<lparr>blocked := False\<rparr>, snd q)"
  "shell demo_podx checkCmd [] q = ((if running (fst q) then None else Some (ENew ''exit status 1''), []), q)"
  using command_neqs by (simp_all add: demo_podx_def demo_shell_def split: prod.splits)

lemma demo_pod_restores: "pod_restores demo_podx restore_dir (\<lambda>b. demo_dir [''x'', b])"
  unfolding pod_restores_def
proof (intro conjI allI impI ballI)
  fix q d
  show "fst (fst (shell demo_podx checkCmd [] ((second demo_podx ^^ 5) (fst (snd (shell demo_podx cmd_unblock [] q))), d))) = None"
    using demo_second_5 [of "(fst q)\<lparr>blocked := False\<rparr>"] by (simp add: demo_shell_eqs)
next
  fix q
  assume "fst (fst (shell demo_podx checkCmd [] q)) = None"
  then show "\<exists>k < 360. reachable demo_podx ((second demo_podx ^^ k) (fst (snd (shell demo_podx checkCmd [] q))))"
    using demo_reachable by (intro exI [of _ 0]) (simp add: demo_shell_eqs split: if_splits)
qed (use demo_pod_stops command_neqs in \<open>auto simp: demo_podx_def demo_shell_def split: prod.splits option.splits\<close>)

lemma mysql_snapshot_bad_reference_witness:
  "\<exists>s'. mysql_ApplySnapshot demo_podx zero_snapshot (demo_mysql 0 [] [] demo_pod0) =
      (Err (EWrap (ENew ''unexpected end of JSON input'') ''unmarshaling snapshot reference''), s')
    \<and> datadir_of s' = no_dir"
proof -
  have wipe: "snd (snd (shell demo_podx cmd_wipe [] q)) = no_dir" for q
    using command_neqs by (simp add: demo_podx_def demo_shell_def split: prod.splits)
  have "\<forall>c \<in> {cmd_cleanup_blocked, cmd_cleanup_restore}. \<forall>p d. snd (snd (shell demo_podx c [] (p, d))) = d"
    using command_neqs by (auto simp: demo_podx_def demo_shell_def)
  then show ?thesis
    using mysql_snapshot_bad_reference [of demo_podx "demo_mysql 0 [] [] demo_pod0" zero_snapshot
        "ENew ''unexpected end of JSON input''"] demo_pod_stops wipe
    by (auto simp: can_ssh_def calm_def demo_podx_def demo_pod0_def zero_snapshot_def)
qed

end
