(* ===== verification/Mysql_Storage.thy ===== *)
theory Mysql_Storage
  imports Mysql_Snapshot Log_Reads
begin

text \<open>
  The \<open>raft.Storage\<close> half of the MySQL backend, \<open>internal/backend/mysql/storage.go\<close>. \<open>LastIndex\<close> and
  \<open>FirstIndex\<close> retry until the server answers, which may be never: they are partial functions, and
  not returning is the value \<open>None\<close>.
\<close>

section \<open>Operations\<close>

definition mysql_InitialState ::
  "('u, 'q, 'p, 'e) mysql_engine_scheme \<Rightarrow> (('u, 'p) mysql, hard_state \<times> conf_state) op" where
  "mysql_InitialState X =
     op_bind (wrap_err ''query: %s'' (raft_stmt X (select_state mysql_dialect (\<lambda>r.
       (\<lparr>HSTerm = hardstate_term r, Vote = hardstate_vote r, Commit = hardstate_commit r\<rparr>,
        case confstate r of None \<Rightarrow> [] | Some b \<Rightarrow> b))))) (\<lambda>(hard, confBytes).
     if 0 < length confBytes then (case cs_unmarshal X confBytes of
         Inl e \<Rightarrow> op_err (ENew ''unmarshalling conf state'')
       | Inr conf \<Rightarrow> op_ret (hard, conf))
     else op_ret (hard, zero_conf_state))"

definition mysql_Entries ::
  "('u, 'q, 'p, 'e) mysql_engine_scheme \<Rightarrow> u64 \<Rightarrow> u64 \<Rightarrow> u64 \<Rightarrow> (('u, 'p) mysql, entry list) op" where
  "mysql_Entries X lo hi maxSize =
     op_bind (wrap_err ''querying entries [%d,%d) limit %d''
       (if maxSize \<noteq> maxUint64
        then raft_stmt X (select_range mysql_dialect lo hi (Some maxSize))
        else raft_stmt X (select_range mysql_dialect lo hi None))) (\<lambda>rows.
     op_bind (read_rows ''reading rows'' rows) (\<lambda>result.
     let (loIdx, hiIdx) = row_bounds result in
     if lo < loIdx then op_err ECompacted
     else if hi > hiIdx + 1 then op_err EUnavailable
     else op_ret result))"

text \<open>A query repeated, with a pause after each failure, until it succeeds.\<close>

partial_function (option) retry_forever :: "('s \<Rightarrow> 's) \<Rightarrow> ('s, 'a) op \<Rightarrow> 's \<Rightarrow> ('a res \<times> 's) option" where
  "retry_forever pause q s = (case q s of
      (Ok x, s') \<Rightarrow> Some (Ok x, s')
    | (Err e, s') \<Rightarrow> retry_forever pause q (pause s')
    | (Panic e, s') \<Rightarrow> Some (Panic e, s'))"

definition two_seconds :: "('u, 'q, 'p, 'e) mysql_engine_scheme \<Rightarrow> ('u, 'p) mysql \<Rightarrow> ('u, 'p) mysql" where
  "two_seconds X s = snd (my_sleep X 2 s)"

definition mysql_LastIndex ::
  "('u, 'q, 'p, 'e) mysql_engine_scheme \<Rightarrow> ('u, 'p) mysql \<Rightarrow> (u64 res \<times> ('u, 'p) mysql) option" where
  "mysql_LastIndex X = retry_forever (two_seconds X) (my_queryInteger (raft_stmt X (select_max mysql_dialect)))"

definition mysql_FirstIndex ::
  "('u, 'q, 'p, 'e) mysql_engine_scheme \<Rightarrow> ('u, 'p) mysql \<Rightarrow> (u64 res \<times> ('u, 'p) mysql) option" where
  "mysql_FirstIndex X = retry_forever (two_seconds X) (my_queryInteger (raft_stmt X (select_min mysql_dialect)))"

definition mysql_Term ::
  "('u, 'q, 'p, 'e) mysql_engine_scheme \<Rightarrow> u64 \<Rightarrow> ('u, 'p) mysql \<Rightarrow> (u64 res \<times> ('u, 'p) mysql) option" where
  "mysql_Term X i s =
     (if i = 0 then Some (Ok 0, s)
      else (case my_queryInteger (raft_stmt X (select_term mysql_dialect i)) s of
          (Ok trm, s') \<Rightarrow> Some (Ok trm, s')
        | (Panic e, s') \<Rightarrow> Some (Panic e, s')
        | (Err err, s') \<Rightarrow>
            if err = ENoRows then (case mysql_FirstIndex X s' of
                None \<Rightarrow> None
              | Some (Panic e, s'') \<Rightarrow> Some (Panic e, s'')
              | Some (r, s'') \<Rightarrow>
                  (let firstIdx = (case r of Ok v \<Rightarrow> v | _ \<Rightarrow> 0) in
                   Some (if i < firstIdx then Err ECompacted else Err EUnavailable, s'')))
            else Some (Err err, s')))"

definition mysql_Snapshot :: "('u, 'q, 'p, 'e) mysql_engine_scheme \<Rightarrow> (('u, 'p) mysql, snapshot) op" where
  "mysql_Snapshot X =
     op_bind (wrap_err ''retrieving raft state''
       (raft_stmt X (select_state mysql_dialect (\<lambda>r. (row_term r, row_idx r))))) (\<lambda>(trm, ix).
     op_bind (op_get (\<lambda>s. \<lparr>ref_Addr = my_addr s, ref_SSHPort = sshPort s\<rparr>)) (\<lambda>snapRef.
     case ref_Marshal X snapRef of
       Inl e \<Rightarrow> op_err (EWrap e ''marshaling snapshot reference struct'')
     | Inr b \<Rightarrow> op_ret \<lparr>SData = b,
         Metadata = \<lparr>SMConfState = zero_conf_state, SMIndex = ix, SMTerm = trm\<rparr>\<rparr>))"

section \<open>Retrying until the server answers\<close>

lemma retry_simps:
  "q s = (Ok x, s') \<Longrightarrow> retry_forever pause q s = Some (Ok x, s')"
  "q s = (Err e, s') \<Longrightarrow> retry_forever pause q s = retry_forever pause q (pause s')"
  by (simp_all add: retry_forever.simps)

text \<open>An invariant under which every attempt fails: the retrying never ends.\<close>

lemma retry_never:
  assumes "I s" and "\<And>u. I u \<Longrightarrow> \<exists>e u'. q u = (Err e, u') \<and> I (pause u')"
  shows "retry_forever pause q s = None"
proof (rule ccontr)
  assume "retry_forever pause q s \<noteq> None"
  then obtain y where y: "retry_forever pause q s = Some y" by blast
  have "pause = pause \<longrightarrow> q = q \<longrightarrow> \<not> I s"
  proof (rule retry_forever.raw_induct [where P = "\<lambda>p r u y. p = pause \<longrightarrow> r = q \<longrightarrow> \<not> I u", OF _ y])
    fix f p r u y
    assume IH: "\<And>p r u y. f p r u = Some y \<Longrightarrow> p = pause \<longrightarrow> r = q \<longrightarrow> \<not> I u"
      and step: "(case r u of (Ok x, s') \<Rightarrow> Some (Ok x, s') | (Err e, s') \<Rightarrow> f p r (p s')
        | (Panic e, s') \<Rightarrow> Some (Panic e, s')) = Some y"
    show "p = pause \<longrightarrow> r = q \<longrightarrow> \<not> I u"
    proof (intro impI notI)
      assume eq: "p = pause" "r = q" and "I u"
      then obtain e u' where u: "q u = (Err e, u')" "I (pause u')" using assms(2) by blast
      with step eq have "f pause q (pause u') = Some y" by simp
      with IH u(2) show False by blast
    qed
  qed
  with assms(1) show False by simp
qed

text \<open>A query of the entries table: the object is connected to a database that has the table.\<close>

definition has_log :: "entry list \<Rightarrow> ('u, 'p) mysql \<Rightarrow> bool" where
  "has_log t s \<longleftrightarrow> my_raftdb s = HOpen \<and> ''raft'' \<in> set (databases s) \<and> entries_tbl s = Some t"

lemma has_log_two_seconds [simp]:
  "has_log t (two_seconds X s) = has_log t s" "pod (two_seconds X s) = (second X ^^ 2) (pod s)"
  "faults (two_seconds X s) = faults s" "my_raftdb (two_seconds X s) = my_raftdb s"
  by (simp_all add: two_seconds_def my_sleep_def op_mod_def has_log_def)

lemma retry_returns:
  fixes q :: "(('u, 'p) mysql, 'a) op"
  assumes q: "\<And>u. entries_tbl u = Some t \<Longrightarrow> q u = (Ok x, u)"
  shows "has_log t s \<Longrightarrow> (\<forall>k \<ge> n. reachable X ((second X ^^ (2 * k)) (pod s))) \<Longrightarrow> m = n + length (faults s) \<Longrightarrow>
    \<exists>s'. retry_forever (two_seconds X) (my_queryInteger (raft_stmt X q)) s = Some (Ok x, s')"
proof (induction m arbitrary: s n rule: less_induct)
  case (less m)
  let ?q = "my_queryInteger (raft_stmt X q)"
  have tbl: "entries_tbl s = Some t" using less.prems(1) by (simp add: has_log_def)
  have again: "\<exists>s'. retry_forever (two_seconds X) ?q s = Some (Ok x, s')"
    if fail: "?q s = (Err e, u)" and log: "has_log t u" and p: "pod u = pod s"
      and dec: "n' + length (faults u) < m" "n \<le> Suc n'" for e u n'
  proof -
    have "reachable X ((second X ^^ (2 * k)) (pod (two_seconds X u)))" if "n' \<le> k" for k
    proof -
      have "(second X ^^ (2 * k)) (pod (two_seconds X u)) = (second X ^^ (2 * Suc k)) (pod s)"
        using p by (simp add: funpow_add [symmetric, THEN fun_cong, unfolded comp_def])
      moreover have "reachable X ((second X ^^ (2 * Suc k)) (pod s))"
        using dec(2) that by (intro less.prems(2) [rule_format]) simp
      ultimately show ?thesis by (simp only:)
    qed
    then have "\<exists>s'. retry_forever (two_seconds X) ?q (two_seconds X u) = Some (Ok x, s')"
      using less.IH [OF dec(1), of "two_seconds X u" n'] log by simp
    then show ?thesis using retry_simps(2) [of ?q, OF fail, of "two_seconds X"] by simp
  qed
  have stmt: "?q s = (case (if reachable X (pod s) then sys_call (in_database ''raft'' q) s else (Err refused, s)) of
      (Ok y, u) \<Rightarrow> (Ok y, u) | (Err e, u) \<Rightarrow> (Err (EWrap e ''query: %s %+v''), u) | (Panic e, u) \<Rightarrow> (Panic e, u))"
    using less.prems(1) by (simp add: my_queryInteger_def raft_stmt_def my_call_def has_log_def wrap_err_def)
  have run: "in_database ''raft'' q (s\<lparr>faults := fs\<rparr>) = (Ok x, s\<lparr>faults := fs\<rparr>)" for fs
    using less.prems(1) q [of "s\<lparr>faults := fs\<rparr>"] by (simp add: in_database_def has_log_def)
  have run0: "in_database ''raft'' q s = (Ok x, s)"
    using less.prems(1) q [of s] by (simp add: in_database_def has_log_def)
  show ?case
  proof (cases "reachable X (pod s)")
    case False
    then have "?q s = (Err (EWrap refused ''query: %s %+v''), s)" using stmt by simp
    moreover have "0 < n" using less.prems(2) False by (metis funpow_0 gr0I le_refl mult_0_right)
    ultimately show ?thesis using again [of _ s "n - 1"] less.prems by simp
  next
    case True
    show ?thesis
    proof (cases "\<exists>e fs. faults s = FailBefore e # fs \<or> faults s = FailAfter e # fs")
      case False
      then obtain u where u: "?q s = (Ok x, u)"
        using stmt True run run0 by (auto simp: sys_call_def split: list.splits fault.splits)
      show ?thesis using retry_simps(1) [of ?q, OF u, of "two_seconds X"] by simp
    next
      case F: True
      then obtain e fs where f: "faults s = FailBefore e # fs \<or> faults s = FailAfter e # fs" by blast
      then have "?q s = (Err (EWrap e ''query: %s %+v''), s\<lparr>faults := fs\<rparr>)"
        using stmt True run [of fs] by (auto simp: sys_call_def)
      moreover have "n + length fs < m" using f less.prems(3) by auto
      ultimately show ?thesis using again [of _ "s\<lparr>faults := fs\<rparr>" n] less.prems(1) by (simp add: has_log_def)
    qed
  qed
qed

lemma select_bounds:
  assumes "pk_ok Index t" and "entries_tbl u = Some t"
  shows "select_max mysql_dialect u = (Ok (if t = [] then 0 else Index (last t)), u)"
    and "select_min mysql_dialect u = (Ok (if t = [] then 1 else Index (hd t)), u)"
  using assms by (simp_all add: select_max_eq select_min_eq)

text \<open>
  C20. \<open>LastIndex\<close> and \<open>FirstIndex\<close> wait for the server. When it answers from some moment on, they return the
  bounds of the log, whatever statements failed before; through a closed handle, as after \<open>Stop\<close>, or
  when the server never comes back, they never return.
\<close>

theorem mysql_index_waits:
  fixes s :: "('u, 'p) mysql"
  shows "(has_log t s \<and> pk_ok Index t \<and> (\<forall>k \<ge> n. reachable X ((second X ^^ (2 * k)) (pod s))) \<longrightarrow>
      (\<exists>s'. mysql_LastIndex X s = Some (Ok (if t = [] then 0 else Index (last t)), s'))
      \<and> (\<exists>s'. mysql_FirstIndex X s = Some (Ok (if t = [] then 1 else Index (hd t)), s')))
    \<and> (my_raftdb s = HClosed \<or> my_raftdb s = HOpen \<and> (\<forall>k. \<not> reachable X ((second X ^^ k) (pod s))) \<longrightarrow>
      mysql_LastIndex X s = None \<and> mysql_FirstIndex X s = None)"
proof (intro conjI impI)
  assume a: "has_log t s \<and> pk_ok Index t \<and> (\<forall>k \<ge> n. reachable X ((second X ^^ (2 * k)) (pod s)))"
  show "\<exists>s'. mysql_LastIndex X s = Some (Ok (if t = [] then 0 else Index (last t)), s')"
    unfolding mysql_LastIndex_def
    by (rule retry_returns [OF select_bounds(1)]) (use a in auto)
  show "\<exists>s'. mysql_FirstIndex X s = Some (Ok (if t = [] then 1 else Index (hd t)), s')"
    unfolding mysql_FirstIndex_def
    by (rule retry_returns [OF select_bounds(2)]) (use a in auto)
next
  define I where "I = (\<lambda>u :: ('u, 'p) mysql. my_raftdb u = HClosed
    \<or> my_raftdb u = HOpen \<and> (\<forall>k. \<not> reachable X ((second X ^^ k) (pod u))))"
  assume "my_raftdb s = HClosed \<or> my_raftdb s = HOpen \<and> (\<forall>k. \<not> reachable X ((second X ^^ k) (pod s)))"
  then have I: "I s" by (simp add: I_def)
  have fails: "\<exists>e u'. my_queryInteger (raft_stmt X q) u = (Err e, u') \<and> I (two_seconds X u')"
    if "I u" for u and q :: "(('u, 'p) mysql, u64) op"
  proof -
    have "\<exists>e. my_queryInteger (raft_stmt X q) u = (Err e, u)"
      using that [unfolded I_def]
      by (auto simp: my_queryInteger_def raft_stmt_def my_call_def wrap_err_def dest: spec [of _ 0])
    moreover have "(second X ^^ k) (pod (two_seconds X u)) = (second X ^^ (k + 2)) (pod u)" for k
      by (simp only: has_log_two_seconds funpow_add comp_apply)
    then have "I (two_seconds X u)"
      using that unfolding I_def by (simp only: has_log_two_seconds(4)) blast
    ultimately show ?thesis by blast
  qed
  show "mysql_LastIndex X s = None" "mysql_FirstIndex X s = None"
    unfolding mysql_LastIndex_def mysql_FirstIndex_def by (rule retry_never [where I = I], rule I, erule fails)+
qed

lemma mysql_index_waits_witness:
  "(\<exists>s'. mysql_LastIndex demo_my ((demo_mysql 0 [demo_entry 1 4 ''a''] [] True)
      \<lparr>faults := [FailBefore (EDriver ''bad connection'')]\<rparr>) = Some (Ok 4, s'))
   \<and> mysql_LastIndex demo_my ((demo_mysql 0 [] [] True)\<lparr>my_raftdb := HClosed\<rparr>) = None"
proof -
  have still: "(second demo_my ^^ j) p = p" for j p by (induction j) (simp_all add: demo_my_def)
  have up: "reachable demo_my p = p" for p by (simp add: demo_my_def)
  show ?thesis
    using mysql_index_waits [of "[demo_entry 1 4 ''a'']" "(demo_mysql 0 [demo_entry 1 4 ''a''] [] True)
        \<lparr>faults := [FailBefore (EDriver ''bad connection'')]\<rparr>" 0 demo_my]
      mysql_index_waits [of "[]" "(demo_mysql 0 [] [] True)\<lparr>my_raftdb := HClosed\<rparr>" 0 demo_my]
    by (simp add: has_log_def still up demo_entry_def)
qed

section \<open>Snapshots by reference\<close>

lemma my_ready_Snapshot:
  assumes "my_ready X s" and "state_tbl s = Some [r]"
    and "ref_Marshal X \<lparr>ref_Addr = my_addr s, ref_SSHPort = sshPort s\<rparr> = Inr b"
  shows "mysql_Snapshot X s = (Ok \<lparr>SData = b,
     Metadata = \<lparr>SMConfState = zero_conf_state, SMIndex = row_idx r, SMTerm = row_term r\<rparr>\<rparr>, s)"
  using my_ready_select_state [OF assms(1,2), of "\<lambda>r. (row_term r, row_idx r)"] assms(3)
  by (simp add: mysql_Snapshot_def op_bind_def wrap_err_def op_get_def op_ret_def)



text \<open>
  For a node a snapshot carries the data of \<open>src\<close> when the pod it refers to streams the data directory of \<open>src\<close>, a state at or
  behind the index of the metadata. The receiver needs a usable key besides being up.
\<close>

definition my_restorable :: "('u, 'q, 'p, 'e) mysql_engine_scheme \<Rightarrow> ('u, 'p) mysql \<Rightarrow> bool" where
  "my_restorable X s \<longleftrightarrow> my_ready X s \<and> parse_key X (privateKey s) = None"

lemma my_restorable_ready: "my_restorable X s \<Longrightarrow> my_ready X s"
  by (simp add: my_restorable_def)

definition mysql_carries ::
  "('u, 'q, 'p, 'e) mysql_engine_scheme \<Rightarrow> ('p \<Rightarrow> 'u datadir option) \<Rightarrow> (bytes \<Rightarrow> 'u datadir) \<Rightarrow> ('u, 'p) mysql \<Rightarrow> snapshot \<Rightarrow> bool" where
  "mysql_carries X restored unpack src snap \<longleftrightarrow> pod_restores X restored unpack \<and> SMIndex (Metadata snap) \<le> sq_applied src
     \<and> (case ref_Unmarshal X (SData snap) of Inl e \<Rightarrow> False
        | Inr ref \<Rightarrow> unpack (remote_run X (ref_Addr ref) (ref_SSHPort ref) backupCmd) = datadir_of src)"

lemma keeps_key_stmts [keeps_intros]:
  fixes c :: bytes
  shows "fault_free (\<lambda>s :: ('u, 'p) mysql. privateKey s = c)"
    "keeps (\<lambda>s. privateKey s = c) (my_insert e)" "keeps (\<lambda>s. privateKey s = c) (delete_from mysql_dialect i)"
    "keeps (\<lambda>s. privateKey s = c) (my_delete_old n k)" "keeps (\<lambda>s. privateKey s = c) (update_state mysql_dialect vs f)"
    "keeps (\<lambda>s. privateKey s = c) (my_save_conf d)" "keeps (\<lambda>s. privateKey s = c) (my_peer_at X a p)"
    "keeps (\<lambda>s. privateKey s = c) (replace_peer mysql_dialect pi)" "keeps (\<lambda>s. privateKey s = c) (delete_peer mysql_dialect m)"
  by (auto intro!: keepsI fault_freeI simp: my_insert_def insert_entry_def delete_from_def my_delete_old_def delete_old_def
      delete_entries_def update_state_def my_save_conf_def my_peer_at_def replace_peer_def delete_peer_def query_defs
      split: option.splits if_splits)

lemma keeps_mgmt_stmt [keeps_intros]: "fault_free P \<Longrightarrow> keeps P m \<Longrightarrow> keeps P (mgmt_stmt X m)"
  unfolding mgmt_stmt_def by (intro keeps_intros)

lemma leaves_keeping_key:
  assumes "leaves (my_ready X) v m" and "\<And>c. keeps (\<lambda>s. privateKey s = c) m"
  shows "leaves (my_restorable X) v m"
proof -
  have "my_restorable X = (\<lambda>s. my_ready X s \<and> parse_key X (privateKey s) = None)" by (simp add: fun_eq_iff my_restorable_def)
  then show ?thesis using leaves_also [OF assms, of "\<lambda>k. parse_key X k = None"] by simp
qed

lemma keeps_key_ops:
  "keeps (\<lambda>s. privateKey s = c) (mysql_AppendEntries X es)" "keeps (\<lambda>s. privateKey s = c) (mysql_SaveHardState X hs)"
  "keeps (\<lambda>s. privateKey s = c) (mysql_SaveConfState X cs)" "keeps (\<lambda>s. privateKey s = c) (mysql_UpsertPeer X p)"
  "keeps (\<lambda>s. privateKey s = c) (mysql_RemovePeer X n)"
  unfolding mysql_AppendEntries_def mysql_appendEntry_def mysql_tryInsert_def Let_def mysql_SaveHardState_def
    mysql_SaveConfState_def mysql_UpsertPeer_def mysql_RemovePeer_def
  by (intro keeps_intros)+

lemmas leaves_restorable =
  leaves_keeping_key [OF leaves_mysql_ops(1) keeps_key_ops(1)] leaves_keeping_key [OF leaves_mysql_ops(2) keeps_key_ops(2)]
  leaves_keeping_key [OF leaves_mysql_ops(3) keeps_key_ops(3)] leaves_keeping_key [OF leaves_mysql_ops(4) keeps_key_ops(4)]
  leaves_keeping_key [OF leaves_mysql_ops(5) keeps_key_ops(5)]

text \<open>The MySQL backend keeps the contract of a backend whose snapshots can be restored.\<close>

lemma mysql_restore:
  assumes "my_ready X src" and "mysql_carries X restored unpack src snap" and "my_restorable X b"
  shows "\<exists>b'. mysql_ApplySnapshot X snap b = (Ok (), b') \<and> my_restorable X b' \<and> datadir_of b' = datadir_of src"
proof -
  obtain ref where ref: "ref_Unmarshal X (SData snap) = Inr ref" "pod_restores X restored unpack"
    "unpack (remote_run X (ref_Addr ref) (ref_SSHPort ref) backupCmd) = datadir_of src"
    using assms(2) by (auto simp: mysql_carries_def split: sum.splits)
  have "can_ssh X b" "maindb b = HOpen" "reachable X (pod b)"
    using assms(3) by (simp_all add: my_restorable_def my_ready_def can_ssh_def)
  from calm_ApplySnapshot [OF this ref(1,2)] obtain b' where b': "mysql_ApplySnapshot X snap b = (Ok (), b')" "same_object b b'"
    "reachable X (pod b')" "datadir_of b' = datadir_of src"
    unfolding ref(3) by blast
  then have "databases b' = databases src" "state_tbl b' = state_tbl src" "entries_tbl b' = entries_tbl src"
    "peers_tbl b' = peers_tbl src" by (simp_all add: datadir_of_def)
  then have "my_restorable X b'"
    using assms(1,3) b'(2,3) by (simp add: my_restorable_def my_ready_def same_object_def calm_def tables_ok_def)
  with b' show ?thesis by blast
qed

interpretation mysql_snap: snapshot_backend "mysql_backend X" "my_restorable X" user_db sq_applied "user_exec X" int32
  is_mysql_error "mysql_carries X restored unpack"
  for X :: "('u, 'q, 'p, 'e) mysql_engine_scheme" and restored unpack
proof unfold_locales
  fix b :: "('u, 'p) mysql" and trm ix q u
  assume b: "my_restorable X b" and sm: "int32 trm" "int32 ix"
  then have rd: "my_ready X b" by (simp add: my_restorable_def)
  have key: "my_restorable X b'" if "be_ExecSQL (mysql_backend X) trm ix q b = (r, b')" "my_ready X b'" for r b'
  proof -
    obtain row where row: "state_tbl b = Some [row]" using rd by (rule my_ready_parts)
    have "privateKey b' = privateKey b"
      using that(1) my_ready_ExecSQL [OF rd row sm, of q] by (auto simp: mysql_backend_def split: prod.splits option.splits)
    then show ?thesis using that(2) b by (simp add: my_restorable_def)
  qed
  { assume "user_exec X q (user_db b) = (None, u)"
    from mysql_sql.exec_done [OF rd sm this] key
    show "\<exists>b'. be_ExecSQL (mysql_backend X) trm ix q b = (Ok (), b') \<and> my_restorable X b' \<and> user_db b' = u \<and> sq_applied b' = ix"
      by blast }
  { fix e
    assume "user_exec X q (user_db b) = (Some e, u)" and "is_mysql_error e"
    from mysql_sql.exec_refused [OF rd sm this] key
    show "\<exists>b'. be_ExecSQL (mysql_backend X) trm ix q b = (Err (EDBError e), b') \<and> my_restorable X b' \<and> user_db b' = u
        \<and> sq_applied b' = sq_applied b" by blast }
next
  fix src b :: "('u, 'p) mysql" and snap
  assume src: "my_restorable X src" and c: "mysql_carries X restored unpack src snap"
  then show "SMIndex (Metadata snap) \<le> sq_applied src" by (simp add: mysql_carries_def)
  assume "my_restorable X b"
  from mysql_restore [OF _ c this] src
  show "\<exists>b'. be_ApplySnapshot (mysql_backend X) snap b = (Ok (), b') \<and> my_restorable X b' \<and> user_db b' = user_db src
      \<and> sq_applied b' = sq_applied src"
    by (auto simp: mysql_backend_def my_restorable_def datadir_of_def sq_applied_def)
next
  fix b :: "('u, 'p) mysql"
  assume b: "my_restorable X b"
  obtain r where r: "state_tbl b = Some [r]" using b unfolding my_restorable_def by (auto elim: my_ready_parts)
  show "be_GetAppliedIndex (mysql_backend X) b = (Ok (sq_applied b), b)"
    using my_ready_GetAppliedIndex [of X b r] b r by (simp add: mysql_backend_def sq_applied_def my_restorable_def)
next
  fix q
  show "leaves (my_restorable X) (\<lambda>b. (user_db b, sq_applied b)) (be_QuerySQL (mysql_backend X) q)"
    by (rule leavesI) (simp add: mysql_backend_def mysql_QuerySQL_def my_call_def sys_call_calm my_restorable_def my_ready_def
        split: sum.split)
next
  fix h
  show "leaves (my_restorable X) (\<lambda>b. (user_db b, sq_applied b)) (be_RemoveSavedSnapshot (mysql_backend X) h)"
    by (simp add: mysql_backend_def mysql_RemoveSavedSnapshot_def leaves_ret)
qed (simp_all add: mysql_backend_def leaves_restorable mysql_SaveSnapshot_def op_ret_def)

section \<open>Reading the log\<close>

lemma my_ready_Entries:
  assumes "my_ready X s" and "entries_tbl s = Some t"
  shows "mysql_Entries X lo hi mx s =
    (let rs = filter (\<lambda>e. lo \<le> Index e \<and> Index e < hi) t;
         rs = (if mx = maxUint64 then rs else take (unat mx) rs);
         (loIdx, hiIdx) = row_bounds rs in
     (if lo < loIdx then Err ECompacted else if hiIdx + 1 < hi then Err EUnavailable else Ok rs, s))"
  using assms
  by (auto simp: mysql_Entries_def op_defs my_ready_stmt my_ready_read_rows select_range_def query_defs Let_def
      split: prod.splits)

lemma my_ready_Term:
  assumes "my_ready X s" and "entries_tbl s = Some t" and "i \<noteq> 0"
  shows "mysql_Term X i s = Some (case pk_find Index i t of
     None \<Rightarrow> Err (EWrap ENoRows ''query: %s %+v'') | Some e \<Rightarrow> Ok (Term e), s)"
  using assms
  by (auto simp: mysql_Term_def my_queryInteger_def wrap_err_def my_ready_stmt select_term_def query_defs
      split: option.splits)

lemma my_ready_bounds:
  assumes "my_ready X s" and "entries_tbl s = Some t"
  shows "mysql_FirstIndex X s = Some (Ok (if t = [] then 1 else Index (hd t)), s)"
    and "mysql_LastIndex X s = Some (Ok (if t = [] then 0 else Index (last t)), s)"
proof -
  have "pk_ok Index t" using assms by (simp add: my_ready_def tables_ok_def)
  then show "mysql_FirstIndex X s = Some (Ok (if t = [] then 1 else Index (hd t)), s)"
    and "mysql_LastIndex X s = Some (Ok (if t = [] then 0 else Index (last t)), s)"
    unfolding mysql_FirstIndex_def mysql_LastIndex_def using assms
    by (intro retry_simps(1); simp add: my_queryInteger_def wrap_err_def my_ready_stmt select_bounds)+
qed

end
