(* ===== verification/Channel_Pool.thy ===== *)
theory Channel_Pool
  imports Deeb_Prelude
begin

text \<open>
  The pool of channels for pending writes, \<open>internal/lib/channelpool.go\<close>, and the hand-over it is
  used for: a client of \<open>WriteQuery\<close> waits on the channel of its write while the main loop of the
  node releases it when the write has been applied. The pool is a map with a counter; the hand-over
  is a step relation, because the two sides run concurrently and the channels are unbuffered.
\<close>

section \<open>The pool\<close>

text \<open>A channel is its identity; \<open>made\<close> counts the channels \<open>make\<close> has allocated.\<close>

type_synonym chan = nat

record channel_pool =
  pending :: "u64 \<rightharpoonup> chan"
  nextID :: u64
  made :: nat

definition NewChannelPool :: channel_pool where
  "NewChannelPool = \<lparr>pending = Map.empty, nextID = 0, made = 0\<rparr>"

definition GetNewChannel :: "channel_pool \<Rightarrow> (u64 \<times> chan) \<times> channel_pool" where
  "GetNewChannel cp = (let ch = made cp; i = nextID cp + 1 in
     ((i, ch), cp\<lparr>made := Suc ch, nextID := i, pending := (pending cp)(i \<mapsto> ch)\<rparr>))"

definition pool_Remove :: "u64 \<Rightarrow> channel_pool \<Rightarrow> chan option \<times> channel_pool" where
  "pool_Remove i cp = (case pending cp i of
      None \<Rightarrow> (None, cp)
    | Some ch \<Rightarrow> (Some ch, cp\<lparr>pending := (pending cp)(i := None)\<rparr>))"

text \<open>Identifiers handed out are not above the counter, and no channel is shared.\<close>

definition pool_ok :: "channel_pool \<Rightarrow> bool" where
  "pool_ok cp \<longleftrightarrow> (\<forall>i ch. pending cp i = Some ch \<longrightarrow> 0 < i \<and> i \<le> nextID cp \<and> ch < made cp)
     \<and> (\<forall>i j ch. pending cp i = Some ch \<and> pending cp j = Some ch \<longrightarrow> i = j)"

definition maxID :: u64 where
  "maxID = - 1"

lemma suc_id: "(n :: u64) \<noteq> maxID \<Longrightarrow> n < n + 1 \<and> 0 < n + 1"
proof -
  assume "n \<noteq> maxID"
  then have "unat n \<noteq> unat maxID" using unsigned_word_eqI by blast
  moreover have "unat maxID = 2 ^ 64 - 1"
    by (simp add: maxID_def unsigned_minus_1_eq_mask mask_eq_exp_minus_1)
  moreover have "unat n < 2 ^ 64" using unsigned_less [of n, where ?'a = nat] by simp
  ultimately have "unat (n + 1) = Suc (unat n)" by (simp add: unat_word_ariths)
  then show ?thesis by (simp add: word_less_nat_alt)
qed

lemma pool_ok_New: "pool_ok NewChannelPool"
  by (simp add: pool_ok_def NewChannelPool_def)

lemma pool_fresh:
  assumes "pool_ok cp" and "nextID cp \<noteq> maxID"
  shows "pending cp (nextID cp + 1) = None"
proof (rule ccontr)
  assume "pending cp (nextID cp + 1) \<noteq> None"
  then have "nextID cp + 1 \<le> nextID cp" using assms(1) by (auto simp: pool_ok_def)
  with suc_id [OF assms(2)] show False using leD by blast
qed

lemma pool_ok_Get:
  assumes "pool_ok cp" and "nextID cp \<noteq> maxID"
  shows "pool_ok (snd (GetNewChannel cp))"
proof -
  have le: "i \<le> nextID cp \<Longrightarrow> i \<le> nextID cp + 1" for i
    using suc_id [OF assms(2)] by (meson order.strict_implies_order order.trans)
  have ch: "pending cp i \<noteq> Some (made cp)" for i
    using assms(1) by (fastforce simp: pool_ok_def)
  with assms le suc_id [OF assms(2)] show ?thesis
    by (auto simp: pool_ok_def GetNewChannel_def Let_def intro: less_SucI split: if_splits)
qed

lemma pool_ok_Remove: "pool_ok cp \<Longrightarrow> pool_ok (snd (pool_Remove i cp))"
  by (auto simp: pool_ok_def pool_Remove_def split: option.splits)

section \<open>Contract: tickets\<close>

text \<open>
  What \<open>WriteQuery\<close> relies on: drawing yields a ticket that was not outstanding with a fresh value;
  claiming a ticket yields its value once and leaves the other tickets alone.
\<close>

locale tickets =
  fixes ok :: "'p \<Rightarrow> bool" and room :: "'p \<Rightarrow> bool"
    and view :: "'p \<Rightarrow> 'i \<rightharpoonup> 'v"
    and draw :: "'p \<Rightarrow> ('i \<times> 'v) \<times> 'p"
    and claim :: "'i \<Rightarrow> 'p \<Rightarrow> 'v option \<times> 'p"
  assumes draw_ok: "ok p \<Longrightarrow> room p \<Longrightarrow> ok (snd (draw p))"
    and draw_view: "ok p \<Longrightarrow> room p \<Longrightarrow> draw p = ((i, v), p') \<Longrightarrow>
      view p i = None \<and> v \<notin> ran (view p) \<and> view p' = (view p)(i \<mapsto> v)"
    and claim_ok: "ok p \<Longrightarrow> ok (snd (claim i p))"
    and claim_view: "claim i p = (r, p') \<Longrightarrow> r = view p i \<and> view p' = (view p)(i := None)"
begin

text \<open>A ticket is claimed at most once: a second claim finds nothing.\<close>

lemma claim_once: "fst (claim i (snd (claim i p))) = None"
  using claim_view [of i p] claim_view [of i "snd (claim i p)"]
  by (metis fun_upd_same prod.collapse)

lemma claim_own:
  assumes "ok p" and "room p" and "draw p = ((i, v), p')"
  shows "fst (claim i p') = Some v"
  using draw_view [OF assms] claim_view [of i p'] by (metis fun_upd_same prod.collapse)

lemma claim_other: "i \<noteq> j \<Longrightarrow> fst (claim j (snd (claim i p))) = fst (claim j p)"
  using claim_view [of i p] claim_view [of j p] claim_view [of j "snd (claim i p)"]
  by (metis fun_upd_other prod.collapse)

lemma draw_keeps_others:
  assumes "ok p" and "room p" and "draw p = ((i, v), p')" and "i \<noteq> j"
  shows "fst (claim j p') = fst (claim j p)"
  using draw_view [OF assms(1-3)] claim_view [of j p'] claim_view [of j p] assms(4)
  by (metis fun_upd_other prod.collapse)

end

interpretation pool: tickets pool_ok "\<lambda>cp. nextID cp \<noteq> maxID" pending GetNewChannel pool_Remove
proof
  fix p :: channel_pool and i v p'
  assume p: "pool_ok p" "nextID p \<noteq> maxID" "GetNewChannel p = ((i, v), p')"
  have "made p \<notin> ran (pending p)"
    using p(1) by (fastforce simp: pool_ok_def ran_def)
  with p pool_fresh [OF p(1,2)]
  show "pending p i = None \<and> v \<notin> ran (pending p) \<and> pending p' = (pending p)(i \<mapsto> v)"
    by (auto simp: GetNewChannel_def Let_def)
qed (simp_all add: pool_ok_Get pool_ok_Remove, auto simp: pool_Remove_def split: option.splits)

text \<open>
  C28. The channel pool hands out distinct tickets and each is redeemed once: in a well-formed pool
  that has not exhausted its 64-bit counter, \<open>GetNewChannel\<close> returns an identifier not in use and a
  channel no other write waits on, \<open>Remove\<close> of it returns exactly that channel, a second \<open>Remove\<close>
  returns nil, other pending writes keep their channels, and the pool stays well formed.
\<close>

theorem channel_pool_tickets:
  assumes "pool_ok cp" and "nextID cp \<noteq> maxID" and "GetNewChannel cp = ((i, ch), cp')"
  shows "pool_ok cp' \<and> pending cp i = None \<and> ch \<notin> ran (pending cp)
    \<and> fst (pool_Remove i cp') = Some ch \<and> fst (pool_Remove i (snd (pool_Remove i cp'))) = None
    \<and> (\<forall>j. j \<noteq> i \<longrightarrow> fst (pool_Remove j cp') = fst (pool_Remove j cp)
         \<and> fst (pool_Remove j (snd (pool_Remove i cp'))) = fst (pool_Remove j cp))
    \<and> pool_ok (snd (pool_Remove i cp'))"
  using pool.draw_view [OF assms] pool.claim_own [OF assms] pool.claim_once [of i cp']
    pool.claim_other [of i _ cp'] pool.draw_keeps_others [OF assms] pool.draw_ok [OF assms(1,2)]
    pool.claim_ok [of cp' i] assms(3)
  by auto

lemma channel_pool_tickets_witness:
  "\<exists>cp'. GetNewChannel NewChannelPool = ((1, 0), cp') \<and> fst (pool_Remove 1 cp') = Some 0"
proof -
  have "GetNewChannel NewChannelPool = ((1, 0), snd (GetNewChannel NewChannelPool))"
    "nextID NewChannelPool \<noteq> maxID"
    by (simp_all add: NewChannelPool_def maxID_def GetNewChannel_def Let_def)
  from this(1) channel_pool_tickets [OF pool_ok_New this(2,1)] show ?thesis by blast
qed

end
