(* ===== verification/Write_Handover.thy ===== *)
theory Write_Handover
  imports Channel_Pool
begin

text \<open>
  The hand-over between \<open>Node.WriteQuery\<close> and the end of \<open>Node.processCommittedData\<close>
  (\<open>internal/node/node.go\<close>). Each call of \<open>WriteQuery\<close> is a goroutine; the main loop is another
  one. They share the channel pool and meet on an unbuffered channel, where a send and a receive
  happen together or not at all. Every order in which the goroutines can run is a run of the step
  relation.
\<close>

section \<open>States and steps\<close>

text \<open>
  Where a call of \<open>WriteQuery\<close> is: it has drawn its channel and proposes, it is in the \<open>select\<close>, the
  \<open>select\<close> took \<open>ctx.Done()\<close>, or it has returned.
\<close>

datatype writer =
    Proposing u64 chan
  | Waiting u64 chan
  | Cancelled u64
  | Returned "goerr option"

text \<open>The main loop: free, or in \<open>ch <- err\<close> for the write with the given ID.\<close>

datatype main_loop = Free | Sending u64 chan "goerr option"

record handover =
  hpool :: channel_pool
  writers :: "nat \<rightharpoonup> writer"
  main_loop :: main_loop

definition handover_init :: handover where
  "handover_init = \<lparr>hpool = NewChannelPool, writers = Map.empty, main_loop = Free\<rparr>"

text \<open>
  The end of \<open>processCommittedData\<close> for a query of this node: the channel of the query, when it is
  still pending, is taken out of the pool and the send begins.
\<close>

definition release :: "u64 \<Rightarrow> goerr option \<Rightarrow> handover \<Rightarrow> handover" where
  "release i err s = (case pool_Remove i (hpool s) of
      (None, p) \<Rightarrow> s\<lparr>hpool := p\<rparr>
    | (Some ch, p) \<Rightarrow> s\<lparr>hpool := p, main_loop := Sending i ch err\<rparr>)"

text \<open>\<open>n.pendingWrites.Remove(chid)\<close> on the error paths of \<open>WriteQuery\<close>, and the return.\<close>

definition give_up :: "nat \<Rightarrow> u64 \<Rightarrow> goerr \<Rightarrow> handover \<Rightarrow> handover" where
  "give_up w i err s = s\<lparr>hpool := snd (pool_Remove i (hpool s)),
     writers := (writers s)(w \<mapsto> Returned (Some err))\<rparr>"

text \<open>
  The steps. A call begins when a channel is drawn (the 64-bit counter is not exhausted);
  proposing fails, or succeeds and leads to the \<open>select\<close>; the \<open>select\<close> receives or is cancelled.
  The main loop, when free, finishes any committed query, and when sending, meets its receiver.
\<close>

inductive hstep :: "handover \<Rightarrow> handover \<Rightarrow> bool" where
  begin_write: "writers s w = None \<Longrightarrow> nextID (hpool s) \<noteq> maxID \<Longrightarrow>
     GetNewChannel (hpool s) = ((i, ch), p) \<Longrightarrow>
     hstep s (s\<lparr>hpool := p, writers := (writers s)(w \<mapsto> Proposing i ch)\<rparr>)"
| propose_ok: "writers s w = Some (Proposing i ch) \<Longrightarrow>
     hstep s (s\<lparr>writers := (writers s)(w \<mapsto> Waiting i ch)\<rparr>)"
| propose_err: "writers s w = Some (Proposing i ch) \<Longrightarrow> hstep s (give_up w i (EWrap err m) s)"
| cancel: "writers s w = Some (Waiting i ch) \<Longrightarrow>
     hstep s (s\<lparr>writers := (writers s)(w \<mapsto> Cancelled i)\<rparr>)"
| cancelled: "writers s w = Some (Cancelled i) \<Longrightarrow> hstep s (give_up w i ECtx s)"
| commit: "main_loop s = Free \<Longrightarrow> hstep s (release i err s)"
| rendezvous: "main_loop s = Sending i ch err \<Longrightarrow> writers s w = Some (Waiting j ch) \<Longrightarrow>
     hstep s (s\<lparr>main_loop := Free, writers := (writers s)(w \<mapsto> Returned err)\<rparr>)"

inductive hreach :: "handover \<Rightarrow> bool" where
  hreach_init: "hreach handover_init"
| hreach_step: "hreach s \<Longrightarrow> hstep s t \<Longrightarrow> hreach t"

inductive_cases hstepE: "hstep s t"

section \<open>The invariant\<close>

text \<open>The ID and channel a writer still holds an interest in.\<close>

fun holds_chan :: "writer option \<Rightarrow> u64 \<Rightarrow> chan \<Rightarrow> bool" where
  "holds_chan (Some (Proposing i ch)) j c = (j = i \<and> c = ch)"
| "holds_chan (Some (Waiting i ch)) j c = (j = i \<and> c = ch)"
| "holds_chan _ j c = False"

fun sends_on :: "main_loop \<Rightarrow> u64 \<Rightarrow> chan \<Rightarrow> bool" where
  "sends_on (Sending i ch err) j c = (j = i \<and> c = ch)"
| "sends_on Free j c = False"

fun writer_id :: "writer option \<Rightarrow> u64 option" where
  "writer_id (Some (Proposing i ch)) = Some i"
| "writer_id (Some (Waiting i ch)) = Some i"
| "writer_id (Some (Cancelled i)) = Some i"
| "writer_id _ = None"

lemma holds_chan_id: "holds_chan x i ch \<Longrightarrow> writer_id x = Some i"
  by (cases "(x, i, ch)" rule: holds_chan.cases) auto

text \<open>
  The pool is well formed; a writer on a channel finds it either pending under its ID or being sent
  on for its ID; IDs are not shared and not above the counter; the channel being sent on was
  allocated and is no longer in the pool.
\<close>

definition hinv :: "handover \<Rightarrow> bool" where
  "hinv s \<longleftrightarrow> pool_ok (hpool s)
    \<and> (\<forall>w i ch. holds_chan (writers s w) i ch \<longrightarrow>
         pending (hpool s) i = Some ch \<or> sends_on (main_loop s) i ch)
    \<and> (\<forall>w i. writer_id (writers s w) = Some i \<longrightarrow> i \<le> nextID (hpool s)
         \<and> (\<forall>v. writer_id (writers s v) = Some i \<longrightarrow> v = w))
    \<and> (\<forall>i ch. sends_on (main_loop s) i ch \<longrightarrow> i \<le> nextID (hpool s) \<and> ch < made (hpool s)
         \<and> (\<forall>j. pending (hpool s) j \<noteq> Some ch) \<and> pending (hpool s) i = None)"

lemma hinv_init: "hinv handover_init"
  by (simp add: hinv_def handover_init_def pool_ok_New)

lemma pool_Remove_simps [simp]:
  "nextID (snd (pool_Remove i p)) = nextID p" "made (snd (pool_Remove i p)) = made p"
  "pending (snd (pool_Remove i p)) = (pending p)(i := None)"
  by (auto simp: pool_Remove_def split: option.splits)

lemma Get_simps:
  assumes "GetNewChannel p = ((i, ch), p')"
  shows "i = nextID p + 1" "ch = made p" "nextID p' = nextID p + 1" "made p' = Suc (made p)"
    "pending p' = (pending p)(i \<mapsto> ch)"
  using assms by (auto simp: GetNewChannel_def Let_def)

lemma hinv_begin:
  assumes "hinv s" and "writers s w = None" and "nextID (hpool s) \<noteq> maxID"
    and get: "GetNewChannel (hpool s) = ((i, ch), p)"
  shows "hinv (s\<lparr>hpool := p, writers := (writers s)(w \<mapsto> Proposing i ch)\<rparr>)"
proof -
  let ?n = "nextID (hpool s)"
  note g = Get_simps [OF get]
  have up: "j \<le> ?n \<Longrightarrow> j \<le> ?n + 1 \<and> j \<noteq> ?n + 1" for j
    using le_less_trans [of j ?n "?n + 1"] suc_id [OF assms(3)] by (auto simp: less_imp_le)
  have ok: "pool_ok p" using pool_ok_Get assms(1,3) get by (metis hinv_def snd_conv)
  have "j \<noteq> ?n + 1" if "holds_chan (writers s v) j c" for v j c
    using that assms(1) up holds_chan_id unfolding hinv_def by blast
  moreover have "writer_id (writers s v) \<noteq> Some (?n + 1)" for v
    using assms(1) up unfolding hinv_def by blast
  ultimately show ?thesis
    using assms(1) ok up unfolding hinv_def
    by (simp add: g) (metis holds_chan.simps(1) less_SucI less_irrefl)
qed

lemma hinv_writer_moves:
  assumes "hinv s" and "writer_id x = writer_id (writers s w)"
    and "\<And>i ch. holds_chan x i ch \<Longrightarrow> holds_chan (writers s w) i ch"
  shows "hinv (s\<lparr>writers := (writers s)(w := x)\<rparr>)"
  using assms unfolding hinv_def by (simp) metis

lemma hinv_give_up:
  assumes "hinv s" and "writer_id (writers s w) = Some i"
  shows "hinv (give_up w i err s)"
proof -
  have "j \<noteq> i" if "v \<noteq> w" "holds_chan (writers s v) j c" for v j c
    using that assms holds_chan_id unfolding hinv_def by blast
  moreover have "pool_ok (snd (pool_Remove i (hpool s)))"
    using assms(1) by (simp add: hinv_def pool_ok_Remove)
  ultimately show ?thesis
    using assms(1) unfolding hinv_def give_up_def by simp
qed

lemma hinv_release:
  assumes "hinv s" and "main_loop s = Free"
  shows "hinv (release i err s)"
proof (cases "pending (hpool s) i")
  case None
  then have "release i err s = s" by (simp add: release_def pool_Remove_def)
  then show ?thesis using assms(1) by simp
next
  case (Some ch)
  let ?p = "snd (pool_Remove i (hpool s))"
  have rel: "release i err s = s\<lparr>hpool := ?p, main_loop := Sending i ch err\<rparr>"
    using Some by (simp add: release_def pool_Remove_def)
  have ok: "pool_ok (hpool s)" "pool_ok ?p" using assms(1) by (simp_all add: hinv_def pool_ok_Remove)
  then have le: "i \<le> nextID (hpool s)" "ch < made (hpool s)"
    and own: "\<forall>j. pending (hpool s) j = Some ch \<longrightarrow> j = i"
    using Some unfolding pool_ok_def by blast+
  have "\<forall>w j c. holds_chan (writers s w) j c \<longrightarrow> pending (hpool s) j = Some c"
    using assms by (simp add: hinv_def)
  then have "\<forall>w j c. holds_chan (writers s w) j c \<longrightarrow>
      pending ?p j = Some c \<or> sends_on (Sending i ch err) j c"
    using Some by fastforce
  moreover have "\<forall>j c. sends_on (Sending i ch err) j c \<longrightarrow> j \<le> nextID ?p \<and> c < made ?p
      \<and> (\<forall>k. pending ?p k \<noteq> Some c) \<and> pending ?p j = None"
    using le own by auto
  moreover have "\<forall>w j. writer_id (writers s w) = Some j \<longrightarrow> j \<le> nextID ?p
      \<and> (\<forall>v. writer_id (writers s v) = Some j \<longrightarrow> v = w)"
    using assms(1) by (simp add: hinv_def)
  ultimately show ?thesis using ok(2) unfolding rel hinv_def by simp
qed

lemma hinv_rendezvous:
  assumes "hinv s" and "main_loop s = Sending i ch err" and "writers s w = Some (Waiting j ch)"
  shows "hinv (s\<lparr>main_loop := Free, writers := (writers s)(w \<mapsto> Returned err)\<rparr>)"
proof -
  have w: "holds_chan (writers s w) j ch" using assms(3) by simp
  then have "pending (hpool s) j = Some ch \<or> j = i"
    using assms(1,2) unfolding hinv_def by fastforce
  then have "j = i" using assms(1,2) by (auto simp: hinv_def)
  moreover have "v = w" if "holds_chan (writers s v) i c" for v c
    using that w holds_chan_id \<open>j = i\<close> assms(1) unfolding hinv_def by blast
  ultimately show ?thesis
    using assms(1,2) unfolding hinv_def by auto metis+
qed

lemma hinv_step: "hstep s t \<Longrightarrow> hinv s \<Longrightarrow> hinv t"
proof (induction rule: hstep.induct)
  case (begin_write s w i ch p)
  then show ?case by (intro hinv_begin)
next
  case (propose_err s w i ch err m)
  then show ?case by (intro hinv_give_up) simp_all
next
  case (cancelled s w i)
  then show ?case by (intro hinv_give_up) simp_all
next
  case (commit s i err)
  then show ?case by (intro hinv_release)
next
  case (rendezvous s i ch err w j)
  then show ?case by (intro hinv_rendezvous)
qed (auto intro!: hinv_writer_moves)

lemma hreach_inv: "hreach s \<Longrightarrow> hinv s"
  by (induction rule: hreach.induct) (auto intro: hinv_init hinv_step)

section \<open>What the hand-over guarantees\<close>

lemma hreach_waiting:
  assumes "hreach s" and "writers s w = Some (Waiting i ch)"
  shows "pending (hpool s) i = Some ch \<or> sends_on (main_loop s) i ch"
proof -
  have "holds_chan (writers s w) i ch" using assms(2) by simp
  then show ?thesis using hreach_inv [OF assms(1)] unfolding hinv_def by blast
qed


text \<open>A run for the evaluations below: one write, its proposal accepted.\<close>

definition one_waiting :: handover where
  "one_waiting = \<lparr>hpool = \<lparr>pending = [1 \<mapsto> 0], nextID = 1, made = 1\<rparr>,
     writers = [0 \<mapsto> Waiting 1 0], main_loop = Free\<rparr>"

lemma one_waiting_reach: "hreach one_waiting"
proof -
  let ?a = "\<lparr>hpool = \<lparr>pending = [1 \<mapsto> 0], nextID = 1, made = 1\<rparr>,
     writers = [0 \<mapsto> Proposing 1 0], main_loop = Free\<rparr> :: handover"
  have "hstep handover_init ?a"
    using begin_write [of handover_init 0 1 0 "\<lparr>pending = [1 \<mapsto> 0], nextID = 1, made = 1\<rparr>"]
    by (simp add: handover_init_def NewChannelPool_def GetNewChannel_def Let_def maxID_def)
  moreover have "hstep ?a one_waiting"
    using propose_ok [of ?a 0 1 0] by (simp add: one_waiting_def)
  ultimately show ?thesis using hreach_init by (blast intro: hreach_step)
qed


text \<open>A send nobody will receive.\<close>

definition stuck :: "handover \<Rightarrow> bool" where
  "stuck s \<longleftrightarrow> (case main_loop s of Free \<Rightarrow> False | Sending i ch err \<Rightarrow>
     ch < made (hpool s) \<and> (\<forall>w j. \<not> holds_chan (writers s w) j ch))"

lemma stuck_step: "hstep s t \<Longrightarrow> stuck s \<Longrightarrow> stuck t \<and> main_loop t = main_loop s"
proof (induction rule: hstep.induct)
  case (begin_write s w i ch p)
  then show ?case using Get_simps [OF begin_write(3)] by (auto simp: stuck_def split: main_loop.splits)
next
  case (propose_ok s w i ch)
  then show ?case by (auto simp: stuck_def split: main_loop.splits) (metis holds_chan.simps(1))
next
  case (rendezvous s i ch err w j)
  then show ?case by (auto simp: stuck_def) (metis holds_chan.simps(2))
qed (auto simp: stuck_def give_up_def split: main_loop.splits)

text \<open>
  C35. The main loop can be blocked forever by a client that gives up: there is a reachable state in
  which it sends on a channel nobody receives from any more (the commit took the channel out of the
  pool, then the client's \<open>select\<close> took \<open>ctx.Done()\<close>), and from any such state, whatever steps
  follow, it is still in the same send.
\<close>

theorem handover_can_block_forever:
  "(\<exists>s. hreach s \<and> stuck s) \<and> (\<forall>s t. stuck s \<and> hstep\<^sup>*\<^sup>* s t \<longrightarrow> stuck t \<and> main_loop t = main_loop s)"
proof
  let ?b = "release 1 None one_waiting"
  let ?c = "?b\<lparr>writers := (writers ?b)(0 \<mapsto> Cancelled 1)\<rparr>"
  have "hstep one_waiting ?b" by (rule commit) (simp add: one_waiting_def)
  moreover have "hstep ?b ?c"
    by (rule cancel [of _ _ 1 0]) (simp add: one_waiting_def release_def pool_Remove_def)
  ultimately have "hreach ?c" using one_waiting_reach by (blast intro: hreach_step)
  moreover have "stuck ?c" by (simp add: stuck_def one_waiting_def release_def pool_Remove_def)
  ultimately show "\<exists>s. hreach s \<and> stuck s" by blast
next
  have "stuck t \<and> main_loop t = main_loop s" if "hstep\<^sup>*\<^sup>* s t" "stuck s" for s t
    using that by (induction rule: rtranclp_induct) (auto dest: stuck_step)
  then show "\<forall>s t. stuck s \<and> hstep\<^sup>*\<^sup>* s t \<longrightarrow> stuck t \<and> main_loop t = main_loop s" by blast
qed

lemma handover_can_block_forever_witness:
  "\<exists>s. hreach s \<and> stuck s \<and> main_loop s \<noteq> Free"
proof -
  obtain s where s: "hreach s" "stuck s" using handover_can_block_forever by blast
  then have "main_loop s \<noteq> Free" by (auto simp: stuck_def)
  with s show ?thesis by blast
qed

text \<open>
  C17. A patient client is answered: from any reachable state in which it waits and the main loop is
  free, the commit of its query with outcome \<open>err\<close> followed by their meeting is a run after which
  the call has returned exactly \<open>err\<close>, the main loop is free again, the query is no longer pending and
  no other call was affected.
\<close>

theorem handover_answers:
  assumes "hreach s" and "writers s w = Some (Waiting i ch)" and "main_loop s = Free"
  shows "\<exists>t. hstep\<^sup>*\<^sup>* s t \<and> writers t w = Some (Returned err) \<and> main_loop t = Free
    \<and> pending (hpool t) i = None \<and> (\<forall>v. v \<noteq> w \<longrightarrow> writers t v = writers s v)"
proof -
  have p: "pending (hpool s) i = Some ch"
    using hreach_waiting [OF assms(1,2)] assms(3) by simp
  let ?b = "release i err s"
  let ?c = "?b\<lparr>main_loop := Free, writers := (writers ?b)(w \<mapsto> Returned err)\<rparr>"
  have b: "main_loop ?b = Sending i ch err" "writers ?b = writers s" "pending (hpool ?b) i = None"
    using p by (simp_all add: release_def pool_Remove_def)
  have "hstep s ?b" using assms(3) by (rule commit)
  moreover have "hstep ?b ?c" using b assms(2) by (intro rendezvous) simp_all
  ultimately have "hstep\<^sup>*\<^sup>* s ?c"
    by (rule converse_rtranclp_into_rtranclp [OF _ r_into_rtranclp])
  with b show ?thesis by (intro exI [of _ ?c]) simp
qed

lemma handover_answers_witness:
  "\<exists>t. hstep\<^sup>*\<^sup>* one_waiting t \<and> writers t 0 = Some (Returned (Some (ESqlite 1)))"
  using handover_answers [OF one_waiting_reach, of 0 1 0 "Some (ESqlite 1)"]
  by (auto simp: one_waiting_def)

end
