(* ===== verification/Transport.thy ===== *)
theory Transport
  imports Sql_Tables "HOL-Library.AList"
begin

text \<open>
  The transport layer, \<open>internal/transport\<close>: the \<open>Client\<close> interface (a record of the operations an
  implementation provides), \<open>TransportManager\<close> (\<open>transport.go\<close>), \<open>PeerManager\<close>
  (\<open>peer_manager.go\<close>), the gRPC client (\<open>client.go\<close>) over the generated stubs as parameters, and the
  in-process transport (\<open>inprocess.go\<close>).
\<close>

section \<open>The Client interface and the state\<close>

record progress_response =
  pr_Id :: u64
  pr_Applied :: u64
  pr_State :: string
  pr_ProgressMap :: "(u64 \<times> u64) list"

text \<open>The interface \<open>Client\<close> with the factory that makes clients, for a handle type \<open>'c\<close>.\<close>

record ('s, 'c) client_iface =
  ci_factory :: "string \<Rightarrow> string \<Rightarrow> ('s, 'c) op"
  ci_SendRaftMessage :: "'c \<Rightarrow> message \<Rightarrow> ('s, unit) op"
  ci_GetRemoteID :: "'c \<Rightarrow> ('s, u64) op"
  ci_GetHighestID :: "'c \<Rightarrow> ('s, u64) op"
  ci_Progress :: "'c \<Rightarrow> ('s, progress_response) op"
  ci_AddNewPeer :: "'c \<Rightarrow> u64 \<Rightarrow> string \<Rightarrow> string \<Rightarrow> ('s, unit) op"
  ci_CheckHealth :: "'c \<Rightarrow> u64 \<Rightarrow> ('s, unit) op"
  ci_Close :: "'c \<Rightarrow> ('s, unit) op"

text \<open>
  The state of the two managers of a process and of its connections. \<open>peerMap\<close> is a Go map; it is
  kept as an association list in key order, and no statement below depends on the order.
\<close>

record ('cb, 'c) transport = world +
  destMap :: "u64 \<rightharpoonup> 'cb"
  peerMap :: "(u64 \<times> 'c) list"
  conns_made :: nat
  conns_closed :: "nat list"

type_synonym peer_params = peer_info

section \<open>TransportManager\<close>

definition CreateClient :: "('s, 'c) client_iface \<Rightarrow> string \<Rightarrow> string \<Rightarrow> ('s, 'c) op" where
  "CreateClient I addr port = ci_factory I addr port"

definition RegisterDestCallback :: "u64 \<Rightarrow> 'cb \<Rightarrow> (('cb, 'c, 'z) transport_scheme, unit) op" where
  "RegisterDestCallback i cb = op_mod (\<lambda>s. s\<lparr>destMap := (destMap s)(i \<mapsto> cb)\<rparr>)"

definition UnregisterDestCallback :: "u64 \<Rightarrow> (('cb, 'c, 'z) transport_scheme, unit) op" where
  "UnregisterDestCallback i = op_mod (\<lambda>s. s\<lparr>destMap := (destMap s)(i := None)\<rparr>)"

text \<open>\<open>call cb m\<close> runs the registered callback.\<close>

definition DeliverMessage ::
  "('cb \<Rightarrow> message \<Rightarrow> (('cb, 'c, 'z) transport_scheme, unit) op) \<Rightarrow> message \<Rightarrow>
   (('cb, 'c, 'z) transport_scheme, unit) op" where
  "DeliverMessage call m s = (case destMap s (To m) of
      Some cb \<Rightarrow> call cb m s
    | None \<Rightarrow> (Err (ENew ''destination not found %d''), s))"

section \<open>PeerManager\<close>

definition peer_lookup :: "u64 \<Rightarrow> (u64 \<times> 'c) list \<Rightarrow> 'c option" where
  "peer_lookup i m = map_option snd (pk_find fst i m)"

text \<open>
  \<open>defer p.close()\<close> closes the client of the new \<open>Peer\<close> value \<open>p\<close>, after the map was written; its
  error is dropped.
\<close>

definition pm_UpsertPeer ::
  "(('cb, 'c, 'z) transport_scheme, 'c) client_iface \<Rightarrow> peer_params \<Rightarrow> (('cb, 'c, 'z) transport_scheme, unit) op" where
  "pm_UpsertPeer I params =
     op_bind (CreateClient I (Addr params) (Port params)) (\<lambda>c.
     op_bind (op_get (\<lambda>s. peer_lookup (NodeID params) (peerMap s))) (\<lambda>present.
     op_bind (op_mod (\<lambda>s. s\<lparr>peerMap := pk_replace fst (NodeID params, c) (peerMap s)\<rparr>)) (\<lambda>_.
     if present \<noteq> None then ignore_err (ci_Close I c) else op_ret ())))"

definition pm_RemovePeer ::
  "(('cb, 'c, 'z) transport_scheme, 'c) client_iface \<Rightarrow> u64 \<Rightarrow> (('cb, 'c, 'z) transport_scheme, unit) op" where
  "pm_RemovePeer I nodeID =
     op_bind (op_get (\<lambda>s. peer_lookup nodeID (peerMap s))) (\<lambda>p. case p of
       None \<Rightarrow> op_ret ()
     | Some c \<Rightarrow>
         op_bind (op_mod (\<lambda>s. s\<lparr>peerMap := pk_delete (\<lambda>r. fst r = nodeID) (peerMap s)\<rparr>)) (\<lambda>_.
         ignore_err (ci_Close I c)))"

definition ClientForPeer :: "u64 \<Rightarrow> (('cb, 'c, 'z) transport_scheme, 'c option) op" where
  "ClientForPeer nodeID = op_get (\<lambda>s. peer_lookup nodeID (peerMap s))"

text \<open>
  \<open>Close\<close> closes every client and remembers the first error. It has a value receiver, so the
  assignment of an empty map at its end changes a copy only.
\<close>

fun close_all :: "('s, 'c) client_iface \<Rightarrow> 'c list \<Rightarrow> goerr option \<Rightarrow> ('s, goerr option) op" where
  "close_all I [] err = op_ret err"
| "close_all I (c # cs) err =
     op_bind (attempt (ci_Close I c)) (\<lambda>r. close_all I cs (case r of
       Inl e \<Rightarrow> (if err = None then Some e else err)
     | Inr _ \<Rightarrow> err))"

definition pm_Close ::
  "(('cb, 'c, 'z) transport_scheme, 'c) client_iface \<Rightarrow> (('cb, 'c, 'z) transport_scheme, unit) op" where
  "pm_Close I =
     op_bind (op_get (\<lambda>s. map snd (peerMap s))) (\<lambda>cs.
     op_bind (close_all I cs None) (\<lambda>err. case err of None \<Rightarrow> op_ret () | Some e \<Rightarrow> op_err e))"

definition GetAllClients :: "(('cb, 'c, 'z) transport_scheme, 'c list) op" where
  "GetAllClients = op_get (\<lambda>s. map snd (peerMap s))"

section \<open>The gRPC client\<close>

record grpc_client =
  conn :: nat
  dest_addr :: string
  dest_port :: string

text \<open>
  The third-party side: dialling, the marshaller of Raft messages and the generated stubs. A stub
  is given whether the connection was closed, the client and the request.
\<close>

record grpc_stubs =
  dial :: "string \<Rightarrow> string \<Rightarrow> goerr option"
  marshal_msg :: "message \<Rightarrow> goerr + bytes"
  rpc_Message :: "bool \<Rightarrow> grpc_client \<Rightarrow> bytes \<Rightarrow> goerr option"
  rpc_GetID :: "bool \<Rightarrow> grpc_client \<Rightarrow> goerr + u64"
  rpc_HighestID :: "bool \<Rightarrow> grpc_client \<Rightarrow> goerr + u64"
  rpc_Progress :: "bool \<Rightarrow> grpc_client \<Rightarrow> goerr + progress_response"
  rpc_AddPeer :: "bool \<Rightarrow> grpc_client \<Rightarrow> u64 \<Rightarrow> string \<Rightarrow> string \<Rightarrow> goerr option"
  rpc_CheckHealth :: "bool \<Rightarrow> grpc_client \<Rightarrow> u64 \<Rightarrow> goerr option"
  conn_Close :: "bool \<Rightarrow> grpc_client \<Rightarrow> goerr option"

definition is_closed :: "grpc_client \<Rightarrow> ('cb, 'c, 'z) transport_scheme \<Rightarrow> bool" where
  "is_closed c s \<longleftrightarrow> conn c \<in> set (conns_closed s)"

definition rpc :: "(bool \<Rightarrow> grpc_client \<Rightarrow> goerr + 'a) \<Rightarrow> grpc_client \<Rightarrow> (('cb, 'c, 'z) transport_scheme, 'a) op" where
  "rpc f c = sys_call (\<lambda>s. (case f (is_closed c s) c of Inl e \<Rightarrow> Err e | Inr x \<Rightarrow> Ok x, s))"

definition rpc_unit :: "(bool \<Rightarrow> grpc_client \<Rightarrow> goerr option) \<Rightarrow> grpc_client \<Rightarrow> (('cb, 'c, 'z) transport_scheme, unit) op" where
  "rpc_unit f = rpc (\<lambda>b c. case f b c of None \<Rightarrow> Inr () | Some e \<Rightarrow> Inl e)"

definition NewGRPCClient :: "grpc_stubs \<Rightarrow> string \<Rightarrow> string \<Rightarrow> (('cb, 'c, 'z) transport_scheme, grpc_client) op" where
  "NewGRPCClient N addr port = wrap_err ''grpc dial error %s:%s'' (sys_call (\<lambda>s. case dial N addr port of
      Some e \<Rightarrow> (Err e, s)
    | None \<Rightarrow> (Ok \<lparr>conn = conns_made s, dest_addr = addr, dest_port = port\<rparr>,
        s\<lparr>conns_made := Suc (conns_made s)\<rparr>)))"

definition grpc_SendRaftMessage :: "grpc_stubs \<Rightarrow> grpc_client \<Rightarrow> message \<Rightarrow> (('cb, 'c, 'z) transport_scheme, unit) op" where
  "grpc_SendRaftMessage N c m = (case marshal_msg N m of
      Inl e \<Rightarrow> op_err (EWrap e ''failed to marshal raft message'')
    | Inr d \<Rightarrow> wrap_err ''failed to send raft message via gRPC'' (rpc_unit (\<lambda>b c. rpc_Message N b c d) c))"

definition grpc_GetRemoteID :: "grpc_stubs \<Rightarrow> grpc_client \<Rightarrow> (('cb, 'c, 'z) transport_scheme, u64) op" where
  "grpc_GetRemoteID N = rpc (rpc_GetID N)"

definition grpc_GetHighestID :: "grpc_stubs \<Rightarrow> grpc_client \<Rightarrow> (('cb, 'c, 'z) transport_scheme, u64) op" where
  "grpc_GetHighestID N = rpc (rpc_HighestID N)"

definition grpc_Progress :: "grpc_stubs \<Rightarrow> grpc_client \<Rightarrow> (('cb, 'c, 'z) transport_scheme, progress_response) op" where
  "grpc_Progress N = rpc (rpc_Progress N)"

definition grpc_AddNewPeer ::
  "grpc_stubs \<Rightarrow> grpc_client \<Rightarrow> u64 \<Rightarrow> string \<Rightarrow> string \<Rightarrow> (('cb, 'c, 'z) transport_scheme, unit) op" where
  "grpc_AddNewPeer N c nodeID addr port = rpc_unit (\<lambda>b c. rpc_AddPeer N b c nodeID addr port) c"

definition grpc_CheckHealth :: "grpc_stubs \<Rightarrow> grpc_client \<Rightarrow> u64 \<Rightarrow> (('cb, 'c, 'z) transport_scheme, unit) op" where
  "grpc_CheckHealth N c lag = rpc_unit (\<lambda>b c. rpc_CheckHealth N b c lag) c"

definition grpc_Close :: "grpc_stubs \<Rightarrow> grpc_client \<Rightarrow> (('cb, 'c, 'z) transport_scheme, unit) op" where
  "grpc_Close N c s = (case conn_Close N (is_closed c s) c of None \<Rightarrow> Ok () | Some e \<Rightarrow> Err e,
     s\<lparr>conns_closed := conn c # conns_closed s\<rparr>)"

definition grpc_iface :: "grpc_stubs \<Rightarrow> (('cb, 'c, 'z) transport_scheme, grpc_client) client_iface" where
  "grpc_iface N = \<lparr>ci_factory = NewGRPCClient N, ci_SendRaftMessage = grpc_SendRaftMessage N,
     ci_GetRemoteID = grpc_GetRemoteID N, ci_GetHighestID = grpc_GetHighestID N,
     ci_Progress = grpc_Progress N, ci_AddNewPeer = grpc_AddNewPeer N,
     ci_CheckHealth = grpc_CheckHealth N, ci_Close = grpc_Close N\<rparr>"

section \<open>The in-process transport\<close>

text \<open>
  The registry that emulates the network between nodes of one process: \<open>'tm\<close> is a transport
  manager, and \<open>deliver\<close> its \<open>DeliverMessage\<close>, which panics on a nil manager. All clients share one
  registry, so it is the state of their operations; a client keeps its destination only.
\<close>

record 'tm registry =
  transportMgrs :: "u64 \<rightharpoonup> 'tm"
  addrportToNodeID :: "(string \<times> u64) list"

record in_process_client =
  destAddrport :: string

definition addrport :: "string \<Rightarrow> string \<Rightarrow> string" where
  "addrport addr port = addr @ '':'' @ port"

definition NewInProcessRegistry :: "'tm registry" where
  "NewInProcessRegistry = \<lparr>transportMgrs = Map.empty, addrportToNodeID = []\<rparr>"

definition ipr_Register :: "'tm \<Rightarrow> string \<Rightarrow> string \<Rightarrow> u64 \<Rightarrow> ('tm, 'z) registry_scheme \<Rightarrow> ('tm, 'z) registry_scheme" where
  "ipr_Register tm addr port nodeID r =
     r\<lparr>addrportToNodeID := AList.update (addrport addr port) nodeID (addrportToNodeID r),
       transportMgrs := (transportMgrs r)(nodeID \<mapsto> tm)\<rparr>"

definition NewInProcessClientFactory :: "string \<Rightarrow> string \<Rightarrow> (('tm, 'z) registry_scheme, in_process_client) op" where
  "NewInProcessClientFactory addr port = op_ret \<lparr>destAddrport = addrport addr port\<rparr>"

definition ic_SendRaftMessage ::
  "('tm \<Rightarrow> message \<Rightarrow> (('tm, 'z) registry_scheme, unit) op) \<Rightarrow> in_process_client \<Rightarrow> message \<Rightarrow> (('tm, 'z) registry_scheme, unit) op" where
  "ic_SendRaftMessage deliver ic msg =
     op_bind (op_get (\<lambda>r. transportMgrs r (To msg))) (\<lambda>tm. case tm of
       None \<Rightarrow> op_panic (EDriver ''invalid memory address or nil pointer dereference'')
     | Some tm \<Rightarrow> deliver tm msg)"

definition ic_GetRemoteID :: "in_process_client \<Rightarrow> (('tm, 'z) registry_scheme, u64) op" where
  "ic_GetRemoteID ic =
     op_bind (op_get (\<lambda>r. map_of (addrportToNodeID r) (destAddrport ic))) (\<lambda>i. case i of
       None \<Rightarrow> op_err (ENew ''no registered node ID for destination %s'')
     | Some i \<Rightarrow> op_ret i)"

text \<open>\<open>for ... { if id > maxID { maxID = id } }\<close>\<close>

fun scan_max :: "u64 list \<Rightarrow> u64 \<Rightarrow> u64" where
  "scan_max [] maxID = maxID"
| "scan_max (i # is) maxID = scan_max is (if maxID < i then i else maxID)"

definition ic_GetHighestID :: "in_process_client \<Rightarrow> (('tm, 'z) registry_scheme, u64) op" where
  "ic_GetHighestID ic = op_get (\<lambda>r. scan_max (map snd (addrportToNodeID r)) 0)"

definition ic_Progress :: "in_process_client \<Rightarrow> (('tm, 'z) registry_scheme, progress_response) op" where
  "ic_Progress ic = op_err (ENew ''not implemented'')"

definition ic_AddNewPeer :: "in_process_client \<Rightarrow> u64 \<Rightarrow> string \<Rightarrow> string \<Rightarrow> (('tm, 'z) registry_scheme, unit) op" where
  "ic_AddNewPeer ic nodeID addr port =
     op_mod (\<lambda>r. r\<lparr>addrportToNodeID := AList.update (addrport addr port) nodeID (addrportToNodeID r)\<rparr>)"

definition ic_CheckHealth :: "in_process_client \<Rightarrow> u64 \<Rightarrow> (('tm, 'z) registry_scheme, unit) op" where
  "ic_CheckHealth ic lag = op_err (ENew ''not implemented'')"

definition ic_Close :: "in_process_client \<Rightarrow> (('tm, 'z) registry_scheme, unit) op" where
  "ic_Close ic = op_ret ()"

definition in_process_iface ::
  "('tm \<Rightarrow> message \<Rightarrow> (('tm, 'z) registry_scheme, unit) op) \<Rightarrow> (('tm, 'z) registry_scheme, in_process_client) client_iface" where
  "in_process_iface deliver = \<lparr>ci_factory = NewInProcessClientFactory,
     ci_SendRaftMessage = ic_SendRaftMessage deliver, ci_GetRemoteID = ic_GetRemoteID,
     ci_GetHighestID = ic_GetHighestID, ci_Progress = ic_Progress, ci_AddNewPeer = ic_AddNewPeer,
     ci_CheckHealth = ic_CheckHealth, ci_Close = ic_Close\<rparr>"

lemmas ic_defs = in_process_iface_def NewInProcessClientFactory_def ic_SendRaftMessage_def ic_GetRemoteID_def
  ic_GetHighestID_def ic_Progress_def ic_AddNewPeer_def ic_CheckHealth_def ic_Close_def

section \<open>The peers of a process\<close>

lemmas grpc_simps = grpc_iface_def CreateClient_def NewGRPCClient_def grpc_Close_def

lemma peer_lookup_replace:
  "pk_ok fst m \<Longrightarrow> peer_lookup k (pk_replace fst (i, c) m) = (if k = i then Some c else peer_lookup k m)"
  by (simp add: peer_lookup_def pk_find_replace)

lemma peer_lookup_delete:
  "pk_ok fst m \<Longrightarrow> peer_lookup k (pk_delete (\<lambda>r. fst r = i) m) = (if k = i then None else peer_lookup k m)"
  by (simp add: peer_lookup_def pk_find_delete)

text \<open>A gRPC upsert when the environment is calm.\<close>

lemma calm_UpsertPeer:
  assumes "calm s" and "dial N (Addr p) (Port p) = None"
  shows "pm_UpsertPeer (grpc_iface N) p s =
    (let c = \<lparr>conn = conns_made s, dest_addr = Addr p, dest_port = Port p\<rparr>;
         s' = s\<lparr>conns_made := Suc (conns_made s), peerMap := pk_replace fst (NodeID p, c) (peerMap s)\<rparr>
     in (Ok (), if peer_lookup (NodeID p) (peerMap s) = None then s'
                else s'\<lparr>conns_closed := conns_made s # conns_closed s\<rparr>))"
  using assms
  by (auto simp: pm_UpsertPeer_def grpc_simps op_defs Let_def sys_call_calm split: option.splits)

text \<open>
  The peer manager is a map from node ID to client: a successful \<open>UpsertPeer\<close> makes
  \<open>ClientForPeer\<close> return a client to the given address under the given ID and leaves the others; a
  failed dial leaves the map unchanged; \<open>RemovePeer\<close> removes exactly its ID and closes its client.
\<close>

theorem peer_manager_map:
  assumes "calm s" and "pk_ok fst (peerMap s)"
  shows "(case dial N (Addr p) (Port p) of
      Some e \<Rightarrow> pm_UpsertPeer (grpc_iface N) p s = (Err (EWrap e ''grpc dial error %s:%s''), s)
    | None \<Rightarrow> \<exists>c s'. pm_UpsertPeer (grpc_iface N) p s = (Ok (), s') \<and> pk_ok fst (peerMap s')
        \<and> dest_addr c = Addr p \<and> dest_port c = Port p
        \<and> (\<forall>k. fst (ClientForPeer k s') = (if k = NodeID p then Ok (Some c) else fst (ClientForPeer k s))))
    \<and> (\<exists>s'. pm_RemovePeer (grpc_iface N) i s = (Ok (), s') \<and> pk_ok fst (peerMap s')
        \<and> (\<forall>k. fst (ClientForPeer k s') = (if k = i then Ok None else fst (ClientForPeer k s)))
        \<and> (\<forall>c. fst (ClientForPeer i s) = Ok (Some c) \<longrightarrow> is_closed c s'))"
proof
  show "case dial N (Addr p) (Port p) of
      Some e \<Rightarrow> pm_UpsertPeer (grpc_iface N) p s = (Err (EWrap e ''grpc dial error %s:%s''), s)
    | None \<Rightarrow> \<exists>c s'. pm_UpsertPeer (grpc_iface N) p s = (Ok (), s') \<and> pk_ok fst (peerMap s')
        \<and> dest_addr c = Addr p \<and> dest_port c = Port p
        \<and> (\<forall>k. fst (ClientForPeer k s') = (if k = NodeID p then Ok (Some c) else fst (ClientForPeer k s)))"
  proof (cases "dial N (Addr p) (Port p)")
    case None
    let ?c = "\<lparr>conn = conns_made s, dest_addr = Addr p, dest_port = Port p\<rparr>"
    show ?thesis
      using calm_UpsertPeer [OF assms(1) None] None assms(2)
      by (auto simp: Let_def ClientForPeer_def op_get_def peer_lookup_replace intro!: exI [of _ ?c])
  next
    case (Some e)
    then show ?thesis
      using assms(1) by (simp add: pm_UpsertPeer_def grpc_simps op_defs sys_call_calm)
  qed
next
  show "\<exists>s'. pm_RemovePeer (grpc_iface N) i s = (Ok (), s') \<and> pk_ok fst (peerMap s')
      \<and> (\<forall>k. fst (ClientForPeer k s') = (if k = i then Ok None else fst (ClientForPeer k s)))
      \<and> (\<forall>c. fst (ClientForPeer i s) = Ok (Some c) \<longrightarrow> is_closed c s')"
    using assms(2)
    by (auto simp: pm_RemovePeer_def grpc_simps op_defs ClientForPeer_def peer_lookup_delete is_closed_def
        split: option.splits)
qed

text \<open>Stubs for the evaluations below: every host answers, a closed connection refuses.\<close>

definition demo_stubs :: grpc_stubs where
  "demo_stubs = \<lparr>dial = (\<lambda>a p. if a = ''down'' then Some EConnRefused else None),
     marshal_msg = (\<lambda>m. Inr (MBody m)),
     rpc_Message = (\<lambda>b c d. if b then Some (EDriver ''closing'') else None),
     rpc_GetID = (\<lambda>b c. Inr 2), rpc_HighestID = (\<lambda>b c. Inr 2),
     rpc_Progress = (\<lambda>b c. Inl EUnavailable), rpc_AddPeer = (\<lambda>b c i a p. None),
     rpc_CheckHealth = (\<lambda>b c l. None), conn_Close = (\<lambda>b c. None)\<rparr>"

definition demo_transport :: "(unit, grpc_client) transport" where
  "demo_transport = \<lparr>faults = [], destMap = Map.empty,
     peerMap = [(2, \<lparr>conn = 0, dest_addr = ''a'', dest_port = ''10''\<rparr>)], conns_made = 1, conns_closed = []\<rparr>"

lemma peer_manager_map_witness:
  "\<exists>c s'. pm_UpsertPeer (grpc_iface demo_stubs) \<lparr>NodeID = 3, Addr = ''b'', Port = ''11''\<rparr> demo_transport = (Ok (), s')
     \<and> dest_addr c = ''b'' \<and> fst (ClientForPeer 3 s') = Ok (Some c)"
proof -
  have "calm demo_transport" "pk_ok fst (peerMap demo_transport)"
    by (simp_all add: calm_def demo_transport_def)
  from peer_manager_map [OF this, of demo_stubs "\<lparr>NodeID = 3, Addr = ''b'', Port = ''11''\<rparr>" 3]
  show ?thesis by (auto simp: demo_stubs_def)
qed

text \<open>
  Upserting a peer that is already known closes the client that has just been stored, not the
  one it replaces: afterwards the ID maps to a closed connection, the old connection is still open
  and no longer in the map, and with stubs that refuse a closed connection every message to this
  peer fails.
\<close>

theorem upsert_known_peer_closes_new_client:
  assumes "calm s" and "pk_ok fst (peerMap s)" and "dial N (Addr p) (Port p) = None"
    and "fst (ClientForPeer (NodeID p) s) = Ok (Some old)" and "\<not> is_closed old s"
    and "\<forall>c \<in> snd ` set (peerMap s). conn c < conns_made s"
    and "marshal_msg N m = Inr d" and "\<forall>c. rpc_Message N True c d = Some e"
  shows "\<exists>c s'. pm_UpsertPeer (grpc_iface N) p s = (Ok (), s') \<and> fst (ClientForPeer (NodeID p) s') = Ok (Some c)
    \<and> is_closed c s' \<and> \<not> is_closed old s' \<and> c \<noteq> old
    \<and> fst (grpc_SendRaftMessage N c m s') = Err (EWrap e ''failed to send raft message via gRPC'')"
proof -
  let ?c = "\<lparr>conn = conns_made s, dest_addr = Addr p, dest_port = Port p\<rparr>"
  have old: "peer_lookup (NodeID p) (peerMap s) = Some old"
    using assms(4) by (simp add: ClientForPeer_def op_get_def)
  then have "(NodeID p, old) \<in> set (peerMap s)"
    using assms(2) by (auto simp: peer_lookup_def pk_find_Some_iff)
  then have "conn old < conns_made s" using assms(6) by force
  then show ?thesis
    using calm_UpsertPeer [OF assms(1,3)] old assms(1,2,5,7,8)
    by (auto simp: Let_def ClientForPeer_def op_get_def peer_lookup_replace is_closed_def grpc_SendRaftMessage_def
        rpc_unit_def rpc_def wrap_err_def sys_call_def calm_def intro!: exI [of _ ?c])
qed

lemma upsert_known_peer_closes_new_client_witness:
  "\<exists>c s'. pm_UpsertPeer (grpc_iface demo_stubs) \<lparr>NodeID = 2, Addr = ''b'', Port = ''11''\<rparr> demo_transport = (Ok (), s')
     \<and> fst (ClientForPeer 2 s') = Ok (Some c) \<and> is_closed c s'"
proof -
  let ?old = "\<lparr>conn = 0, dest_addr = ''a'', dest_port = ''10''\<rparr>"
  have "fst (ClientForPeer 2 demo_transport) = Ok (Some ?old)"
    by (simp add: ClientForPeer_def op_get_def peer_lookup_def pk_find_def demo_transport_def)
  then show ?thesis
    using upsert_known_peer_closes_new_client [of demo_transport demo_stubs
        "\<lparr>NodeID = 2, Addr = ''b'', Port = ''11''\<rparr>" ?old
        "\<lparr>MType = MsgSnap, To = 2, From = 1, MBody = ''x''\<rparr>" "''x''" "EDriver ''closing''"]
    by (auto simp: calm_def demo_transport_def demo_stubs_def is_closed_def)
qed

text \<open>Closing a list of clients.\<close>

lemma close_all_grpc:
  "\<exists>err' s'. close_all (grpc_iface N) cs err s = (Ok err', s') \<and> peerMap s' = peerMap s \<and> destMap s' = destMap s
     \<and> set (conns_closed s') = conn ` set cs \<union> set (conns_closed s)
     \<and> (err \<noteq> None \<longrightarrow> err' = err)"
proof (induction cs arbitrary: err s)
  case Nil
  then show ?case by (simp add: op_ret_def)
next
  case (Cons c cs)
  let ?s = "s\<lparr>conns_closed := conn c # conns_closed s\<rparr>"
  let ?e = "\<lambda>r. case r of Some e \<Rightarrow> (if err = None then Some e else err) | None \<Rightarrow> err"
  have "close_all (grpc_iface N) (c # cs) err s =
      close_all (grpc_iface N) cs (?e (conn_Close N (is_closed c s) c)) ?s"
    by (auto simp: op_defs grpc_simps split: option.splits)
  moreover have "err \<noteq> None \<longrightarrow> ?e r = err" for r by (simp split: option.splits)
  ultimately show ?case
    using Cons.IH [of "?e (conn_Close N (is_closed c s) c)" ?s] by fastforce
qed

text \<open>
  Closing the peer manager closes the connection of every known peer, but the peers stay
  known: \<open>ClientForPeer\<close> still returns the closed clients, because the new empty map is assigned to
  a copy of the manager.
\<close>

theorem peer_manager_Close:
  "let s' = snd (pm_Close (grpc_iface N) s) in
     (\<forall>k. fst (ClientForPeer k s') = fst (ClientForPeer k s))
     \<and> (\<forall>c. c \<in> snd ` set (peerMap s) \<longrightarrow> is_closed c s')
     \<and> (\<forall>c. is_closed c s' \<longrightarrow> is_closed c s \<or> conn c \<in> conn ` snd ` set (peerMap s))"
proof -
  obtain err' s' where c: "close_all (grpc_iface N) (map snd (peerMap s)) None s = (Ok err', s')"
    "peerMap s' = peerMap s" "set (conns_closed s') = conn ` set (map snd (peerMap s)) \<union> set (conns_closed s)"
    using close_all_grpc [of N "map snd (peerMap s)" None s] by blast
  then have "snd (pm_Close (grpc_iface N) s) = s'"
    by (auto simp: pm_Close_def op_defs split: option.splits)
  then show ?thesis using c by (auto simp: Let_def ClientForPeer_def op_get_def is_closed_def)
qed

lemma peer_manager_Close_witness:
  "is_closed \<lparr>conn = 0, dest_addr = ''a'', dest_port = ''10''\<rparr> (snd (pm_Close (grpc_iface demo_stubs) demo_transport))"
  using peer_manager_Close [of demo_stubs demo_transport] by (simp add: Let_def demo_transport_def)

section \<open>Delivery\<close>

text \<open>
  Messages are delivered by their destination: between the registration of a callback for a
  node and its removal, a message to this node runs exactly this callback; before and after, and for
  any other destination that is not registered, the sender gets an error and nothing happens.
\<close>

theorem deliver_by_destination:
  "let reg = snd (RegisterDestCallback i cb s); unreg = snd (UnregisterDestCallback i reg) in
     (To m = i \<longrightarrow> DeliverMessage call m reg = call cb m reg)
     \<and> (To m \<noteq> i \<longrightarrow> (destMap reg (To m) = destMap s (To m)))
     \<and> (To m = i \<longrightarrow> DeliverMessage call m unreg = (Err (ENew ''destination not found %d''), unreg))
     \<and> (destMap s (To m) = None \<longrightarrow> DeliverMessage call m s = (Err (ENew ''destination not found %d''), s))"
  by (simp add: RegisterDestCallback_def UnregisterDestCallback_def DeliverMessage_def op_mod_def Let_def)

lemma deliver_by_destination_witness:
  "let m = \<lparr>MType = MsgSnap, To = 2, From = 1, MBody = ''x''\<rparr>; reg = snd (RegisterDestCallback 2 () demo_transport)
   in DeliverMessage (\<lambda>cb m. op_err (ENew (MBody m))) m reg = (Err (ENew ''x''), reg)"
  using deliver_by_destination [of 2 "()" demo_transport "\<lparr>MType = MsgSnap, To = 2, From = 1, MBody = ''x''\<rparr>"
      "\<lambda>cb m. op_err (ENew (MBody m))"]
  by (simp add: Let_def op_err_def)

lemma scan_max:
  "a \<le> scan_max xs a \<and> (\<forall>x \<in> set xs. x \<le> scan_max xs a) \<and> scan_max xs a \<in> insert a (set xs)"
proof (induction xs arbitrary: a)
  case (Cons x xs)
  show ?case
  proof (cases "a < x")
    case True
    then show ?thesis using Cons.IH [of x] by (auto intro: order.trans less_imp_le)
  next
    case False
    then show ?thesis using Cons.IH [of a] by (auto simp: not_less intro: order.trans)
  qed
qed simp

lemma announced_max:
  "v \<le> scan_max (map snd (AList.update k v m)) 0"
proof -
  have "map_of (AList.update k v m) k = Some v" by (simp add: update_conv')
  then have "v \<in> set (map snd (AList.update k v m))" by (force dest: map_of_SomeD)
  with scan_max show ?thesis by blast
qed

text \<open>
  The registry holds pointers to transport managers: \<open>tm_heap\<close> is what they point to, and delivering a message is
  \<open>DeliverMessage\<close> of the manager pointed to.
\<close>

record ('cb, 'c) ip_net = "nat registry" +
  tm_heap :: "nat \<rightharpoonup> ('cb, 'c) transport"

definition tm_deliver ::
  "('cb \<Rightarrow> message \<Rightarrow> (('cb, 'c) transport, unit) op) \<Rightarrow> nat \<Rightarrow> message \<Rightarrow> (('cb, 'c) ip_net, unit) op" where
  "tm_deliver call p m s = (case tm_heap s p of
      None \<Rightarrow> (Panic (EDriver ''invalid memory address or nil pointer dereference''), s)
    | Some t \<Rightarrow> (case DeliverMessage call m t of (r, t') \<Rightarrow> (r, s\<lparr>tm_heap := (tm_heap s)(p \<mapsto> t')\<rparr>)))"

text \<open>
  The in-process network through the \<open>Client\<close> interface: a client made for the address of a registered node
  finds that node's ID, also after other nodes were announced under other addresses; a message goes to the manager
  registered last under its destination ID, whichever client sends it, and panics if there is none; the highest
  ID is the greatest of those registered or announced (0 for none); \<open>Progress\<close> and \<open>CheckHealth\<close> always fail.
\<close>

theorem inprocess_network:
  fixes r :: "('tm, 'z) registry_scheme"
  assumes "ci_factory (in_process_iface deliver) addr port (ipr_Register tm addr port nodeID r) = (Ok ic, r')"
  shows "r' = ipr_Register tm addr port nodeID r
    \<and> ci_GetRemoteID (in_process_iface deliver) ic r' = (Ok nodeID, r')
    \<and> (addrport addr2 port2 \<noteq> addrport addr port \<longrightarrow>
        fst (ci_GetRemoteID (in_process_iface deliver) ic
          (snd (ci_AddNewPeer (in_process_iface deliver) ic2 new addr2 port2 r'))) = Ok nodeID)
    \<and> (To m = nodeID \<longrightarrow> ci_SendRaftMessage (in_process_iface deliver) ic2 m r' = deliver tm m r')
    \<and> (transportMgrs r' (To m) = None \<longrightarrow> ci_SendRaftMessage (in_process_iface deliver) ic2 m r' =
         (Panic (EDriver ''invalid memory address or nil pointer dereference''), r'))
    \<and> (\<exists>h. ci_GetHighestID (in_process_iface deliver) ic2 r' = (Ok h, r') \<and> nodeID \<le> h
        \<and> (\<forall>i \<in> snd ` set (addrportToNodeID r'). i \<le> h) \<and> (h = 0 \<or> h \<in> snd ` set (addrportToNodeID r')))
    \<and> (\<exists>h. fst (ci_GetHighestID (in_process_iface deliver) ic
          (snd (ci_AddNewPeer (in_process_iface deliver) ic2 new addr2 port2 r'))) = Ok h \<and> new \<le> h)"
proof -
  have ic: "ic = \<lparr>destAddrport = addrport addr port\<rparr>" and r': "r' = ipr_Register tm addr port nodeID r"
    using assms by (simp_all add: ic_defs op_ret_def)
  have h: "nodeID \<le> scan_max (map snd (addrportToNodeID r')) 0"
    unfolding r' by (simp add: ipr_Register_def announced_max)
  show ?thesis
    using scan_max [where a = 0 and xs = "map snd (addrportToNodeID r')"] h announced_max
    by (auto simp: ic_defs op_defs ic) (simp_all add: r' ipr_Register_def update_conv' op_defs)
qed

text \<open>
  A Raft message sent by any in-process client reaches the callback the destination has registered with its transport
  manager, and the sender gets what the callback returns; a destination that has unregistered itself is reported
  as not found.
\<close>

theorem inprocess_message_reaches_callback:
  fixes s :: "('cb, 'c) ip_net"
  assumes "transportMgrs s (To m) = Some p" and "tm_heap s p = Some t"
    and "snd (RegisterDestCallback (To m) cb t) = t'" and "snd (UnregisterDestCallback (To m) t') = t''"
  shows "ci_SendRaftMessage (in_process_iface (tm_deliver call)) ic m (s\<lparr>tm_heap := (tm_heap s)(p \<mapsto> t')\<rparr>)
      = (case call cb m t' of (r, u) \<Rightarrow> (r, s\<lparr>tm_heap := (tm_heap s)(p \<mapsto> u)\<rparr>))
    \<and> ci_SendRaftMessage (in_process_iface (tm_deliver call)) ic m (s\<lparr>tm_heap := (tm_heap s)(p \<mapsto> t'')\<rparr>)
      = (Err (ENew ''destination not found %d''), s\<lparr>tm_heap := (tm_heap s)(p \<mapsto> t'')\<rparr>)"
  using assms
  by (auto simp: ic_defs op_defs tm_deliver_def DeliverMessage_def RegisterDestCallback_def UnregisterDestCallback_def
      split: prod.splits)

end
