(* ===== verification/Node.thy ===== *)
theory Node
  imports Backend_Interface Transport Channel_Pool
begin

text \<open>
  The Raft node, \<open>internal/node/node.go\<close> and \<open>internal/node/conf_change.go\<close>: the object, its
  operations in the order of the source, and the main loop. The backend and the clients are the
  records of operations of their Go interfaces; the Raft library and the codecs are parameters.
  A send on the channel of a pending write is recorded in \<open>released\<close> (the rendezvous itself is the
  subject of the theory on the hand-over), a goroutine that removes a node in \<open>background\<close>, and the
  waits of the retry loop in \<open>slept\<close>.
\<close>

section \<open>Data\<close>

record node_info =
  ni_Addr :: string
  ni_Port :: string

record raft_config =
  cfg_ID :: u64
  ElectionTick :: nat
  HeartbeatTick :: nat
  MaxSizePerMsg :: u64
  MaxInflightMsgs :: nat
  cfg_Applied :: u64

record raft_peer =
  rp_ID :: u64
  rp_Context :: bytes

record write_query =
  wq_NodeID :: u64
  wq_QueryID :: u64
  wq_Sql :: string

record raft_status =
  st_ID :: u64
  st_Applied :: u64
  st_State :: string
  st_Progress :: "(u64 \<times> u64) list"

text \<open>What the Raft library hands to the application in one step.\<close>

record ready =
  rd_HardState :: hard_state
  rd_Entries :: "entry list"
  rd_Snapshot :: snapshot
  rd_Messages :: "message list"
  rd_CommittedEntries :: "entry list"

text \<open>The Raft library over a node state \<open>'r\<close>, and the codecs; \<open>'b\<close> is the storage it reads.\<close>

record ('b, 'r) raft_lib =
  StartNode :: "raft_config \<Rightarrow> raft_peer list \<Rightarrow> 'b \<Rightarrow> 'r"
  RestartNode :: "raft_config \<Rightarrow> 'b \<Rightarrow> 'r"
  rn_Tick :: "'r \<Rightarrow> 'r"
  rn_Propose :: "bytes \<Rightarrow> 'r \<Rightarrow> goerr option \<times> 'r"
  rn_ProposeConfChange :: "conf_change \<Rightarrow> 'r \<Rightarrow> goerr option \<times> 'r"
  rn_ApplyConfChange :: "conf_change \<Rightarrow> 'r \<Rightarrow> conf_state \<times> 'r"
  rn_Step :: "message \<Rightarrow> 'r \<Rightarrow> goerr option \<times> 'r"
  rn_ReportUnreachable :: "u64 \<Rightarrow> 'r \<Rightarrow> 'r"
  rn_ReportSnapshot :: "u64 \<Rightarrow> bool \<Rightarrow> 'r \<Rightarrow> 'r"
  rn_Advance :: "'r \<Rightarrow> 'r"
  rn_Stop :: "'r \<Rightarrow> 'r"
  rn_Status :: "'r \<Rightarrow> raft_status"
  IsEmptySnap :: "snapshot \<Rightarrow> bool"
  IsEmptyHardState :: "hard_state \<Rightarrow> bool"
  cc_Unmarshal :: "bytes \<Rightarrow> conf_change"
  wq_Marshal :: "write_query \<Rightarrow> goerr + bytes"
  wq_Unmarshal :: "bytes \<Rightarrow> goerr + write_query"
  json_Marshal :: "node_info \<Rightarrow> goerr + bytes"
  json_Unmarshal :: "bytes \<Rightarrow> goerr + node_info"
  driver_text :: "goerr \<Rightarrow> string"

section \<open>The object\<close>

record ('b, 'r, 'c) node = "(unit, 'c) transport" +
  config :: raft_config
  raftNode :: "'r option"
  backend :: 'b
  nodeInfo :: node_info
  potentialPeers :: "node_info list"
  isNewCluster :: bool
  indexAfterAppliedSnapshot :: u64
  pendingWrites :: channel_pool
  released :: "(chan \<times> goerr option) list"
  background :: "u64 list"
  running :: bool
  slept :: "nat list"

record node_params =
  np_NodeID :: u64
  np_AddrPort :: node_info
  np_IsNewCluster :: bool
  np_PotentialPeers :: "node_info list"

definition node_New :: "node_params \<Rightarrow> (unit, 'c) transport \<Rightarrow> 'b \<Rightarrow> ('b, 'r, 'c) node" where
  "node_New params t b = \<lparr>faults = faults t, destMap = destMap t, peerMap = peerMap t,
     conns_made = conns_made t, conns_closed = conns_closed t,
     config = \<lparr>cfg_ID = np_NodeID params, ElectionTick = 10, HeartbeatTick = 1, MaxSizePerMsg = 4096,
       MaxInflightMsgs = 256, cfg_Applied = 0\<rparr>,
     raftNode = None, backend = b, nodeInfo = np_AddrPort params,
     potentialPeers = np_PotentialPeers params, isNewCluster = np_IsNewCluster params,
     indexAfterAppliedSnapshot = 0, pendingWrites = NewChannelPool, released = [], background = [],
     running = False, slept = []\<rparr>"

text \<open>A call of the backend, and a call of the Raft node, which panics before it is set.\<close>

definition on_backend :: "('b, 'a) op \<Rightarrow> (('b, 'r, 'c) node, 'a) op" where
  "on_backend m s = (case m (backend s) of (r, b) \<Rightarrow> (r, s\<lparr>backend := b\<rparr>))"

definition on_raft :: "('r \<Rightarrow> 'a \<times> 'r) \<Rightarrow> (('b, 'r, 'c) node, 'a) op" where
  "on_raft f s = (case raftNode s of
      None \<Rightarrow> (Panic nil_deref, s)
    | Some r \<Rightarrow> (case f r of (x, r') \<Rightarrow> (Ok x, s\<lparr>raftNode := Some r'\<rparr>)))"

definition tell_raft :: "('r \<Rightarrow> 'r) \<Rightarrow> (('b, 'r, 'c) node, unit) op" where
  "tell_raft f = on_raft (\<lambda>r. ((), f r))"

definition return_err :: "goerr option \<Rightarrow> ('s, unit) op" where
  "return_err e = (case e of None \<Rightarrow> op_ret () | Some err \<Rightarrow> op_err err)"

section \<open>Starting the backend\<close>

text \<open>\<open>errors.Is(err, syscall.ECONNREFUSED)\<close>: the chain of wrapped errors is searched.\<close>

fun is_refused :: "goerr \<Rightarrow> bool" where
  "is_refused EConnRefused = True"
| "is_refused (EWrap e m) = is_refused e"
| "is_refused (EOpError (Some e)) = is_refused e"
| "is_refused _ = False"

text \<open>\<open>errors.As(err, &opErr)\<close>: the first \<open>net.OpError\<close> of the chain, with its \<open>Err\<close> field.\<close>

fun as_op_error :: "goerr \<Rightarrow> goerr option option" where
  "as_op_error (EOpError e) = Some e"
| "as_op_error (EWrap e m) = as_op_error e"
| "as_op_error _ = None"

text \<open>\<open>err.Error()\<close>; the texts of the drivers' typed errors and of a \<open>net.OpError\<close>'s prefix are parameters.\<close>

fun error_text :: "(goerr \<Rightarrow> string) \<Rightarrow> goerr \<Rightarrow> string" where
  "error_text drv (ENew m) = m"
| "error_text drv (EWrap e m) = m @ '': '' @ error_text drv e"
| "error_text drv ENoRows = ''sql: no rows in result set''"
| "error_text drv (EDriver m) = m"
| "error_text drv (EDBError e) = ''DB error: '' @ error_text drv e"
| "error_text drv EConnRefused = ''connection refused''"
| "error_text drv (EOpError e) = drv (EOpError None) @ (case e of None \<Rightarrow> [] | Some x \<Rightarrow> error_text drv x)"
| "error_text drv e = drv e"

definition to_lower :: "string \<Rightarrow> string" where
  "to_lower = map (\<lambda>c. if 65 \<le> (of_char c :: nat) \<and> (of_char c :: nat) \<le> 90 then char_of ((of_char c :: nat) + 32) else c)"

fun str_contains :: "string \<Rightarrow> string \<Rightarrow> bool" where
  "str_contains [] pat = (pat = [])"
| "str_contains (c # cs) pat = (take (length pat) (c # cs) = pat \<or> str_contains cs pat)"

definition isConnectionRefusedError :: "(goerr \<Rightarrow> string) \<Rightarrow> goerr option \<Rightarrow> bool" where
  "isConnectionRefusedError drv err = (case err of
      None \<Rightarrow> False
    | Some e \<Rightarrow>
        if is_refused e then True
        else if (case as_op_error e of Some (Some x) \<Rightarrow> is_refused x | _ \<Rightarrow> False) then True
        else str_contains (to_lower (error_text drv e)) ''connection refused'')"

text \<open>
  The retry loop: \<open>left\<close> attempts to go, the delay in seconds before the next; \<open>cancelled k\<close> says
  whether the context is done at the wait with \<open>k\<close> attempts left.
\<close>

fun retry_loop :: "('b, 'r) raft_lib \<Rightarrow> ('b, 'q) db_backend \<Rightarrow> (nat \<Rightarrow> bool) \<Rightarrow> nat \<Rightarrow> nat \<Rightarrow> goerr \<Rightarrow>
    (('b, 'r, 'c) node, unit) op" where
  "retry_loop R B cancelled 0 delay lastErr = op_err (EWrap lastErr ''starting backend after %d attempts'')"
| "retry_loop R B cancelled (Suc left) delay lastErr =
     op_bind (attempt (on_backend (be_Start B))) (\<lambda>r. case r of
       Inr _ \<Rightarrow> op_ret ()
     | Inl e \<Rightarrow>
         if \<not> isConnectionRefusedError (driver_text R) (Some e) then op_err (EWrap e ''starting backend'')
         else if cancelled left then op_err ECtx
         else op_bind (op_mod (\<lambda>s. s\<lparr>slept := slept s @ [delay]\<rparr>)) (\<lambda>_.
           retry_loop R B cancelled left (if delay * 2 > 30 then 30 else delay * 2) e))"

definition startBackendWithRetry ::
  "('b, 'r) raft_lib \<Rightarrow> ('b, 'q) db_backend \<Rightarrow> (nat \<Rightarrow> bool) \<Rightarrow> (('b, 'r, 'c) node, unit) op" where
  "startBackendWithRetry R B cancelled = retry_loop R B cancelled 10 1 (ENew [])"

section \<open>Peers\<close>

definition loadStoredPeers ::
  "('b, 'q) db_backend \<Rightarrow> (('b, 'r, 'c) node, 'c) client_iface \<Rightarrow> (('b, 'r, 'c) node, unit) op" where
  "loadStoredPeers B I =
     op_bind (wrap_err ''loading peers from backend'' (on_backend (be_LoadPeers B))) (\<lambda>peers.
     op_foreach (\<lambda>p. wrap_err ''upserting peers'' (pm_UpsertPeer I p)) peers)"

text \<open>One potential peer: \<open>Inl\<close> for an unreachable one, which is skipped.\<close>

definition discoverPeer ::
  "('b, 'r) raft_lib \<Rightarrow> (('b, 'r, 'c) node, 'c) client_iface \<Rightarrow> node_info \<Rightarrow>
   (('b, 'r, 'c) node, raft_peer option \<times> 'c option) op" where
  "discoverPeer R I p =
     op_bind (attempt (CreateClient I (ni_Addr p) (ni_Port p))) (\<lambda>rc. case rc of
       Inl _ \<Rightarrow> op_ret (None, None)
     | Inr c \<Rightarrow>
         op_bind (attempt (ci_GetRemoteID I c)) (\<lambda>ri. case ri of
           Inl _ \<Rightarrow> op_ret (None, Some c)
         | Inr i \<Rightarrow>
             op_bind (op_get nodeInfo) (\<lambda>own. case json_Marshal R own of
               Inl e \<Rightarrow> op_bind (ignore_err (ci_Close I c)) (\<lambda>_. op_err (EWrap e ''marshalling nodeInfo''))
             | Inr b \<Rightarrow>
                 op_bind (ignore_err (pm_UpsertPeer I \<lparr>NodeID = i, Addr = ni_Addr p, Port = ni_Port p\<rparr>)) (\<lambda>_.
                 op_ret (Some \<lparr>rp_ID = i, rp_Context = b\<rparr>, Some c)))))"

text \<open>The loop; the deferred \<open>Close\<close> of each client runs when the function returns.\<close>

fun discoverPotentialPeers ::
  "('b, 'r) raft_lib \<Rightarrow> (('b, 'r, 'c) node, 'c) client_iface \<Rightarrow> node_info list \<Rightarrow>
   (('b, 'r, 'c) node, raft_peer list) op" where
  "discoverPotentialPeers R I [] = op_ret []"
| "discoverPotentialPeers R I (p # ps) =
     op_bind (discoverPeer R I p) (\<lambda>(found, c).
     op_bind (attempt (discoverPotentialPeers R I ps)) (\<lambda>rest.
     op_bind (case c of None \<Rightarrow> op_ret () | Some cl \<Rightarrow> ignore_err (ci_Close I cl)) (\<lambda>_.
     case rest of
       Inl e \<Rightarrow> op_err e
     | Inr rs \<Rightarrow> op_ret (case found of None \<Rightarrow> rs | Some r \<Rightarrow> r # rs))))"

section \<open>Start, restart\<close>

definition node_Start ::
  "('b, 'r) raft_lib \<Rightarrow> ('b, 'q) db_backend \<Rightarrow> (('b, 'r, 'c) node, 'c) client_iface \<Rightarrow> (nat \<Rightarrow> bool) \<Rightarrow>
   (('b, 'r, 'c) node, unit) op" where
  "node_Start R B I cancelled =
     op_bind (startBackendWithRetry R B cancelled) (\<lambda>_.
     op_bind (\<lambda>s. if isNewCluster s then (case json_Marshal R (nodeInfo s) of
           Inl e \<Rightarrow> (Err (EWrap e ''marshalling nodeInfo''), s)
         | Inr b \<Rightarrow> (Ok [\<lparr>rp_ID = cfg_ID (config s), rp_Context = b\<rparr>], s))
       else (Ok [], s)) (\<lambda>thisPeer.
     op_bind (ignore_err (loadStoredPeers B I)) (\<lambda>_.
     op_bind (op_get potentialPeers) (\<lambda>pps.
     op_bind (wrap_err ''discovering potential peers'' (discoverPotentialPeers R I pps)) (\<lambda>found.
     let raftPeers = found @ thisPeer in
     op_bind (op_get (\<lambda>s. (isNewCluster s, config s))) (\<lambda>(isNew, cfg).
     op_bind (if isNew then
         op_bind (wrap_err ''storing initial conf state''
           (on_backend (be_SaveConfState B \<lparr>Voters = [cfg_ID cfg], Learners = []\<rparr>))) (\<lambda>_.
         op_mod (\<lambda>s. s\<lparr>raftNode := Some (RestartNode R cfg (backend s))\<rparr>))
       else op_mod (\<lambda>s. s\<lparr>raftNode := Some (StartNode R cfg raftPeers (backend s))\<rparr>)) (\<lambda>_.
     op_bind (RegisterDestCallback (cfg_ID cfg) ()) (\<lambda>_.
     op_mod (\<lambda>s. s\<lparr>running := True\<rparr>)))))))))"

definition node_Restart ::
  "('b, 'r) raft_lib \<Rightarrow> ('b, 'q) db_backend \<Rightarrow> (('b, 'r, 'c) node, 'c) client_iface \<Rightarrow> (nat \<Rightarrow> bool) \<Rightarrow>
   (('b, 'r, 'c) node, unit) op" where
  "node_Restart R B I cancelled =
     op_bind (startBackendWithRetry R B cancelled) (\<lambda>_.
     op_bind (op_get isNewCluster) (\<lambda>isNew.
     if isNew then op_err (ENew ''cannot restart a new cluster'')
     else
       op_bind (ignore_err (loadStoredPeers B I)) (\<lambda>_.
       op_bind (op_get potentialPeers) (\<lambda>pps.
       op_bind (ignore_err (discoverPotentialPeers R I pps)) (\<lambda>_.
       op_bind (wrap_err ''getting applied index for node restart'' (on_backend (be_GetAppliedIndex B))) (\<lambda>applied.
       op_bind (op_mod (\<lambda>s. s\<lparr>config := (config s)\<lparr>cfg_Applied := applied\<rparr>\<rparr>)) (\<lambda>_.
       op_bind (op_mod (\<lambda>s. s\<lparr>raftNode := Some (RestartNode R (config s) (backend s))\<rparr>)) (\<lambda>_.
       op_bind (op_get (\<lambda>s. cfg_ID (config s))) (\<lambda>i.
       op_bind (RegisterDestCallback i ()) (\<lambda>_.
       op_mod (\<lambda>s. s\<lparr>running := True\<rparr>)))))))))))"

section \<open>Membership\<close>

definition AddNode :: "('b, 'r) raft_lib \<Rightarrow> u64 \<Rightarrow> node_info \<Rightarrow> (('b, 'r, 'c) node, unit) op" where
  "AddNode R nodeID info s = (case raftNode s of
      None \<Rightarrow> (Err (ENew ''node %d not started yet''), s)
    | Some _ \<Rightarrow> (case json_Marshal R info of
          Inl e \<Rightarrow> (Err e, s)
        | Inr b \<Rightarrow> op_bind (on_raft (rn_ProposeConfChange R
              \<lparr>ccID = nodeID, ccType = ConfChangeAddNode, ccNodeID = nodeID, ccContext = b\<rparr>)) return_err s))"

definition UpdateNode :: "('b, 'r) raft_lib \<Rightarrow> u64 \<Rightarrow> node_info \<Rightarrow> (('b, 'r, 'c) node, unit) op" where
  "UpdateNode R nodeID info = (case json_Marshal R info of
      Inl e \<Rightarrow> op_err e
    | Inr b \<Rightarrow> op_bind (on_raft (rn_ProposeConfChange R
          \<lparr>ccID = nodeID, ccType = ConfChangeUpdateNode, ccNodeID = nodeID, ccContext = b\<rparr>)) return_err)"

definition RemoveNode :: "('b, 'r) raft_lib \<Rightarrow> u64 \<Rightarrow> (('b, 'r, 'c) node, unit) op" where
  "RemoveNode R nodeID = op_bind (on_raft (rn_ProposeConfChange R
     \<lparr>ccID = nodeID, ccType = ConfChangeRemoveNode, ccNodeID = nodeID, ccContext = []\<rparr>)) return_err"

text \<open>
  \<open>processConfChange\<close>. The error of the backend's \<open>UpsertPeer\<close> is returned only after the check of the
  previous ID, which is 0 when the call failed.
\<close>

definition processConfChange ::
  "('b, 'r) raft_lib \<Rightarrow> ('b, 'q) db_backend \<Rightarrow> (('b, 'r, 'c) node, 'c) client_iface \<Rightarrow> conf_change \<Rightarrow>
   (('b, 'r, 'c) node, unit) op" where
  "processConfChange R B I cc =
     op_bind (op_get (\<lambda>s. cfg_ID (config s))) (\<lambda>own.
     if ccID cc = own then op_ret ()
     else if ccType cc = ConfChangeRemoveNode then
       op_bind (pm_RemovePeer I (ccID cc)) (\<lambda>_.
       ignore_err (on_backend (be_RemovePeer B (ccID cc))))
     else (case json_Unmarshal R (ccContext cc) of
         Inl e \<Rightarrow> op_err e
       | Inr info \<Rightarrow>
           op_bind (pm_UpsertPeer I \<lparr>NodeID = ccID cc, Addr = ni_Addr info, Port = ni_Port info\<rparr>) (\<lambda>_.
           op_bind (attempt (on_backend
             (be_UpsertPeer B \<lparr>NodeID = ccID cc, Addr = ni_Addr info, Port = ni_Port info\<rparr>))) (\<lambda>r.
           let prevNodeID = (case r of Inl _ \<Rightarrow> 0 | Inr p \<Rightarrow> p) in
           op_bind (if prevNodeID \<noteq> 0 \<and> prevNodeID \<noteq> ccID cc
             then op_mod (\<lambda>s. s\<lparr>background := background s @ [prevNodeID]\<rparr>) else op_ret ()) (\<lambda>_.
           case r of Inl e \<Rightarrow> op_err e | Inr _ \<Rightarrow> op_ret ())))))"

section \<open>Committed writes\<close>

definition release_write :: "u64 \<Rightarrow> goerr option \<Rightarrow> (('b, 'r, 'c) node, unit) op" where
  "release_write i err s = (case pool_Remove i (pendingWrites s) of (ch, p) \<Rightarrow>
     (Ok (), (case ch of None \<Rightarrow> s\<lparr>pendingWrites := p\<rparr>
       | Some c \<Rightarrow> s\<lparr>pendingWrites := p, released := released s @ [(c, err)]\<rparr>)))"

definition processCommittedData ::
  "('b, 'r) raft_lib \<Rightarrow> ('b, 'q) db_backend \<Rightarrow> entry \<Rightarrow> (('b, 'r, 'c) node, unit) op" where
  "processCommittedData R B e = (case wq_Unmarshal R (Data e) of
      Inl err \<Rightarrow> op_err (EWrap err ''unmarshaling committed data'')
    | Inr query \<Rightarrow>
        op_bind (attempt (on_backend (be_ExecSQL B (Term e) (Index e) (wq_Sql query)))) (\<lambda>r.
        op_bind (case r of
            Inr _ \<Rightarrow> op_ret None
          | Inl (EDBError cause) \<Rightarrow> op_ret (Some cause)
          | Inl err \<Rightarrow> op_err err) (\<lambda>outcome.
        op_bind (op_get (\<lambda>s. cfg_ID (config s))) (\<lambda>own.
        if wq_NodeID query = own then release_write (wq_QueryID query) outcome else op_ret ()))))"

section \<open>The main loop\<close>

definition sendMessage ::
  "('b, 'r) raft_lib \<Rightarrow> (('b, 'r, 'c) node, 'c) client_iface \<Rightarrow> message \<Rightarrow> (('b, 'r, 'c) node, unit) op" where
  "sendMessage R I m =
     op_bind (ClientForPeer (To m)) (\<lambda>c. case c of
       None \<Rightarrow> tell_raft (rn_ReportUnreachable R (To m))
     | Some cl \<Rightarrow>
         op_bind (attempt (ci_SendRaftMessage I cl m)) (\<lambda>r.
         op_bind (case r of Inl _ \<Rightarrow> tell_raft (rn_ReportUnreachable R (To m)) | Inr _ \<Rightarrow> op_ret ()) (\<lambda>_.
         if MType m = MsgSnap
         then tell_raft (rn_ReportSnapshot R (To m) (case r of Inl _ \<Rightarrow> False | Inr _ \<Rightarrow> True))
         else op_ret ())))"

definition sendMessages ::
  "('b, 'r) raft_lib \<Rightarrow> (('b, 'r, 'c) node, 'c) client_iface \<Rightarrow> message list \<Rightarrow> (('b, 'r, 'c) node, unit) op" where
  "sendMessages R I = op_foreach (sendMessage R I)"

definition saveToStorage ::
  "('b, 'r) raft_lib \<Rightarrow> ('b, 'q) db_backend \<Rightarrow> hard_state \<Rightarrow> entry list \<Rightarrow> (('b, 'r, 'c) node, unit) op" where
  "saveToStorage R B hs es =
     op_bind (ignore_err (on_backend (be_AppendEntries B es))) (\<lambda>_.
     if \<not> IsEmptyHardState R hs then ignore_err (on_backend (be_SaveHardState B hs)) else op_ret ())"

text \<open>\<open>panic(err)\<close> when the call failed.\<close>

definition or_panic :: "('s, 'a) op \<Rightarrow> ('s, 'a) op" where
  "or_panic m = op_bind (attempt m) (\<lambda>r. case r of Inl e \<Rightarrow> op_panic e | Inr x \<Rightarrow> op_ret x)"

definition saveSnapshotIfNotEmpty ::
  "('b, 'r) raft_lib \<Rightarrow> ('b, 'q) db_backend \<Rightarrow> snapshot \<Rightarrow> (('b, 'r, 'c) node, u64) op" where
  "saveSnapshotIfNotEmpty R B snap =
     (if IsEmptySnap R snap then op_ret 0 else or_panic (on_backend (be_SaveSnapshot B snap)))"

definition applySnapshotIfNotEmpty ::
  "('b, 'r) raft_lib \<Rightarrow> ('b, 'q) db_backend \<Rightarrow> snapshot \<Rightarrow> u64 \<Rightarrow> (('b, 'r, 'c) node, unit) op" where
  "applySnapshotIfNotEmpty R B snap h =
     (if IsEmptySnap R snap then op_ret ()
      else
        op_bind (or_panic (on_backend (be_ApplySnapshot B snap))) (\<lambda>_.
        op_bind (attempt (on_backend (be_GetAppliedIndex B))) (\<lambda>r. case r of
          Inl e \<Rightarrow>
            op_bind (op_mod (\<lambda>s. s\<lparr>indexAfterAppliedSnapshot := 0\<rparr>)) (\<lambda>_.
            op_panic (EWrap e ''getting applied index after applying snapshot''))
        | Inr applied \<Rightarrow>
            op_bind (op_mod (\<lambda>s. s\<lparr>indexAfterAppliedSnapshot := applied\<rparr>)) (\<lambda>_.
            if h \<noteq> 0 then ignore_err (on_backend (be_RemoveSavedSnapshot B h)) else op_ret ()))))"

text \<open>The body of the loop over \<open>rd.CommittedEntries\<close>.\<close>

definition applyCommitted ::
  "('b, 'r) raft_lib \<Rightarrow> ('b, 'q) db_backend \<Rightarrow> (('b, 'r, 'c) node, 'c) client_iface \<Rightarrow> entry \<Rightarrow>
   (('b, 'r, 'c) node, unit) op" where
  "applyCommitted R B I e =
     op_bind (op_get indexAfterAppliedSnapshot) (\<lambda>snapIdx.
     if Index e \<le> snapIdx then op_ret ()
     else
       op_bind (if EType e = EntryNormal \<and> 0 < length (Data e)
         then ignore_err (processCommittedData R B e) else op_ret ()) (\<lambda>_.
       if EType e = EntryConfChange then
         (let cc = cc_Unmarshal R (Data e) in
          op_bind (attempt (processConfChange R B I cc)) (\<lambda>r. case r of
            Inl _ \<Rightarrow> op_ret ()
          | Inr _ \<Rightarrow>
              op_bind (on_raft (rn_ApplyConfChange R cc)) (\<lambda>state.
              ignore_err (on_backend (be_SaveConfState B state)))))
       else op_ret ()))"

definition handleReady ::
  "('b, 'r) raft_lib \<Rightarrow> ('b, 'q) db_backend \<Rightarrow> (('b, 'r, 'c) node, 'c) client_iface \<Rightarrow> ready \<Rightarrow>
   (('b, 'r, 'c) node, unit) op" where
  "handleReady R B I rd =
     op_bind (saveToStorage R B (rd_HardState rd) (rd_Entries rd)) (\<lambda>_.
     op_bind (saveSnapshotIfNotEmpty R B (rd_Snapshot rd)) (\<lambda>snapHandle.
     op_bind (sendMessages R I (rd_Messages rd)) (\<lambda>_.
     op_bind (applySnapshotIfNotEmpty R B (rd_Snapshot rd) snapHandle) (\<lambda>_.
     op_bind (op_foreach (applyCommitted R B I) (rd_CommittedEntries rd)) (\<lambda>_.
     tell_raft (rn_Advance R))))))"

datatype event = Tick | Ready ready | Done

text \<open>What follows the loop when \<open>done\<close> was received.\<close>

definition shutdown ::
  "('b, 'r) raft_lib \<Rightarrow> ('b, 'q) db_backend \<Rightarrow> (('b, 'r, 'c) node, 'c) client_iface \<Rightarrow> (('b, 'r, 'c) node, unit) op" where
  "shutdown R B I =
     op_bind (ignore_err (pm_Close I)) (\<lambda>_.
     op_bind (op_get (\<lambda>s. cfg_ID (config s))) (\<lambda>i.
     op_bind (UnregisterDestCallback i) (\<lambda>_.
     op_bind (tell_raft (rn_Stop R)) (\<lambda>_.
     op_bind (ignore_err (on_backend (be_Stop B))) (\<lambda>_.
     op_mod (\<lambda>s. s\<lparr>running := False\<rparr>))))))"

text \<open>The loop over the events it receives, up to \<open>done\<close>.\<close>

fun runMainLoop ::
  "('b, 'r) raft_lib \<Rightarrow> ('b, 'q) db_backend \<Rightarrow> (('b, 'r, 'c) node, 'c) client_iface \<Rightarrow> event list \<Rightarrow>
   (('b, 'r, 'c) node, unit) op" where
  "runMainLoop R B I [] = op_ret ()"
| "runMainLoop R B I (Tick # evs) = op_bind (tell_raft (rn_Tick R)) (\<lambda>_. runMainLoop R B I evs)"
| "runMainLoop R B I (Ready rd # evs) = op_bind (handleReady R B I rd) (\<lambda>_. runMainLoop R B I evs)"
| "runMainLoop R B I (Done # evs) = shutdown R B I"

section \<open>Queries and messages\<close>

definition GetID :: "('b, 'r, 'c) node \<Rightarrow> u64" where
  "GetID s = cfg_ID (config s)"

definition zero_status :: raft_status where
  "zero_status = \<lparr>st_ID = 0, st_Applied = 0, st_State = ''StateFollower'', st_Progress = []\<rparr>"

definition RaftStatus :: "('b, 'r) raft_lib \<Rightarrow> ('b, 'r, 'c) node \<Rightarrow> raft_status" where
  "RaftStatus R s = (case raftNode s of None \<Rightarrow> zero_status | Some r \<Rightarrow> rn_Status R r)"

definition GetPeerClients :: "(('b, 'r, 'c) node, 'c list) op" where
  "GetPeerClients = GetAllClients"

definition propose :: "('b, 'r) raft_lib \<Rightarrow> bytes \<Rightarrow> (('b, 'r, 'c) node, unit) op" where
  "propose R d s = (case raftNode s of
      None \<Rightarrow> (Err (ENew ''node not started yet''), s)
    | Some _ \<Rightarrow> op_bind (on_raft (rn_Propose R d)) return_err s)"

definition new_channel :: "(('b, 'r, 'c) node, u64 \<times> chan) op" where
  "new_channel s = (case GetNewChannel (pendingWrites s) of (r, p) \<Rightarrow> (Ok r, s\<lparr>pendingWrites := p\<rparr>))"

definition drop_channel :: "u64 \<Rightarrow> (('b, 'r, 'c) node, unit) op" where
  "drop_channel i = op_mod (\<lambda>s. s\<lparr>pendingWrites := snd (pool_Remove i (pendingWrites s))\<rparr>)"

text \<open>
  \<open>WriteQuery\<close>. What the \<open>select\<close> takes is the argument \<open>sel\<close>: the value received from the channel, or
  \<open>None\<close> for \<open>ctx.Done()\<close>.
\<close>

definition WriteQuery ::
  "('b, 'r) raft_lib \<Rightarrow> (chan \<Rightarrow> goerr option option) \<Rightarrow> string \<Rightarrow> (('b, 'r, 'c) node, unit) op" where
  "WriteQuery R sel sql =
     op_bind new_channel (\<lambda>(chid, ch).
     op_bind (op_get (\<lambda>s. cfg_ID (config s))) (\<lambda>own.
     case wq_Marshal R \<lparr>wq_NodeID = own, wq_QueryID = chid, wq_Sql = sql\<rparr> of
       Inl e \<Rightarrow> op_bind (drop_channel chid) (\<lambda>_. op_err (EWrap e ''marshaling sql %s''))
     | Inr d \<Rightarrow>
         op_bind (attempt (propose R d)) (\<lambda>r. case r of
           Inl e \<Rightarrow> op_bind (drop_channel chid) (\<lambda>_. op_err (EWrap e ''proposing sql %s''))
         | Inr _ \<Rightarrow> (case sel ch of
               Some err \<Rightarrow> return_err err
             | None \<Rightarrow> op_bind (drop_channel chid) (\<lambda>_. op_err ECtx)))))"

definition ReadQuery :: "('b, 'q) db_backend \<Rightarrow> string \<Rightarrow> (('b, 'r, 'c) node, 'q) op" where
  "ReadQuery B sql = on_backend (be_QuerySQL B sql)"

definition HandleRaftMessage :: "('b, 'r) raft_lib \<Rightarrow> message \<Rightarrow> (('b, 'r, 'c) node, unit) op" where
  "HandleRaftMessage R m s = (case raftNode s of
      None \<Rightarrow> (Err (ENew ''raft not node yet set up''), s)
    | Some _ \<Rightarrow> op_bind (on_raft (rn_Step R m)) return_err s)"

definition handleRaftRPC :: "('b, 'r) raft_lib \<Rightarrow> unit \<Rightarrow> message \<Rightarrow> (('b, 'r, 'c) node, unit) op" where
  "handleRaftRPC R cb m = HandleRaftMessage R m"

end
