(* ===== verification/Node_Apply.thy ===== *)
theory Node_Apply
  imports Node Sqlite_Storage
begin

text \<open>
  The node as a replicated state machine: what the main loop makes of the committed entries,
  proved once for any backend that keeps the contract \<open>sql_backend\<close> and any transport whose clients
  leave the node's own fields alone, and instantiated with the SQLite backend and the gRPC clients.
\<close>

section \<open>The transport leaves the node alone\<close>

text \<open>The fields of a node that its transport has no business with.\<close>

definition node_core where
  "node_core s = (backend s, raftNode s, config s, indexAfterAppliedSnapshot s, pendingWrites s, released s,
     isNewCluster s, nodeInfo s, potentialPeers s)"

definition quiet_iface :: "(('b, 'r, 'c) node, 'c) client_iface \<Rightarrow> bool" where
  "quiet_iface I \<longleftrightarrow> (\<forall>a p. leaves (\<lambda>_. True) node_core (ci_factory I a p))
     \<and> (\<forall>c. leaves (\<lambda>_. True) node_core (ci_Close I c))
     \<and> (\<forall>c. leaves (\<lambda>_. True) node_core (ci_GetRemoteID I c))
     \<and> (\<forall>c m. leaves (\<lambda>_. True) node_core (ci_SendRaftMessage I c m))"

lemma node_core_update [simp]:
  "node_core (s\<lparr>faults := fs\<rparr>) = node_core s" "node_core (s\<lparr>peerMap := pm\<rparr>) = node_core s"
  "node_core (s\<lparr>conns_made := n\<rparr>) = node_core s" "node_core (s\<lparr>conns_closed := cs\<rparr>) = node_core s"
  by (simp_all add: node_core_def)

lemma quiet_grpc: "quiet_iface (grpc_iface N :: (('b, 'r, grpc_client) node, grpc_client) client_iface)"
proof -
  have dial: "leaves (\<lambda>_. True) node_core (\<lambda>s. case dial N a p of
      Some e \<Rightarrow> (Err e, s)
    | None \<Rightarrow> (Ok \<lparr>conn = conns_made s, dest_addr = a, dest_port = p\<rparr>, s\<lparr>conns_made := Suc (conns_made s)\<rparr>))"
    for a p
    by (rule leavesI) (simp split: option.splits)
  have new: "leaves (\<lambda>_. True) node_core (NewGRPCClient N a p :: (('b, 'r, grpc_client) node, grpc_client) op)" for a p
    unfolding NewGRPCClient_def by (intro leaves_wrap leaves_sys_call dial) simp_all
  have rpc: "leaves (\<lambda>_. True) node_core (rpc_unit f c :: (('b, 'r, grpc_client) node, unit) op)" for f c
    unfolding rpc_unit_def rpc_def by (intro leaves_sys_call leavesI) (simp_all split: sum.splits option.splits)
  have getid: "leaves (\<lambda>_. True) node_core (grpc_GetRemoteID N c :: (('b, 'r, grpc_client) node, u64) op)" for c
    unfolding grpc_GetRemoteID_def rpc_def by (intro leaves_sys_call leavesI) (simp_all split: sum.splits)
  have send: "leaves (\<lambda>_. True) node_core (grpc_SendRaftMessage N c m :: (('b, 'r, grpc_client) node, unit) op)" for c m
    unfolding grpc_SendRaftMessage_def by (intro leaves_intros rpc)
  have close: "leaves (\<lambda>_. True) node_core (grpc_Close N c :: (('b, 'r, grpc_client) node, unit) op)" for c
    by (rule leavesI) (simp add: grpc_Close_def split: option.splits)
  show ?thesis
    unfolding quiet_iface_def grpc_iface_def by (simp add: new send close getid)
qed

lemma quiet_UpsertPeer: "quiet_iface I \<Longrightarrow> leaves (\<lambda>_. True) node_core (pm_UpsertPeer I p)"
  unfolding pm_UpsertPeer_def CreateClient_def
  by (intro leaves_intros) (simp_all add: quiet_iface_def)

lemma quiet_RemovePeer: "quiet_iface I \<Longrightarrow> leaves (\<lambda>_. True) node_core (pm_RemovePeer I n)"
  unfolding pm_RemovePeer_def by (intro leaves_intros) (simp_all add: quiet_iface_def)

section \<open>Operations that never return an error\<close>

definition never_errs :: "('s, 'a) op \<Rightarrow> bool" where
  "never_errs m \<longleftrightarrow> (\<forall>s e. fst (m s) \<noteq> Err e)"

named_theorems never_errs_intros \<open>rules that an operation does not return an error\<close>

lemma never_errs_simple [never_errs_intros]:
  "never_errs (op_ret x)" "never_errs (op_get g)" "never_errs (op_mod h)" "never_errs (attempt m)"
  "never_errs (on_raft f)" "never_errs (tell_raft k)"
  by (auto simp: never_errs_def op_defs on_raft_def tell_raft_def split: option.splits prod.splits res.splits)

lemma never_errs_bind [never_errs_intros]:
  assumes "never_errs m" and "\<And>x. never_errs (f x)"
  shows "never_errs (op_bind m f)"
  unfolding never_errs_def
proof (intro allI)
  fix s e
  obtain r t where eq: "m s = (r, t)" by fastforce
  have "r \<noteq> Err e'" for e' using assms(1) eq unfolding never_errs_def by (metis fst_conv)
  moreover have "fst (f x t) \<noteq> Err e" for x using assms(2) unfolding never_errs_def by blast
  ultimately show "fst (op_bind m f s) \<noteq> Err e" using eq by (cases r) (auto simp: op_bind_def)
qed

lemma never_errs_ignore [never_errs_intros]: "never_errs (ignore_err m)"
  unfolding ignore_err_def by (intro never_errs_intros)

lemma never_errs_split [never_errs_intros]:
  "never_errs m \<Longrightarrow> never_errs m' \<Longrightarrow> never_errs (if c then m else m')"
  "(\<And>e. never_errs (f e)) \<Longrightarrow> (\<And>x. never_errs (g x)) \<Longrightarrow> never_errs (case r of Inl e \<Rightarrow> f e | Inr x \<Rightarrow> g x)"
  "never_errs m \<Longrightarrow> (\<And>x. never_errs (h x)) \<Longrightarrow> never_errs (case q of None \<Rightarrow> m | Some x \<Rightarrow> h x)"
  by (auto split: sum.splits option.splits)

lemma never_errs_foreach [never_errs_intros]:
  "(\<And>x. never_errs (f x)) \<Longrightarrow> never_errs (op_foreach f xs)"
  by (induction xs) (auto intro: never_errs_intros)

lemma never_errs_saveToStorage: "never_errs (saveToStorage R B hs es)"
  unfolding saveToStorage_def by (intro never_errs_intros)

lemma never_errs_sendMessages: "never_errs (sendMessages R I ms)"
  unfolding sendMessages_def sendMessage_def ClientForPeer_def by (intro never_errs_intros)

lemma leaves_Ok:
  assumes "leaves up v m" and "up s" and "never_errs m"
  shows "\<exists>x s'. m s = (Ok x, s') \<and> up s' \<and> v s' = v s"
proof -
  obtain r s' where eq: "m s = (r, s')" by fastforce
  have "r \<noteq> Err e" for e using assms(3) eq unfolding never_errs_def by (metis fst_conv)
  with leavesD [OF assms(1,2) eq] eq show ?thesis by (cases r) auto
qed

section \<open>The state machine\<close>

text \<open>
  The specification: what one committed entry does to the application's data and to the applied
  index, given the codec of the queries, the engine, and the index of the last snapshot applied.
\<close>

definition sm_step :: "(bytes \<Rightarrow> goerr + write_query) \<Rightarrow> (string \<Rightarrow> 'u \<Rightarrow> goerr option \<times> 'u) \<Rightarrow> u64 \<Rightarrow>
    entry \<Rightarrow> 'u \<times> u64 \<Rightarrow> 'u \<times> u64" where
  "sm_step unm exec snap e = (\<lambda>(u, a).
     if Index e \<le> snap \<or> EType e \<noteq> EntryNormal \<or> Data e = [] then (u, a)
     else (case unm (Data e) of
         Inl _ \<Rightarrow> (u, a)
       | Inr q \<Rightarrow> (case exec (wq_Sql q) u of
             (None, u') \<Rightarrow> (u', Index e)
           | (Some _, u') \<Rightarrow> (u', a))))"

definition sm_run where
  "sm_run unm exec snap es x = fold (sm_step unm exec snap) es x"

lemma on_backend_leaves:
  assumes "leaves up v m" and "up (backend s)" and "on_backend m s = (r, s')"
  shows "(\<forall>e. r \<noteq> Panic e) \<and> up (backend s') \<and> v (backend s') = v (backend s) \<and> raftNode s' = raftNode s
    \<and> config s' = config s \<and> indexAfterAppliedSnapshot s' = indexAfterAppliedSnapshot s"
  using assms leavesD [OF assms(1,2)] by (auto simp: on_backend_def split: prod.splits)

lemma node_coreD:
  assumes "leaves (\<lambda>_. True) node_core m" and "m s = (r, s')"
  shows "(\<forall>e. r \<noteq> Panic e) \<and> backend s' = backend s \<and> raftNode s' = raftNode s \<and> config s' = config s
    \<and> indexAfterAppliedSnapshot s' = indexAfterAppliedSnapshot s \<and> pendingWrites s' = pendingWrites s
    \<and> released s' = released s \<and> isNewCluster s' = isNewCluster s \<and> nodeInfo s' = nodeInfo s
    \<and> potentialPeers s' = potentialPeers s"
  using leavesD [OF assms(1) _ assms(2)] by (auto simp: node_core_def)

text \<open>The committed entries an event brings, and the events without a snapshot and before the stop.\<close>

fun committed_of :: "event \<Rightarrow> entry list" where
  "committed_of (Ready rd) = rd_CommittedEntries rd"
| "committed_of _ = []"

fun plain_event :: "('b, 'r) raft_lib \<Rightarrow> (u64 \<Rightarrow> bool) \<Rightarrow> event \<Rightarrow> bool" where
  "plain_event R st Tick = True"
| "plain_event R st (Ready rd) = (IsEmptySnap R (rd_Snapshot rd)
     \<and> list_all (\<lambda>e. st (Term e) \<and> st (Index e)) (rd_CommittedEntries rd))"
| "plain_event R st Done = False"

context sql_backend
begin

text \<open>The node is operational: its backend is up and its Raft node is set.\<close>

definition node_up :: "('b, 'r, 'c) node \<Rightarrow> bool" where
  "node_up s \<longleftrightarrow> up (backend s) \<and> raftNode s \<noteq> None"

definition node_view :: "('b, 'r, 'c) node \<Rightarrow> ('u \<times> u64) \<times> raft_config \<times> u64" where
  "node_view s = ((data (backend s), applied (backend s)), config s, indexAfterAppliedSnapshot s)"

lemma node_leaves_backend:
  assumes "leaves up (\<lambda>b. (data b, applied b)) m"
  shows "leaves node_up node_view (on_backend m)"
proof (rule leavesI)
  fix s :: "('b, 'r, 'c) node" assume s: "node_up s"
  obtain r s' where eq: "on_backend m s = (r, s')" by fastforce
  from on_backend_leaves [OF assms _ eq] s show "(\<forall>e. fst (on_backend m s) \<noteq> Panic e)
      \<and> node_up (snd (on_backend m s)) \<and> node_view (snd (on_backend m s)) = node_view s"
    unfolding eq by (auto simp: node_up_def node_view_def)
qed

lemma node_leaves_core:
  fixes m :: "(('b, 'r, 'c) node, 'a) op"
  assumes "leaves (\<lambda>_. True) node_core m"
  shows "leaves node_up node_view m"
proof (rule leavesI)
  fix s :: "('b, 'r, 'c) node" assume s: "node_up s"
  obtain r s' where eq: "m s = (r, s')" by fastforce
  from node_coreD [OF assms eq] s show "(\<forall>e. fst (m s) \<noteq> Panic e) \<and> node_up (snd (m s))
      \<and> node_view (snd (m s)) = node_view s"
    unfolding eq by (auto simp: node_up_def node_view_def)
qed

lemma node_leaves_raft: "leaves node_up node_view (on_raft f)"
  by (rule leavesI) (auto simp: on_raft_def node_up_def node_view_def split: option.splits prod.splits)

lemma leaves_processConfChange:
  assumes "quiet_iface I"
  shows "leaves node_up node_view (processConfChange R B I cc)"
  unfolding processConfChange_def Let_def
  by (intro leaves_intros node_leaves_backend upsert_leaves remove_leaves
      node_leaves_core [OF quiet_UpsertPeer [OF assms]] node_leaves_core [OF quiet_RemovePeer [OF assms]])
    (simp_all add: node_up_def node_view_def)

lemma leaves_conf_entry:
  assumes "quiet_iface I"
  shows "leaves node_up node_view (op_bind (attempt (processConfChange R B I cc)) (\<lambda>r. case r of
       Inl _ \<Rightarrow> op_ret ()
     | Inr _ \<Rightarrow> op_bind (on_raft (rn_ApplyConfChange R cc)) (\<lambda>state.
         ignore_err (on_backend (be_SaveConfState B state)))))"
  by (intro leaves_intros leaves_processConfChange [OF assms] node_leaves_raft node_leaves_backend conf_leaves)

text \<open>One committed write: the outcome handed to \<open>release_write\<close> is the engine's error, if any.\<close>

lemma committed_write:
  assumes "node_up s" and "can_store (Term e)" and "can_store (Index e)"
    and "wq_Unmarshal R (Data e) = Inr q" and "exec (wq_Sql q) (data (backend s)) = (err, u)"
    and "\<forall>x. err = Some x \<longrightarrow> db_err x"
  shows "\<exists>b. up b \<and> data b = u \<and> applied b = (if err = None then Index e else applied (backend s))
    \<and> processCommittedData R B e s =
        (if wq_NodeID q = cfg_ID (config s) then release_write (wq_QueryID q) err (s\<lparr>backend := b\<rparr>)
         else (Ok (), s\<lparr>backend := b\<rparr>))"
proof (cases err)
  case None
  from exec_done [of "backend s" "Term e" "Index e" "wq_Sql q" u] assms None
  obtain b where b: "be_ExecSQL B (Term e) (Index e) (wq_Sql q) (backend s) = (Ok (), b)" "up b" "data b = u"
    "applied b = Index e"
    by (auto simp: node_up_def)
  then show ?thesis
    using assms(4) None
    by (intro exI [of _ b]) (simp add: processCommittedData_def op_defs on_backend_def)
next
  case (Some x)
  from exec_refused [of "backend s" "Term e" "Index e" "wq_Sql q" x u] assms Some
  obtain b where b: "be_ExecSQL B (Term e) (Index e) (wq_Sql q) (backend s) = (Err (EDBError x), b)" "up b"
    "data b = u" "applied b = applied (backend s)"
    by (auto simp: node_up_def)
  then show ?thesis
    using assms(4) Some
    by (intro exI [of _ b]) (simp add: processCommittedData_def op_defs on_backend_def)
qed

lemma release_write_Ok:
  "\<exists>s'. release_write i err s = (Ok (), s') \<and> backend s' = backend s \<and> raftNode s' = raftNode s
     \<and> config s' = config s \<and> indexAfterAppliedSnapshot s' = indexAfterAppliedSnapshot s"
  by (auto simp: release_write_def split: prod.splits option.splits)

text \<open>A committed write: the state machine makes its step.\<close>

lemma apply_write:
  assumes "node_up s" and "can_store (Term e)" and "can_store (Index e)"
    and "\<not> Index e \<le> indexAfterAppliedSnapshot s" and "EType e = EntryNormal" and "Data e \<noteq> []"
    and errs: "\<forall>q u x u'. exec q u = (Some x, u') \<longrightarrow> db_err x"
  shows "\<exists>s'. applyCommitted R B I e s = (Ok (), s') \<and> node_up s'
    \<and> node_view s' = (sm_step (wq_Unmarshal R) exec (indexAfterAppliedSnapshot s) e
        (data (backend s), applied (backend s)), config s, indexAfterAppliedSnapshot s)"
proof (cases "wq_Unmarshal R (Data e)")
  case (Inl x)
  then have "ignore_err (processCommittedData R B e) s = (Ok (), s)"
    by (simp add: processCommittedData_def op_defs)
  then show ?thesis
    using Inl assms(1,4-6)
    by (simp add: applyCommitted_def op_bind_def op_get_def op_ret_def sm_step_def node_view_def)
next
  case (Inr q)
  obtain err u where ex: "exec (wq_Sql q) (data (backend s)) = (err, u)" by fastforce
  from committed_write [OF assms(1-3) Inr ex] errs ex
  obtain b where b: "up b" "data b = u" "applied b = (if err = None then Index e else applied (backend s))"
    "processCommittedData R B e s =
      (if wq_NodeID q = cfg_ID (config s) then release_write (wq_QueryID q) err (s\<lparr>backend := b\<rparr>)
       else (Ok (), s\<lparr>backend := b\<rparr>))" by blast
  from release_write_Ok [of "wq_QueryID q" err "s\<lparr>backend := b\<rparr>"]
  obtain s' where s': "processCommittedData R B e s = (Ok (), s')" "backend s' = b" "raftNode s' = raftNode s"
    "config s' = config s" "indexAfterAppliedSnapshot s' = indexAfterAppliedSnapshot s"
    using b(4) by (cases "wq_NodeID q = cfg_ID (config s)") auto
  then have "applyCommitted R B I e s = (Ok (), s')"
    using assms(4-6) by (simp add: applyCommitted_def op_bind_def op_get_def op_ret_def ignore_err_def attempt_def)
  then show ?thesis
    using s' b(1-3) assms(1,4-6) Inr ex by (cases err) (auto simp: sm_step_def node_view_def node_up_def)
qed

text \<open>Any other entry leaves the state machine where it is.\<close>

lemma apply_other:
  assumes "quiet_iface I" and "node_up s"
    and skip: "Index e \<le> indexAfterAppliedSnapshot s \<or> EType e \<noteq> EntryNormal \<or> Data e = []"
  shows "\<exists>s'. applyCommitted R B I e s = (Ok (), s') \<and> node_up s' \<and> node_view s' = node_view s"
proof (cases "EType e = EntryConfChange \<and> \<not> Index e \<le> indexAfterAppliedSnapshot s")
  case True
  let ?cc = "cc_Unmarshal R (Data e)"
  let ?conf = "op_bind (attempt (processConfChange R B I ?cc)) (\<lambda>r. case r of
     Inl _ \<Rightarrow> op_ret ()
   | Inr _ \<Rightarrow> op_bind (on_raft (rn_ApplyConfChange R ?cc)) (\<lambda>state.
       ignore_err (on_backend (be_SaveConfState B state))))"
  obtain r s' where conf: "?conf s = (r, s')" by fastforce
  from leavesD [OF leaves_conf_entry [OF assms(1)] assms(2) conf]
  have "\<forall>x. r \<noteq> Panic x" "node_up s'" "node_view s' = node_view s" by auto
  moreover have "applyCommitted R B I e s = ?conf s"
    using True by (simp add: applyCommitted_def op_bind_get Let_def)
  moreover have "\<forall>x. r \<noteq> Err x"
    using conf by (auto simp: op_defs on_raft_def split: prod.splits res.splits sum.splits option.splits)
  ultimately show ?thesis using conf by (cases r) auto
next
  case False
  then have "applyCommitted R B I e s = (Ok (), s)"
    using skip by (auto simp: applyCommitted_def op_defs)
  then show ?thesis using assms(2) by blast
qed

lemma apply_one:
  assumes "quiet_iface I" and "node_up s" and "can_store (Term e)" and "can_store (Index e)"
    and errs: "\<forall>q u x u'. exec q u = (Some x, u') \<longrightarrow> db_err x"
  shows "\<exists>s'. applyCommitted R B I e s = (Ok (), s') \<and> node_up s'
    \<and> node_view s' = (sm_step (wq_Unmarshal R) exec (indexAfterAppliedSnapshot s) e
        (data (backend s), applied (backend s)), config s, indexAfterAppliedSnapshot s)"
proof (cases "Index e \<le> indexAfterAppliedSnapshot s \<or> EType e \<noteq> EntryNormal \<or> Data e = []")
  case True
  then show ?thesis
    using apply_other [OF assms(1,2) True, of R] by (auto simp: sm_step_def node_view_def)
next
  case False
  then show ?thesis using apply_write [OF assms(2-4) _ _ _ errs] by blast
qed

lemma apply_all:
  assumes "quiet_iface I" and "node_up s" and "list_all (\<lambda>e. can_store (Term e) \<and> can_store (Index e)) es"
    and errs: "\<forall>q u x u'. exec q u = (Some x, u') \<longrightarrow> db_err x"
  shows "\<exists>s'. op_foreach (applyCommitted R B I) es s = (Ok (), s') \<and> node_up s'
    \<and> node_view s' = (sm_run (wq_Unmarshal R) exec (indexAfterAppliedSnapshot s) es
        (data (backend s), applied (backend s)), config s, indexAfterAppliedSnapshot s)"
  using assms(2,3)
proof (induction es arbitrary: s)
  case Nil
  then show ?case by (simp add: op_ret_def sm_run_def node_view_def)
next
  case (Cons e es)
  from apply_one [OF assms(1) Cons.prems(1) _ _ errs] Cons.prems(2)
  obtain s1 where s1: "applyCommitted R B I e s = (Ok (), s1)" "node_up s1"
    "node_view s1 = (sm_step (wq_Unmarshal R) exec (indexAfterAppliedSnapshot s) e
        (data (backend s), applied (backend s)), config s, indexAfterAppliedSnapshot s)" by fastforce
  from Cons.IH [OF s1(2)] Cons.prems(2) s1(1,3) show ?case
    by (auto simp: op_bind_def sm_run_def node_view_def)
qed

text \<open>The rest of a Raft step leaves the state machine alone.\<close>

lemma leaves_saveToStorage: "leaves node_up node_view (saveToStorage R B hs es)"
  unfolding saveToStorage_def
  by (intro leaves_intros node_leaves_backend append_leaves hard_leaves)

lemma leaves_tell_raft: "leaves node_up node_view (tell_raft f)"
  unfolding tell_raft_def by (rule node_leaves_raft)

lemma leaves_sendMessages:
  assumes "quiet_iface I"
  shows "leaves node_up node_view (sendMessages R I ms)"
proof -
  have getid: "leaves (\<lambda>_. True) node_core (grpc_GetRemoteID N c :: (('b, 'r, grpc_client) node, u64) op)" for c
    unfolding grpc_GetRemoteID_def rpc_def by (intro leaves_sys_call leavesI) (simp_all split: sum.splits)
  have send: "leaves node_up node_view (ci_SendRaftMessage I c m)" for c m
    using assms by (intro node_leaves_core) (simp add: quiet_iface_def)
  show ?thesis
    unfolding sendMessages_def sendMessage_def ClientForPeer_def
    by (intro leaves_intros leaves_tell_raft send)
qed

lemma ready_step:
  assumes "quiet_iface I" and "node_up s" and "IsEmptySnap R (rd_Snapshot rd)"
    and "list_all (\<lambda>e. can_store (Term e) \<and> can_store (Index e)) (rd_CommittedEntries rd)"
    and errs: "\<forall>q u x u'. exec q u = (Some x, u') \<longrightarrow> db_err x"
  shows "\<exists>s'. handleReady R B I rd s = (Ok (), s') \<and> node_up s'
    \<and> node_view s' = (sm_run (wq_Unmarshal R) exec (indexAfterAppliedSnapshot s) (rd_CommittedEntries rd)
        (data (backend s), applied (backend s)), config s, indexAfterAppliedSnapshot s)"
proof -
  obtain s1 where s1: "saveToStorage R B (rd_HardState rd) (rd_Entries rd) s = (Ok (), s1)" "node_up s1"
    "node_view s1 = node_view s"
    using leaves_Ok [OF leaves_saveToStorage [of R "rd_HardState rd" "rd_Entries rd"] assms(2)
        never_errs_saveToStorage] by auto
  obtain s2 where s2: "sendMessages R I (rd_Messages rd) s1 = (Ok (), s2)" "node_up s2" "node_view s2 = node_view s1"
    using leaves_Ok [OF leaves_sendMessages [OF assms(1), of R "rd_Messages rd"] s1(2)
        never_errs_sendMessages] by auto
  from apply_all [OF assms(1) s2(2) assms(4) errs, of R]
  obtain s3 where s3: "op_foreach (applyCommitted R B I) (rd_CommittedEntries rd) s2 = (Ok (), s3)" "node_up s3"
    "node_view s3 = (sm_run (wq_Unmarshal R) exec (indexAfterAppliedSnapshot s2) (rd_CommittedEntries rd)
        (data (backend s2), applied (backend s2)), config s2, indexAfterAppliedSnapshot s2)" by blast
  obtain s4 where s4: "tell_raft (rn_Advance R) s3 = (Ok (), s4)" "node_up s4" "node_view s4 = node_view s3"
    using leaves_Ok [OF leaves_tell_raft [of "rn_Advance R"] s3(2) never_errs_simple(6)] by auto
  show ?thesis
    using s1 s2 s3 s4 assms(3)
    by (simp add: handleReady_def op_bind_def saveSnapshotIfNotEmpty_def applySnapshotIfNotEmpty_def op_ret_def
        node_view_def)
qed

lemma main_loop_run:
  assumes "quiet_iface I" and "node_up s" and "list_all (plain_event R can_store) evs"
    and errs: "\<forall>q u x u'. exec q u = (Some x, u') \<longrightarrow> db_err x"
  shows "\<exists>s'. runMainLoop R B I evs s = (Ok (), s') \<and> node_up s'
    \<and> node_view s' = (sm_run (wq_Unmarshal R) exec (indexAfterAppliedSnapshot s) (concat (map committed_of evs))
        (data (backend s), applied (backend s)), config s, indexAfterAppliedSnapshot s)"
  using assms(2,3)
proof (induction evs arbitrary: s)
  case Nil
  then show ?case by (simp add: op_ret_def sm_run_def node_view_def)
next
  case (Cons ev evs)
  have "\<exists>s1. runMainLoop R B I (ev # evs) s = runMainLoop R B I evs s1 \<and> node_up s1
    \<and> node_view s1 = (sm_run (wq_Unmarshal R) exec (indexAfterAppliedSnapshot s) (committed_of ev)
        (data (backend s), applied (backend s)), config s, indexAfterAppliedSnapshot s)"
  proof (cases ev)
    case Tick
    then show ?thesis
      using leaves_Ok [OF leaves_tell_raft [of "rn_Tick R"] Cons.prems(1) never_errs_simple(6)]
      by (auto simp: op_bind_def sm_run_def node_view_def)
  next
    case (Ready rd)
    then show ?thesis
      using ready_step [OF assms(1) Cons.prems(1) _ _ errs, of R rd] Cons.prems(2)
      by (auto simp: op_bind_def)
  qed (use Cons.prems in simp)
  then obtain s1 where s1: "runMainLoop R B I (ev # evs) s = runMainLoop R B I evs s1" "node_up s1"
    "node_view s1 = (sm_run (wq_Unmarshal R) exec (indexAfterAppliedSnapshot s) (committed_of ev)
        (data (backend s), applied (backend s)), config s, indexAfterAppliedSnapshot s)" by blast
  from Cons.IH [OF s1(2)] Cons.prems(2) s1(1,3) show ?case
    by (auto simp: sm_run_def node_view_def)
qed

end

section \<open>The SQLite node\<close>

text \<open>A Raft library and codecs for the evaluations: a query is coded as its SQL text, of node 1, query 1.\<close>

definition demo_raft :: "(string list sqlite, nat) raft_lib" where
  "demo_raft = \<lparr>StartNode = (\<lambda>c ps b. 0), RestartNode = (\<lambda>c b. 0), rn_Tick = Suc, rn_Propose = (\<lambda>d r. (None, r)),
     rn_ProposeConfChange = (\<lambda>c r. (None, r)), rn_ApplyConfChange = (\<lambda>c r. (demo_conf, r)),
     rn_Step = (\<lambda>m r. (None, r)), rn_ReportUnreachable = (\<lambda>i r. r), rn_ReportSnapshot = (\<lambda>i b r. r),
     rn_Advance = (\<lambda>r. r), rn_Stop = (\<lambda>r. r), rn_Status = (\<lambda>r. zero_status),
     IsEmptySnap = (\<lambda>s. SMIndex (Metadata s) = 0), IsEmptyHardState = (\<lambda>h. h = zero_hard_state),
     cc_Unmarshal = (\<lambda>b. \<lparr>ccID = 2, ccType = ConfChangeAddNode, ccNodeID = 2, ccContext = b\<rparr>),
     wq_Marshal = (\<lambda>q. Inr (wq_Sql q)),
     wq_Unmarshal = (\<lambda>b. Inr \<lparr>wq_NodeID = 1, wq_QueryID = 1, wq_Sql = b\<rparr>),
     json_Marshal = (\<lambda>i. Inr (ni_Addr i)), json_Unmarshal = (\<lambda>b. Inr \<lparr>ni_Addr = b, ni_Port = ''10''\<rparr>),
     driver_text = (\<lambda>_. [])\<rparr>"

definition demo_node :: "(string list sqlite, nat, grpc_client) node" where
  "demo_node = (node_New \<lparr>np_NodeID = 1, np_AddrPort = \<lparr>ni_Addr = ''a'', ni_Port = ''10''\<rparr>,
     np_IsNewCluster = True, np_PotentialPeers = []\<rparr> demo_transport (demo_sqlite 0 [] []))\<lparr>raftNode := Some 0\<rparr>"

lemma demo_node_simps [simp]:
  "backend demo_node = demo_sqlite 0 [] []" "raftNode demo_node = Some 0" "indexAfterAppliedSnapshot demo_node = 0"
  "cfg_ID (config demo_node) = 1" "pendingWrites demo_node = NewChannelPool" "released demo_node = []"
  by (simp_all add: demo_node_def node_New_def)

lemma demo_raft_simps [simp]:
  "wq_Unmarshal demo_raft b = Inr \<lparr>wq_NodeID = 1, wq_QueryID = 1, wq_Sql = b\<rparr>"
  "IsEmptySnap demo_raft sn = (SMIndex (Metadata sn) = 0)"
  by (simp_all add: demo_raft_def)

definition demo_ready :: "entry list \<Rightarrow> ready" where
  "demo_ready es = \<lparr>rd_HardState = zero_hard_state, rd_Entries = [], rd_Snapshot = zero_snapshot, rd_Messages = [],
     rd_CommittedEntries = es\<rparr>"

lemma sqlite_main_loop:
  fixes s :: "('u sqlite, 'r, grpc_client) node"
  assumes "sq_ready (backend s)" and "raftNode s \<noteq> None" and "list_all (plain_event R small) evs"
    and "\<forall>q u e u'. user_exec X q u = (Some e, u') \<longrightarrow> is_sqlite_error e"
  shows "\<exists>s'. runMainLoop R (sqlite_backend X) (grpc_iface N) evs s = (Ok (), s')
    \<and> sq_ready (backend s') \<and> raftNode s' \<noteq> None
    \<and> (user_db (backend s'), sq_applied (backend s')) =
        sm_run (wq_Unmarshal R) (user_exec X) (indexAfterAppliedSnapshot s) (concat (map committed_of evs))
          (user_db (backend s), sq_applied (backend s))"
  using sqlite_sql.main_loop_run [OF quiet_grpc _ assms(3,4), of s N] assms(1,2)
  by (auto simp: sqlite_sql.node_up_def sqlite_sql.node_view_def)


text \<open>An engine that answers with its own errors only.\<close>

definition strict_engine :: "(string list, nat) sqlite_engine" where
  "strict_engine = demo_engine\<lparr>user_exec := (\<lambda>q u. if q = ''bad'' then (Some (ESqlite 1), u) else (None, u @ [q]))\<rparr>"

lemma strict_engine_errs: "\<forall>q u e u'. user_exec strict_engine q u = (Some e, u') \<longrightarrow> is_sqlite_error e"
  by (auto simp: strict_engine_def is_sqlite_error_def)

lemma demo_node_ready: "sq_ready (backend demo_node)" "raftNode demo_node \<noteq> None"
  by (simp_all add: demo_sqlite_ready)


text \<open>
  Replicas agree: two nodes with SQLite backends that start from the same data, applied
  index and snapshot index and are handed the same committed entries hold the same data and the
  same applied index afterwards, however the entries were split into steps and whatever else
  (ticks, messages, other stubs and Raft states) the two runs contained.
\<close>

theorem replicas_agree:
  fixes s1 :: "('u sqlite, 'r, grpc_client) node" and s2 :: "('u sqlite, 'r2, grpc_client) node"
  assumes "sq_ready (backend s1)" and "raftNode s1 \<noteq> None" and "list_all (plain_event R1 small) evs1"
    and "sq_ready (backend s2)" and "raftNode s2 \<noteq> None" and "list_all (plain_event R2 small) evs2"
    and "\<forall>q u e u'. user_exec X q u = (Some e, u') \<longrightarrow> is_sqlite_error e"
    and "wq_Unmarshal R1 = wq_Unmarshal R2"
    and "indexAfterAppliedSnapshot s1 = indexAfterAppliedSnapshot s2"
    and "user_db (backend s1) = user_db (backend s2)" and "sq_applied (backend s1) = sq_applied (backend s2)"
    and "concat (map committed_of evs1) = concat (map committed_of evs2)"
  shows "let t1 = snd (runMainLoop R1 (sqlite_backend X) (grpc_iface N1) evs1 s1);
             t2 = snd (runMainLoop R2 (sqlite_backend X) (grpc_iface N2) evs2 s2)
    in user_db (backend t1) = user_db (backend t2) \<and> sq_applied (backend t1) = sq_applied (backend t2)"
  using sqlite_main_loop [OF assms(1-3,7), of N1] sqlite_main_loop [OF assms(4-7), of N2] assms(8-12)
  by (auto simp: Let_def) (metis Pair_inject)+

lemma replicas_agree_witness:
  "user_db (backend (snd (runMainLoop demo_raft (sqlite_backend strict_engine) (grpc_iface demo_stubs)
      [Ready (demo_ready [demo_entry 1 1 ''x'', demo_entry 1 2 ''y''])] demo_node))) =
   user_db (backend (snd (runMainLoop demo_raft (sqlite_backend strict_engine) (grpc_iface demo_stubs)
      [Ready (demo_ready [demo_entry 1 1 ''x'']), Tick, Ready (demo_ready [demo_entry 1 2 ''y''])] demo_node)))"
proof -
  let ?a = "[Ready (demo_ready [demo_entry 1 1 ''x'', demo_entry 1 2 ''y''])]"
  let ?b = "[Ready (demo_ready [demo_entry 1 1 ''x'']), Tick, Ready (demo_ready [demo_entry 1 2 ''y''])]"
  have "list_all (plain_event demo_raft small) ?a" "list_all (plain_event demo_raft small) ?b"
    "concat (map committed_of ?a) = concat (map committed_of ?b)"
    by (simp_all add: demo_ready_def zero_snapshot_def demo_entry_def small_def)
  from replicas_agree [OF demo_node_ready this(1) demo_node_ready this(2) strict_engine_errs refl refl refl refl this(3)]
  show ?thesis unfolding Let_def by blast
qed

end
