(* ===== verification/Node_Control.thy ===== *)
theory Node_Control
  imports Node_Apply
begin

text \<open>
  What a node does around the state machine: releasing the callers of committed writes, starting its
  backend with retries, starting a new cluster, following membership changes, applying snapshots, and
  what happens to failures of the backend.
\<close>

section \<open>Releasing committed writes\<close>

text \<open>
  A committed write of this node releases exactly its caller: when an entry is applied on a
  SQLite backend, the channel pending under the query's ID, if the query is this node's, receives the
  engine's verdict (nil, or the cause of the database error) and is no longer pending; a query of
  another node, or one that is not pending here, releases nobody; all other pending writes stay.
\<close>

theorem committed_write_released:
  fixes s :: "('u sqlite, 'r, 'c) node"
  assumes "sq_ready (backend s)" and "raftNode s \<noteq> None" and "small (Term e)" and "small (Index e)"
    and "wq_Unmarshal R (Data e) = Inr q"
    and "\<forall>x. fst (user_exec X (wq_Sql q) (user_db (backend s))) = Some x \<longrightarrow> is_sqlite_error x"
  shows "let (r, s') = processCommittedData R (sqlite_backend X) e s;
             own = (wq_NodeID q = GetID s); i = wq_QueryID q
    in r = Ok ()
     \<and> released s' = released s @ (case pending (pendingWrites s) i of
           Some ch \<Rightarrow> if own then [(ch, fst (user_exec X (wq_Sql q) (user_db (backend s))))] else []
         | None \<Rightarrow> [])
     \<and> pending (pendingWrites s') = (if own then (pending (pendingWrites s))(i := None) else pending (pendingWrites s))"
proof -
  obtain err u where ex: "user_exec X (wq_Sql q) (user_db (backend s)) = (err, u)" by fastforce
  have up: "sqlite_sql.node_up s" using assms(1,2) by (simp add: sqlite_sql.node_up_def)
  from sqlite_sql.committed_write [OF up assms(3-5) ex] assms(6) ex
  obtain b where "processCommittedData R (sqlite_backend X) e s =
      (if wq_NodeID q = cfg_ID (config s) then release_write (wq_QueryID q) err (s\<lparr>backend := b\<rparr>)
       else (Ok (), s\<lparr>backend := b\<rparr>))" by auto
  then show ?thesis
    using ex by (auto simp: GetID_def release_write_def pool_Remove_def Let_def split: option.splits)
qed

lemma committed_write_released_witness:
  "let s = demo_node\<lparr>pendingWrites := snd (GetNewChannel NewChannelPool)\<rparr>
   in released (snd (processCommittedData demo_raft (sqlite_backend strict_engine) (demo_entry 1 1 ''x'') s)) = [(0, None)]"
proof -
  let ?s = "demo_node\<lparr>pendingWrites := snd (GetNewChannel NewChannelPool)\<rparr>"
  have e: "small (Term (demo_entry 1 1 ''x''))" "small (Index (demo_entry 1 1 ''x''))"
    "wq_Unmarshal demo_raft (Data (demo_entry 1 1 ''x'')) = Inr \<lparr>wq_NodeID = 1, wq_QueryID = 1, wq_Sql = ''x''\<rparr>"
    by (simp_all add: demo_entry_def small_def)
  have "sq_ready (backend ?s)" "raftNode ?s \<noteq> None" by (simp_all add: demo_sqlite_ready)
  from committed_write_released [OF this e, of strict_engine] show ?thesis
    by (auto simp: Let_def strict_engine_def GetID_def GetNewChannel_def NewChannelPool_def split: prod.splits)
qed

section \<open>Failures of the backend\<close>

text \<open>
  C32. A committed write that fails for another reason than the database's verdict is lost on this
  node: when \<open>ExecSQL\<close> returns an error that is not a \<open>DBError\<close>, the main loop goes on to the next
  entry; nothing is retried, no caller is released, and the write's channel stays pending.
\<close>

theorem failed_execution_is_skipped:
  assumes "be_ExecSQL B (Term e) (Index e) (wq_Sql q) (backend s) = (Err err, b)" and "\<forall>x. err \<noteq> EDBError x"
    and "wq_Unmarshal R (Data e) = Inr q" and "indexAfterAppliedSnapshot s < Index e"
    and "EType e = EntryNormal" and "Data e \<noteq> []"
  shows "op_foreach (applyCommitted R B I) (e # es) s = op_foreach (applyCommitted R B I) es (s\<lparr>backend := b\<rparr>)"
proof -
  have "processCommittedData R B e s = (Err err, s\<lparr>backend := b\<rparr>)"
    using assms(1-3) by (cases err) (simp_all add: processCommittedData_def op_defs on_backend_def)
  then have "ignore_err (processCommittedData R B e) s = (Ok (), s\<lparr>backend := b\<rparr>)"
    by (simp add: ignore_err_def op_defs)
  moreover have "\<not> Index e \<le> indexAfterAppliedSnapshot s" using assms(4) by (simp add: not_le)
  ultimately have "applyCommitted R B I e s = (Ok (), s\<lparr>backend := b\<rparr>)"
    using assms(5,6) by (simp add: applyCommitted_def op_bind_def op_get_def op_ret_def)
  then show ?thesis by (simp add: op_bind_def)
qed

lemma failed_execution_is_skipped_witness:
  "op_foreach (applyCommitted demo_raft (sqlite_backend demo_engine) (grpc_iface demo_stubs))
     [demo_entry 1 1 ''lost''] demo_node = (Ok (), demo_node\<lparr>backend := demo_sqlite 0 [] []\<rparr>)"
proof -
  let ?b = "demo_sqlite 0 [] []"
  have "sqlite_ExecSQL demo_engine 1 1 ''lost'' ?b = (Err (EDriver ''connection lost''), ?b)"
    by (simp add: sqlite_ExecSQL_def op_defs with_db_def with_handle_def sys_call_def run_user_def demo_engine_def
        demo_exec_def demo_sqlite_def)
  then have "be_ExecSQL (sqlite_backend demo_engine) (Term (demo_entry 1 1 ''lost'')) (Index (demo_entry 1 1 ''lost''))
      (wq_Sql \<lparr>wq_NodeID = 1, wq_QueryID = 1, wq_Sql = ''lost''\<rparr>) (backend demo_node) = (Err (EDriver ''connection lost''), ?b)"
    by (simp add: sqlite_backend_def demo_entry_def)
  from failed_execution_is_skipped [OF this, of demo_raft "grpc_iface demo_stubs" "[]"] show ?thesis
    by (simp add: demo_entry_def op_ret_def)
qed

text \<open>
  A failure to store the log does not stop the node: when \<open>AppendEntries\<close> fails, \<open>handleReady\<close>
  saves the hard state, sends the step's messages and acknowledges the step as if the entries were
  stored.
\<close>

theorem failed_append_is_ignored:
  assumes "be_AppendEntries B (rd_Entries rd) (backend s) = (Err err, b)"
  shows "handleReady R B I rd s = handleReady R (B\<lparr>be_AppendEntries := (\<lambda>es. op_ret ())\<rparr>) I rd (s\<lparr>backend := b\<rparr>)"
proof -
  let ?B = "B\<lparr>be_AppendEntries := (\<lambda>es. op_ret ())\<rparr>"
  have same: "be_ExecSQL ?B = be_ExecSQL B" "be_SaveConfState ?B = be_SaveConfState B" "be_UpsertPeer ?B = be_UpsertPeer B"
    "be_RemovePeer ?B = be_RemovePeer B" "be_SaveSnapshot ?B = be_SaveSnapshot B" "be_ApplySnapshot ?B = be_ApplySnapshot B"
    "be_GetAppliedIndex ?B = be_GetAppliedIndex B" "be_RemoveSavedSnapshot ?B = be_RemoveSavedSnapshot B"
    "be_SaveHardState ?B = be_SaveHardState B"
    by simp_all
  have rest: "applyCommitted R ?B I = applyCommitted R B I" "saveSnapshotIfNotEmpty R ?B = saveSnapshotIfNotEmpty R B"
    "applySnapshotIfNotEmpty R ?B = applySnapshotIfNotEmpty R B"
    unfolding fun_eq_iff applyCommitted_def processCommittedData_def processConfChange_def
      saveSnapshotIfNotEmpty_def applySnapshotIfNotEmpty_def same by simp_all
  have "saveToStorage R B hs (rd_Entries rd) s = saveToStorage R ?B hs (rd_Entries rd) (s\<lparr>backend := b\<rparr>)" for hs
    using assms by (simp add: saveToStorage_def op_bind_def ignore_err_def attempt_def on_backend_def op_ret_def)
  then show ?thesis unfolding handleReady_def rest by (simp add: op_bind_def)
qed

lemma failed_append_is_ignored_witness:
  "let s = demo_node\<lparr>backend := (demo_sqlite 0 [] [])\<lparr>raftdb := HClosed\<rparr>\<rparr>;
       rd = (demo_ready [])\<lparr>rd_Entries := [demo_entry 1 1 ''x'']\<rparr>
   in fst (handleReady demo_raft (sqlite_backend strict_engine) (grpc_iface demo_stubs) rd s) = Ok ()"
proof -
  let ?b = "(demo_sqlite 0 [] [])\<lparr>raftdb := HClosed\<rparr>"
  let ?s = "demo_node\<lparr>backend := ?b\<rparr>" and ?rd = "(demo_ready [])\<lparr>rd_Entries := [demo_entry 1 1 ''x'']\<rparr>"
  have "be_AppendEntries (sqlite_backend strict_engine) (rd_Entries ?rd) (backend ?s) =
      (Err (EWrap db_closed ''appending raft entries''), ?b)"
    by (simp add: sqlite_backend_def sqlite_AppendEntries_def sqlite_appendEntry_def sqlite_tryInsert_def
        insert_or_truncate_def op_defs with_db_def with_handle_def db_closed_def)
  note eq = failed_append_is_ignored [OF this, of demo_raft "grpc_iface demo_stubs"]
  show ?thesis
    unfolding Let_def eq by (simp add: handleReady_def saveToStorage_def op_defs on_backend_def demo_ready_def zero_snapshot_def
        saveSnapshotIfNotEmpty_def applySnapshotIfNotEmpty_def sendMessages_def tell_raft_def on_raft_def
        demo_raft_def)
qed

section \<open>Starting the backend\<close>

text \<open>The waits of the retry loop, in seconds.\<close>

definition backoff :: "nat list" where
  "backoff = [1, 2, 4, 8, 16, 30, 30, 30, 30, 30]"

text \<open>The backend's successive states under attempts that are refused.\<close>

fun refused_starts :: "('b, 'q) db_backend \<Rightarrow> (goerr \<Rightarrow> bool) \<Rightarrow> nat \<Rightarrow> 'b \<Rightarrow> 'b \<Rightarrow> bool" where
  "refused_starts B refused 0 b b' = (b' = b)"
| "refused_starts B refused (Suc k) b b' =
     (\<exists>e b1. be_Start B b = (Err e, b1) \<and> refused e \<and> refused_starts B refused k b1 b')"

fun delays :: "nat \<Rightarrow> nat \<Rightarrow> nat list" where
  "delays 0 d = []"
| "delays (Suc k) d = d # delays k (if d * 2 > 30 then 30 else d * 2)"

lemma retry_skips:
  assumes "refused_starts B (\<lambda>e. isConnectionRefusedError (driver_text R) (Some e)) k (backend s) b"
    and "\<forall>i. \<not> cancelled i"
  shows "\<exists>d e'. retry_loop R B cancelled (k + n) d0 e s =
      retry_loop R B cancelled n d e' (s\<lparr>backend := b, slept := slept s @ delays k d0\<rparr>)
    \<and> (if k = 0 then e' = e else isConnectionRefusedError (driver_text R) (Some e'))"
  using assms(1)
proof (induction k arbitrary: s d0 e)
  case 0
  then show ?case by (intro exI [of _ d0] exI [of _ e]) simp
next
  case (Suc k)
  then obtain x b1 where st: "be_Start B (backend s) = (Err x, b1)"
    "isConnectionRefusedError (driver_text R) (Some x)"
    "refused_starts B (\<lambda>e. isConnectionRefusedError (driver_text R) (Some e)) k b1 b" by auto
  let ?d = "if d0 * 2 > 30 then 30 else d0 * 2"
  let ?s = "s\<lparr>backend := b1, slept := slept s @ [d0]\<rparr>"
  have "retry_loop R B cancelled (Suc k + n) d0 e s = retry_loop R B cancelled (k + n) ?d x ?s"
    using st(1,2) assms(2) by (simp add: op_defs on_backend_def)
  moreover from Suc.IH [of ?s ?d x] st(3)
  obtain d e' where "retry_loop R B cancelled (k + n) ?d x ?s =
      retry_loop R B cancelled n d e' (?s\<lparr>backend := b, slept := slept ?s @ delays k ?d\<rparr>)"
    "if k = 0 then e' = x else isConnectionRefusedError (driver_text R) (Some e')" by auto
  ultimately show ?case
    using st(2) by (intro exI [of _ d] exI [of _ e']) (cases "k = 0", simp_all del: retry_loop.simps)
qed

lemma delays_take: "k \<le> n \<Longrightarrow> delays k d = take k (delays n d)"
proof (induction k arbitrary: n d)
  case (Suc k)
  then obtain m where m: "n = Suc m" "k \<le> m" by (cases n) auto
  with Suc.IH show ?case by simp
qed simp

lemma delays_backoff: "k \<le> 10 \<Longrightarrow> delays k 1 = take k backoff"
proof -
  assume "k \<le> 10"
  moreover have "delays 10 1 = backoff" by (simp add: backoff_def numeral_eq_Suc)
  ultimately show ?thesis using delays_take [of k 10 1] by simp
qed

text \<open>
  C25. Starting the backend: with \<open>k\<close> attempts refused by the database, the next attempt decides. For
  \<open>k < 10\<close>, a success returns and any other error is reported at once; after 10 refusals the last
  error is reported. In between the node has waited 1, 2, 4, 8, 16, 30, 30, 30, 30 and 30 seconds,
  the wait after the last attempt included, and no more than ten attempts are made.
\<close>

theorem startBackend_retries:
  assumes "refused_starts B (\<lambda>e. isConnectionRefusedError (driver_text R) (Some e)) k (backend s) b"
    and "\<forall>i. \<not> cancelled i" and "k \<le> 10"
  shows "let s' = s\<lparr>backend := b, slept := slept s @ take k backoff\<rparr> in
     (k < 10 \<longrightarrow> (case be_Start B b of
         (Ok _, b') \<Rightarrow> startBackendWithRetry R B cancelled s = (Ok (), s'\<lparr>backend := b'\<rparr>)
       | (Err e, b') \<Rightarrow> isConnectionRefusedError (driver_text R) (Some e)
           \<or> startBackendWithRetry R B cancelled s = (Err (EWrap e ''starting backend''), s'\<lparr>backend := b'\<rparr>)
       | (Panic e, b') \<Rightarrow> startBackendWithRetry R B cancelled s = (Panic e, s'\<lparr>backend := b'\<rparr>)))
     \<and> (k = 10 \<longrightarrow> (\<exists>e. isConnectionRefusedError (driver_text R) (Some e)
         \<and> startBackendWithRetry R B cancelled s = (Err (EWrap e ''starting backend after %d attempts''), s')))"
proof -
  let ?s' = "s\<lparr>backend := b, slept := slept s @ take k backoff\<rparr>"
  from retry_skips [OF assms(1,2), of "10 - k" 1 "ENew []"]
  obtain d e' where "retry_loop R B cancelled (k + (10 - k)) 1 (ENew []) s = retry_loop R B cancelled (10 - k) d e'
      (s\<lparr>backend := b, slept := slept s @ delays k 1\<rparr>)"
    and last: "if k = 0 then e' = ENew [] else isConnectionRefusedError (driver_text R) (Some e')"
    by blast
  then have run: "startBackendWithRetry R B cancelled s = retry_loop R B cancelled (10 - k) d e' ?s'"
    using assms(3) unfolding startBackendWithRetry_def delays_backoff [OF assms(3)] by simp
  show ?thesis
  proof (cases "k < 10")
    case True
    then obtain m where "10 - k = Suc m" by (metis Suc_diff_Suc)
    with run have once: "startBackendWithRetry R B cancelled s = retry_loop R B cancelled (Suc m) d e' ?s'" by simp
    obtain r b' where st: "be_Start B b = (r, b')" by fastforce
    show ?thesis
    proof (cases r)
      case (Err e)
      then show ?thesis
        using once st True
        by (cases "isConnectionRefusedError (driver_text R) (Some e)") (simp_all add: Let_def op_defs on_backend_def)
    qed (use once st True in \<open>simp_all add: Let_def op_defs on_backend_def\<close>)
  next
    case False
    then have "k = 10" using assms(3) by simp
    then show ?thesis using run last by (simp add: Let_def op_err_def)
  qed
qed

lemma startBackend_retries_witness:
  "let B = (sqlite_backend strict_engine)\<lparr>be_Start := (\<lambda>b. (Err (EOpError (Some EConnRefused)), b))\<rparr>
   in \<exists>s'. startBackendWithRetry demo_raft B (\<lambda>_. False) demo_node =
       (Err (EWrap (EOpError (Some EConnRefused)) ''starting backend after %d attempts''), s') \<and> slept s' = backoff"
proof -
  let ?B = "(sqlite_backend strict_engine)\<lparr>be_Start := (\<lambda>b. (Err (EOpError (Some EConnRefused)), b))\<rparr>"
  have "refused_starts ?B (\<lambda>e. isConnectionRefusedError (driver_text demo_raft) (Some e)) k b b" for k b
    by (induction k) (simp_all add: isConnectionRefusedError_def)
  from startBackend_retries [OF this, of "\<lambda>_. False" 10 demo_node]
  obtain e where e: "startBackendWithRetry demo_raft ?B (\<lambda>_. False) demo_node =
      (Err (EWrap e ''starting backend after %d attempts''),
       demo_node\<lparr>backend := backend demo_node, slept := slept demo_node @ take 10 backoff\<rparr>)"
    by (auto simp: Let_def)
  moreover have "e = EOpError (Some EConnRefused)"
    using e by (simp add: startBackendWithRetry_def numeral_eq_Suc op_defs on_backend_def isConnectionRefusedError_def)
  moreover have "slept demo_node = []" by (simp add: demo_node_def node_New_def)
  ultimately show ?thesis by (auto simp: Let_def backoff_def)
qed

lemma is_refused_wraps: "is_refused (fold (\<lambda>m e. EWrap e m) ms e) = is_refused e"
  by (induction ms arbitrary: e) simp_all

text \<open>
  Only refused connections are retried: an error counts as refused when the chain of wrapped
  errors ends in \<open>ECONNREFUSED\<close>, directly or inside a network error, at any depth of wrapping, or
  when its text contains the words; a database error with another text is not.
\<close>

theorem connection_refused_detected:
  "isConnectionRefusedError drv (Some (fold (\<lambda>m e. EWrap e m) ms EConnRefused))
   \<and> isConnectionRefusedError drv (Some (fold (\<lambda>m e. EWrap e m) ms (EOpError (Some EConnRefused))))
   \<and> isConnectionRefusedError drv (Some (ENew ''dial tcp 127.0.0.1:3306: Connection Refused''))
   \<and> \<not> isConnectionRefusedError drv None
   \<and> \<not> isConnectionRefusedError drv (Some (EDriver ''access denied''))"
  by (simp add: isConnectionRefusedError_def is_refused_wraps to_lower_def char_of_def bit_0)

section \<open>Starting a new cluster\<close>

text \<open>Discovery keeps the node's own fields and, when the address can be marshalled, returns.\<close>

lemma discoverPeer_Ok:
  assumes "quiet_iface I" and "json_Marshal R (nodeInfo s) = Inr jb"
  shows "\<exists>x s'. discoverPeer R I p s = (Ok x, s') \<and> node_core s' = node_core s"
proof -
  have ups: "leaves (\<lambda>_. True) node_core (pm_UpsertPeer I q)" for q using assms(1) by (rule quiet_UpsertPeer)
  have one: "leaves (\<lambda>_. True) node_core (CreateClient I (ni_Addr p) (ni_Port p))"
    "leaves (\<lambda>_. True) node_core (ci_GetRemoteID I c)" for c
    using assms(1) by (simp_all add: quiet_iface_def CreateClient_def)
  obtain r1 s1 where s1: "attempt (CreateClient I (ni_Addr p) (ni_Port p)) s = (Ok r1, s1)" "node_core s1 = node_core s"
    using leaves_Ok [OF leaves_attempt [OF one(1)] TrueI never_errs_simple(4)] by blast
  show ?thesis
  proof (cases r1)
    case (Inr c)
    obtain r2 s2 where s2: "attempt (ci_GetRemoteID I c) s1 = (Ok r2, s2)" "node_core s2 = node_core s1"
      using leaves_Ok [OF leaves_attempt [OF one(2)] TrueI never_errs_simple(4)] by blast
    then have own: "nodeInfo s2 = nodeInfo s" using s1(2) by (simp add: node_core_def)
    show ?thesis
    proof (cases r2)
      case i: (Inr i)
      let ?q = "\<lparr>NodeID = i, Addr = ni_Addr p, Port = ni_Port p\<rparr>"
      obtain s3 where "ignore_err (pm_UpsertPeer I ?q) s2 = (Ok (), s3)" "node_core s3 = node_core s2"
        using leaves_Ok [OF leaves_ignore [OF ups [of ?q]] TrueI never_errs_ignore] by auto
      then show ?thesis
        using s1 s2 own assms(2) Inr i by (simp add: discoverPeer_def op_bind_def op_get_def op_ret_def attempt_def)
    qed (use s1 s2 Inr in \<open>auto simp: discoverPeer_def op_bind_def op_ret_def simp del: attempt_Ok_Inr_iff\<close>)
  qed (use s1 in \<open>auto simp: discoverPeer_def op_bind_def op_ret_def simp del: attempt_Ok_Inr_iff\<close>)
qed

lemma discover_Ok:
  assumes "quiet_iface I"
  shows "json_Marshal R (nodeInfo s) = Inr jb \<Longrightarrow>
    \<exists>x s'. discoverPotentialPeers R I ps s = (Ok x, s') \<and> node_core s' = node_core s"
proof (induction ps arbitrary: s)
  case Nil
  then show ?case by (simp add: op_ret_def)
next
  case (Cons p ps)
  from discoverPeer_Ok [OF assms Cons.prems]
  obtain found c s1 where s1: "discoverPeer R I p s = (Ok (found, c), s1)" "node_core s1 = node_core s" by fastforce
  then have "json_Marshal R (nodeInfo s1) = Inr jb" using Cons.prems by (simp add: node_core_def)
  from Cons.IH [OF this] obtain rs s2 where
    s2: "discoverPotentialPeers R I ps s1 = (Ok rs, s2)" "node_core s2 = node_core s1" by blast
  have "leaves (\<lambda>_. True) node_core (ci_Close I cl)" for cl using assms by (simp add: quiet_iface_def)
  then have "leaves (\<lambda>_. True) node_core (case c of None \<Rightarrow> op_ret () | Some cl \<Rightarrow> ignore_err (ci_Close I cl))"
    by (intro leaves_intros)
  from leaves_Ok [OF this TrueI never_errs_split(3) [OF never_errs_simple(1) never_errs_ignore]]
  obtain s3 where "(case c of None \<Rightarrow> op_ret () | Some cl \<Rightarrow> ignore_err (ci_Close I cl)) s2 = (Ok (), s3)"
    "node_core s3 = node_core s2" by auto
  then show ?case using s1 s2 by (simp add: op_bind_def attempt_def op_ret_def)
qed

text \<open>Loading the peers of a started SQLite backend.\<close>

lemma loadStoredPeers_core:
  assumes "quiet_iface I" and "sq_ready (backend s)"
  shows "\<exists>s'. ignore_err (loadStoredPeers (sqlite_backend X) I) s = (Ok (), s') \<and> node_core s' = node_core s"
proof -
  obtain ps where ps: "peers_tbl (backend s) = Some ps" using assms(2) by (auto simp: sq_ready_def)
  have ld: "on_backend (be_LoadPeers (sqlite_backend X)) s = (Ok ps, s)"
    using ready_LoadPeers [OF assms(2) ps] by (simp add: on_backend_def sqlite_backend_def)
  have "leaves (\<lambda>_. True) node_core (op_foreach (\<lambda>p. wrap_err ''upserting peers'' (pm_UpsertPeer I p)) ps)"
    by (intro leaves_intros quiet_UpsertPeer assms(1))
  from leaves_Ok [OF leaves_ignore [OF this] TrueI never_errs_ignore]
  obtain s' where "ignore_err (op_foreach (\<lambda>p. wrap_err ''upserting peers'' (pm_UpsertPeer I p)) ps) s = (Ok (), s')"
    "node_core s' = node_core s" by auto
  then show ?thesis using ld by (simp add: loadStoredPeers_def ignore_err_def op_bind_def attempt_def wrap_err_def)
qed



section \<open>Membership\<close>



text \<open>
  The peer a membership change is about is taken from its \<open>ID\<close> field alone: the \<open>NodeID\<close>, which
  names the member in the Raft library, is never consulted, so a change whose \<open>ID\<close> is not set (as
  in the entries the library writes itself when a node is started with peers) is filed under the
  ID 0 whatever node it adds.
\<close>

theorem conf_change_ignores_NodeID:
  "processConfChange R B I (cc\<lparr>ccNodeID := n\<rparr>) = processConfChange R B I cc"
proof -
  have same: "ccID (cc\<lparr>ccNodeID := n\<rparr>) = ccID cc" "ccType (cc\<lparr>ccNodeID := n\<rparr>) = ccType cc"
    "ccContext (cc\<lparr>ccNodeID := n\<rparr>) = ccContext cc" by simp_all
  show ?thesis unfolding processConfChange_def same by (rule refl)
qed

section \<open>Snapshots received\<close>

text \<open>
  A received snapshot either takes effect or stops the process: when the backend cannot apply it,
  the main loop panics; when it can, the applied index it left becomes the bound below which committed
  entries are skipped, and an entry at or below this bound changes nothing.
\<close>

theorem snapshot_applied_or_panic:
  assumes "\<not> IsEmptySnap R snap"
  shows "(\<forall>e b. be_ApplySnapshot B snap (backend s) = (Err e, b) \<longrightarrow>
           applySnapshotIfNotEmpty R B snap h s = (Panic e, s\<lparr>backend := b\<rparr>))
    \<and> (\<forall>b b' ix. be_ApplySnapshot B snap (backend s) = (Ok (), b) \<and> be_GetAppliedIndex B b = (Ok ix, b') \<longrightarrow>
         (\<exists>s'. applySnapshotIfNotEmpty R B snap 0 s = (Ok (), s') \<and> indexAfterAppliedSnapshot s' = ix
            \<and> (\<forall>e. Index e \<le> ix \<longrightarrow> applyCommitted R B I e s' = (Ok (), s'))))"
  using assms
  by (auto simp: applySnapshotIfNotEmpty_def or_panic_def op_defs on_backend_def applyCommitted_def)

lemma snapshot_applied_or_panic_witness:
  "let snap = zero_snapshot\<lparr>Metadata := \<lparr>SMConfState = zero_conf_state, SMIndex = 5, SMTerm = 1\<rparr>\<rparr>;
       B = (sqlite_backend strict_engine)\<lparr>be_ApplySnapshot := (\<lambda>_ b. (Err ECompacted, b))\<rparr>
   in fst (applySnapshotIfNotEmpty demo_raft B snap 0 demo_node) = Panic ECompacted"
  using snapshot_applied_or_panic [of demo_raft
      "zero_snapshot\<lparr>Metadata := \<lparr>SMConfState = zero_conf_state, SMIndex = 5, SMTerm = 1\<rparr>\<rparr>"
      "(sqlite_backend strict_engine)\<lparr>be_ApplySnapshot := (\<lambda>_ b. (Err ECompacted, b))\<rparr>" demo_node 0]
  by (simp add: Let_def)

section \<open>Before the start\<close>

text \<open>
  A node that has not been started: proposals, Raft messages and \<open>AddNode\<close> are answered with an
  error and change nothing but the counter of the pool, its status is the zero status, and
  \<open>UpdateNode\<close> and \<open>RemoveNode\<close>, which lack the check, panic.
\<close>

theorem not_started_guards:
  assumes "raftNode s = None"
  shows "propose R d s = (Err (ENew ''node not started yet''), s)
    \<and> HandleRaftMessage R m s = (Err (ENew ''raft not node yet set up''), s)
    \<and> AddNode R i info s = (Err (ENew ''node %d not started yet''), s)
    \<and> RaftStatus R s = zero_status
    \<and> RemoveNode R i s = (Panic nil_deref, s)
    \<and> (\<forall>b. json_Marshal R info = Inr b \<longrightarrow> UpdateNode R i info s = (Panic nil_deref, s))
    \<and> (\<forall>b. wq_Marshal R \<lparr>wq_NodeID = GetID s, wq_QueryID = nextID (pendingWrites s) + 1, wq_Sql = q\<rparr> = Inr b
         \<and> pending (pendingWrites s) (nextID (pendingWrites s) + 1) = None \<longrightarrow>
         (\<exists>s'. WriteQuery R sel q s = (Err (EWrap (ENew ''node not started yet'') ''proposing sql %s''), s')
            \<and> pending (pendingWrites s') = pending (pendingWrites s)))"
  using assms
  by (auto simp: propose_def HandleRaftMessage_def AddNode_def RaftStatus_def RemoveNode_def UpdateNode_def on_raft_def
      op_defs WriteQuery_def new_channel_def drop_channel_def GetNewChannel_def pool_Remove_def Let_def GetID_def
      fun_upd_idem)

lemma not_started_guards_witness:
  "propose demo_raft ''x'' (demo_node\<lparr>raftNode := None\<rparr>) = (Err (ENew ''node not started yet''), demo_node\<lparr>raftNode := None\<rparr>)"
  using not_started_guards [of "demo_node\<lparr>raftNode := None\<rparr>" demo_raft "''x''"] by simp

end
