(* ===== verification/Node_Recovery.thy ===== *)
theory Node_Recovery
  imports Node_Control
begin

text \<open>
  A node over the files of an earlier life: what \<open>Restart\<close> and \<open>Start\<close> of \<open>internal/node/node.go\<close> tell the Raft library
  about the writes that were already executed, and what the replicated state machine makes of the entries the
  library hands out again.
\<close>

section \<open>Executing a log in two lives\<close>

text \<open>The entries the library hands out after a restart: those of the log behind the applied index it was given.\<close>

definition redelivered :: "raft_config \<Rightarrow> entry list \<Rightarrow> entry list" where
  "redelivered cfg log = filter (\<lambda>e. cfg_Applied cfg < Index e) log"

definition ascending :: "entry list \<Rightarrow> bool" where
  "ascending es \<longleftrightarrow> sorted_wrt (\<lambda>d e. Index d < Index e) es"

lemma ascending_append:
  "ascending (es @ fs) \<longleftrightarrow> ascending es \<and> ascending fs \<and> (\<forall>d \<in> set es. \<forall>e \<in> set fs. Index d < Index e)"
  by (simp add: ascending_def sorted_wrt_append)

lemma sm_run_append: "sm_run unm exec snap (es @ fs) x = sm_run unm exec snap fs (sm_run unm exec snap es x)"
  by (simp add: sm_run_def)

text \<open>One entry either executes and records its index, or (a refused statement having no effect) does nothing.\<close>

lemma sm_step_cases:
  assumes "\<forall>q u e u'. exec q u = (Some e, u') \<longrightarrow> u' = u"
  shows "(\<exists>u'. sm_step unm exec snap e (u, a) = (u', Index e)) \<or> (\<forall>b. sm_step unm exec snap e (u, b) = (u, b))"
proof (cases "Index e \<le> snap \<or> EType e \<noteq> EntryNormal \<or> Data e = []")
  case False
  show ?thesis
  proof (cases "unm (Data e)")
    case (Inr q)
    obtain r u' where "exec (wq_Sql q) u = (r, u')" by fastforce
    with False Inr assms show ?thesis by (cases r) (auto simp: sm_step_def)
  qed (simp add: sm_step_def)
qed (auto simp: sm_step_def)

lemma sm_run_applied:
  assumes "ascending es" and "\<forall>e \<in> set es. a < Index e" and "sm_run unm exec snap es (u, a) = (u1, a1)"
    and "\<forall>q u e u'. exec q u = (Some e, u') \<longrightarrow> u' = u"
  shows "a1 = a \<or> (\<exists>e \<in> set es. a1 = Index e)"
    and "sm_run unm exec snap (filter (\<lambda>e. a1 < Index e) es) (u1, a1) = (u1, a1)"
  using assms(1-3)
proof (induction es arbitrary: u1 a1 rule: rev_induct)
  case Nil
  { case 1 then show ?case by (simp add: sm_run_def) }
  { case 2 then show ?case by (simp add: sm_run_def) }
next
  case (snoc e es)
  have asc: "ascending es" "\<forall>d \<in> set es. Index d < Index e" "\<forall>d \<in> set es. a < Index d"
    if "ascending (es @ [e])" "\<forall>d \<in> set (es @ [e]). a < Index d"
    using that by (auto simp: ascending_append)
  obtain v b where es: "sm_run unm exec snap es (u, a) = (v, b)" by fastforce
  have run: "sm_run unm exec snap (es @ [e]) (u, a) = sm_step unm exec snap e (v, b)"
    using es by (simp add: sm_run_append) (simp add: sm_run_def)
  { case 1
    note h = asc [OF 1(1,2)]
    from sm_step_cases [OF assms(4), of unm snap e v b] show ?case
      using 1(3) run snoc.IH(1) [OF h(1,3) es] by auto }
  { case 2
    note h = asc [OF 2(1,2)]
    from sm_step_cases [OF assms(4), of unm snap e v b] show ?case
    proof
      assume "\<exists>u'. sm_step unm exec snap e (v, b) = (u', Index e)"
      then have a1: "a1 = Index e" using 2(3) run by auto
      have "filter (\<lambda>d. a1 < Index d) (es @ [e]) = []" using h(2) a1 by (auto simp: filter_empty_conv not_less)
      then show ?case by (simp add: sm_run_def)
    next
      assume noop: "\<forall>b. sm_step unm exec snap e (v, b) = (v, b)"
      then have eq: "u1 = v" "a1 = b" using 2(3) run by auto
      have "sm_run unm exec snap (filter (\<lambda>d. a1 < Index d) es) (u1, a1) = (u1, a1)"
        using snoc.IH(2) [OF h(1,3) es] eq by simp
      then show ?case using noop eq by (simp add: sm_run_append) (simp add: sm_run_def)
    qed }
qed

lemma sm_run_resumed:
  assumes "ascending (es @ fs)" and "\<forall>e \<in> set (es @ fs). a < Index e" and "sm_run unm exec snap es (u, a) = (u1, a1)"
    and "\<forall>q u e u'. exec q u = (Some e, u') \<longrightarrow> u' = u"
  shows "sm_run unm exec snap (filter (\<lambda>e. a1 < Index e) (es @ fs)) (u1, a1) = sm_run unm exec snap (es @ fs) (u, a)"
proof -
  have es: "ascending es" "\<forall>e \<in> set es. a < Index e" using assms(1,2) by (auto simp: ascending_append)
  note fin = sm_run_applied [OF es assms(3,4)]
  have "a1 < Index f" if "f \<in> set fs" for f
    using fin(1) assms(1,2) that by (auto simp: ascending_append)
  then have "filter (\<lambda>e. a1 < Index e) fs = fs" by (auto simp: filter_id_conv)
  then show ?thesis using fin(2) assms(3) by (simp add: sm_run_append)
qed

section \<open>Restart and start over used files\<close>

lemma ready_files:
  assumes "sq_ready disk"
  shows "calm disk" and "tables_ok disk" and "\<exists>r. state_tbl disk = Some [r] \<and> row_id r = 1"
  using assms by (auto simp: sq_ready_def)

lemma start_backend_used:
  fixes s :: "('u sqlite, 'r, 'c) node"
  assumes "backend s = sqlite_New n disk" and "sq_ready disk"
  shows "\<exists>b. startBackendWithRetry R (sqlite_backend X) cancelled s = (Ok (), s\<lparr>backend := b\<rparr>) \<and> sq_ready b
    \<and> state_tbl b = state_tbl disk \<and> user_db b = user_db disk \<and> entries_tbl b = entries_tbl disk"
proof -
  obtain r where r: "state_tbl disk = Some [r]" using assms(2) by (rule ready_state_row)
  obtain t where t: "entries_tbl disk = Some t" using assms(2) by (auto simp: sq_ready_def)
  obtain b where "sqlite_Start (backend s) = (Ok (), b)" "sq_ready b" "state_tbl b = state_tbl disk"
    "user_db b = user_db disk" "entries_tbl b = entries_tbl disk"
    using start_ready [OF ready_files(1,2) [OF assms(2)], of n] ready_files(3) [OF assms(2)] assms(1) r t by auto
  then show ?thesis
    by (intro exI [of _ b]) (simp add: startBackendWithRetry_def numeral_eq_Suc op_defs on_backend_def sqlite_backend_def)
qed

text \<open>The steps \<open>Start\<close> and \<open>Restart\<close> have in common: the backend, the stored peers, the discovery.\<close>

lemma common_start:
  fixes s :: "('u sqlite, 'r, grpc_client) node"
  assumes "backend s = sqlite_New n disk" and "sq_ready disk" and "json_Marshal R (nodeInfo s) = Inr jb"
  shows "\<exists>s1 s2 found s3. startBackendWithRetry R (sqlite_backend X) cancelled s = (Ok (), s1)
    \<and> ignore_err (loadStoredPeers (sqlite_backend X) (grpc_iface N)) s1 = (Ok (), s2)
    \<and> discoverPotentialPeers R (grpc_iface N) (potentialPeers s2) s2 = (Ok found, s3)
    \<and> isNewCluster s1 = isNewCluster s \<and> isNewCluster s3 = isNewCluster s
    \<and> sq_ready (backend s3) \<and> user_db (backend s3) = user_db disk \<and> sq_applied (backend s3) = sq_applied disk
    \<and> entries_tbl (backend s3) = entries_tbl disk \<and> config s3 = config s
    \<and> indexAfterAppliedSnapshot s3 = indexAfterAppliedSnapshot s"
proof -
  let ?I = "grpc_iface N :: (('u sqlite, 'r, grpc_client) node, grpc_client) client_iface"
  obtain b where b: "startBackendWithRetry R (sqlite_backend X) cancelled s = (Ok (), s\<lparr>backend := b\<rparr>)" "sq_ready b"
    "state_tbl b = state_tbl disk" "user_db b = user_db disk" "entries_tbl b = entries_tbl disk"
    using start_backend_used [OF assms(1,2)] by blast
  obtain s2 where s2: "ignore_err (loadStoredPeers (sqlite_backend X) ?I) (s\<lparr>backend := b\<rparr>) = (Ok (), s2)"
    "node_core s2 = node_core (s\<lparr>backend := b\<rparr>)"
    using loadStoredPeers_core [OF quiet_grpc, of "s\<lparr>backend := b\<rparr>"] b(2) by auto
  then have "json_Marshal R (nodeInfo s2) = Inr jb" using assms(3) by (simp add: node_core_def)
  from discover_Ok [OF quiet_grpc this] obtain found s3 where
    s3: "discoverPotentialPeers R ?I (potentialPeers s2) s2 = (Ok found, s3)" "node_core s3 = node_core s2" by blast
  have "backend s3 = b" "config s3 = config s" "isNewCluster s3 = isNewCluster s"
    "indexAfterAppliedSnapshot s3 = indexAfterAppliedSnapshot s"
    using s2(2) s3(2) by (simp_all add: node_core_def)
  moreover have "sq_applied b = sq_applied disk" using b(3) by (simp add: sq_applied_def)
  ultimately show ?thesis using b s2(1) s3(1) by auto
qed

lemma restart_used:
  fixes s :: "('u sqlite, 'r, grpc_client) node"
  assumes "backend s = sqlite_New n disk" and "sq_ready disk" and "json_Marshal R (nodeInfo s) = Inr jb"
    and "\<not> isNewCluster s"
  shows "\<exists>s'. node_Restart R (sqlite_backend X) (grpc_iface N) cancelled s = (Ok (), s')
    \<and> raftNode s' = Some (RestartNode R (config s') (backend s')) \<and> cfg_Applied (config s') = sq_applied disk
    \<and> sq_ready (backend s') \<and> user_db (backend s') = user_db disk \<and> sq_applied (backend s') = sq_applied disk
    \<and> indexAfterAppliedSnapshot s' = indexAfterAppliedSnapshot s \<and> running s'"
proof -
  obtain s1 s2 found s3 where c: "startBackendWithRetry R (sqlite_backend X) cancelled s = (Ok (), s1)"
    "ignore_err (loadStoredPeers (sqlite_backend X) (grpc_iface N)) s1 = (Ok (), s2)"
    "discoverPotentialPeers R (grpc_iface N) (potentialPeers s2) s2 = (Ok found, s3)"
    "isNewCluster s1 = isNewCluster s" "sq_ready (backend s3)" "user_db (backend s3) = user_db disk"
    "sq_applied (backend s3) = sq_applied disk" "config s3 = config s"
    "indexAfterAppliedSnapshot s3 = indexAfterAppliedSnapshot s"
    using common_start [OF assms(1-3)] by blast
  obtain r where r: "state_tbl (backend s3) = Some [r]" using c(5) by (rule ready_state_row)
  have ap: "be_GetAppliedIndex (sqlite_backend X) (backend s3) = (Ok (sq_applied disk), backend s3)"
    using ready_GetAppliedIndex [OF c(5) r] c(7) r by (simp add: sqlite_backend_def sq_applied_def)
  have dis: "ignore_err (discoverPotentialPeers R (grpc_iface N) (potentialPeers s2)) s2 = (Ok (), s3)"
    using c(3) by (simp add: ignore_err_def op_bind_def attempt_def op_ret_def)
  show ?thesis
    unfolding node_Restart_def
    using c(1,2,4-9) dis ap assms(4)
    by (simp add: op_bind_def op_get_def op_mod_def wrap_err_def on_backend_def RegisterDestCallback_def)
qed

lemma start_used:
  fixes s :: "('u sqlite, 'r, grpc_client) node"
  assumes "backend s = sqlite_New n disk" and "sq_ready disk" and "json_Marshal R (nodeInfo s) = Inr jb"
    and "\<not> isNewCluster s"
  shows "\<exists>s' found. node_Start R (sqlite_backend X) (grpc_iface N) cancelled s = (Ok (), s')
    \<and> raftNode s' = Some (StartNode R (config s) found (backend s')) \<and> config s' = config s
    \<and> sq_ready (backend s') \<and> user_db (backend s') = user_db disk \<and> sq_applied (backend s') = sq_applied disk
    \<and> indexAfterAppliedSnapshot s' = indexAfterAppliedSnapshot s \<and> running s'"
proof -
  obtain s1 s2 found s3 where c: "startBackendWithRetry R (sqlite_backend X) cancelled s = (Ok (), s1)"
    "ignore_err (loadStoredPeers (sqlite_backend X) (grpc_iface N)) s1 = (Ok (), s2)"
    "discoverPotentialPeers R (grpc_iface N) (potentialPeers s2) s2 = (Ok found, s3)"
    "isNewCluster s1 = isNewCluster s" "isNewCluster s3 = isNewCluster s" "sq_ready (backend s3)" "user_db (backend s3) = user_db disk"
    "sq_applied (backend s3) = sq_applied disk" "config s3 = config s"
    "indexAfterAppliedSnapshot s3 = indexAfterAppliedSnapshot s"
    using common_start [OF assms(1-3)] by blast
  then show ?thesis
    unfolding node_Start_def using assms(4)
    by (auto simp: op_bind_def op_get_def op_mod_def op_ret_def wrap_err_def Let_def RegisterDestCallback_def)
qed

section \<open>The second life of a node\<close>

text \<open>
  A node \<open>s0\<close> with a SQLite backend has run the events \<open>evs\<close>, and \<open>s\<close> is a new node object over its files, as a
  process that starts again builds it.
\<close>

definition second_life ::
  "('u sqlite, 'r) raft_lib \<Rightarrow> ('u, 'q, 'e) sqlite_engine_scheme \<Rightarrow> grpc_stubs \<Rightarrow> ('u sqlite, 'r, grpc_client) node \<Rightarrow>
   event list \<Rightarrow> ('u sqlite, 'r, grpc_client) node \<Rightarrow> bool" where
  "second_life R X N s0 evs s \<longleftrightarrow>
     sq_ready (backend s0) \<and> raftNode s0 \<noteq> None \<and> indexAfterAppliedSnapshot s0 = 0 \<and> list_all (plain_event R small) evs
     \<and> (\<exists>n. backend s = sqlite_New n (backend (snd (runMainLoop R (sqlite_backend X) (grpc_iface N) evs s0))))
     \<and> \<not> isNewCluster s \<and> cfg_Applied (config s) = 0 \<and> indexAfterAppliedSnapshot s = 0
     \<and> (\<exists>jb. json_Marshal R (nodeInfo s) = Inr jb)"

lemma second_life_disk:
  assumes "second_life R X N s0 evs s" and "\<forall>q u e u'. user_exec X q u = (Some e, u') \<longrightarrow> is_sqlite_error e"
  obtains n jb disk where "backend s = sqlite_New n disk" "sq_ready disk" "json_Marshal R (nodeInfo s) = Inr jb"
    "(user_db disk, sq_applied disk) = sm_run (wq_Unmarshal R) (user_exec X) 0 (concat (map committed_of evs))
       (user_db (backend s0), sq_applied (backend s0))"
proof -
  from assms obtain n jb where l: "sq_ready (backend s0)" "raftNode s0 \<noteq> None" "list_all (plain_event R small) evs"
    "indexAfterAppliedSnapshot s0 = 0" "json_Marshal R (nodeInfo s) = Inr jb"
    "backend s = sqlite_New n (backend (snd (runMainLoop R (sqlite_backend X) (grpc_iface N) evs s0)))"
    by (auto simp: second_life_def)
  from sqlite_main_loop [OF l(1-3) assms(2), of N] obtain s1 where
    "runMainLoop R (sqlite_backend X) (grpc_iface N) evs s0 = (Ok (), s1)" "sq_ready (backend s1)"
    "(user_db (backend s1), sq_applied (backend s1)) = sm_run (wq_Unmarshal R) (user_exec X) 0
       (concat (map committed_of evs)) (user_db (backend s0), sq_applied (backend s0))"
    using l(4) by auto
  with l(5,6) that show thesis by simp
qed

text \<open>
  C6. \<open>Restart\<close> makes the two lives of a node one: it succeeds over the files the first life left and hands the
  recorded applied index to the Raft library; if the library then hands out the committed entries behind that
  index, in whatever steps, the application's data and the applied index become those of a node that executed
  the whole log once, from the start of the first life. (Indices ascend, and a statement the engine refuses has no effect.)
\<close>

theorem restart_executes_once:
  fixes s0 s :: "('u sqlite, 'r, grpc_client) node"
  assumes "second_life R X N s0 evs s"
    and "\<forall>q u e u'. user_exec X q u = (Some e, u') \<longrightarrow> is_sqlite_error e \<and> u' = u"
    and "ascending (concat (map committed_of evs) @ new)"
    and "\<forall>e \<in> set (concat (map committed_of evs) @ new). sq_applied (backend s0) < Index e"
  shows "\<exists>s1. node_Restart R (sqlite_backend X) (grpc_iface N) cancelled s = (Ok (), s1)
    \<and> (\<forall>evs2. list_all (plain_event R small) evs2
        \<and> concat (map committed_of evs2) = redelivered (config s1) (concat (map committed_of evs) @ new) \<longrightarrow>
       (\<exists>s2. runMainLoop R (sqlite_backend X) (grpc_iface N) evs2 s1 = (Ok (), s2)
         \<and> (user_db (backend s2), sq_applied (backend s2)) = sm_run (wq_Unmarshal R) (user_exec X) 0
             (concat (map committed_of evs) @ new) (user_db (backend s0), sq_applied (backend s0))))"
proof -
  have errs: "\<forall>q u e u'. user_exec X q u = (Some e, u') \<longrightarrow> is_sqlite_error e"
    "\<forall>q u e u'. user_exec X q u = (Some e, u') \<longrightarrow> u' = u" using assms(2) by blast+
  obtain n jb disk where d: "backend s = sqlite_New n disk" "sq_ready disk" "json_Marshal R (nodeInfo s) = Inr jb"
    "(user_db disk, sq_applied disk) = sm_run (wq_Unmarshal R) (user_exec X) 0 (concat (map committed_of evs))
       (user_db (backend s0), sq_applied (backend s0))"
    using second_life_disk [OF assms(1) errs(1)] by blast
  have new: "\<not> isNewCluster s" "indexAfterAppliedSnapshot s = 0" using assms(1) by (simp_all add: second_life_def)
  obtain s1 where s1: "node_Restart R (sqlite_backend X) (grpc_iface N) cancelled s = (Ok (), s1)"
    "raftNode s1 \<noteq> None" "cfg_Applied (config s1) = sq_applied disk" "sq_ready (backend s1)"
    "user_db (backend s1) = user_db disk" "sq_applied (backend s1) = sq_applied disk" "indexAfterAppliedSnapshot s1 = 0"
    using restart_used [OF d(1-3) new(1), of X N cancelled] new(2) by auto
  note all = sm_run_resumed [OF assms(3,4) d(4) [symmetric] errs(2)]
  have "\<exists>s2. runMainLoop R (sqlite_backend X) (grpc_iface N) evs2 s1 = (Ok (), s2)
         \<and> (user_db (backend s2), sq_applied (backend s2)) = sm_run (wq_Unmarshal R) (user_exec X) 0
             (concat (map committed_of evs) @ new) (user_db (backend s0), sq_applied (backend s0))"
    if "list_all (plain_event R small) evs2"
      "concat (map committed_of evs2) = redelivered (config s1) (concat (map committed_of evs) @ new)" for evs2
    using sqlite_main_loop [OF s1(4,2) that(1) errs(1), of N] that(2) s1(3,5-7) all
    by (simp add: redelivered_def) blast
  with s1(1) show ?thesis by blast
qed


text \<open>A node that executed \<open>x\<close> and the refused \<open>bad\<close>, and its successor.\<close>

definition life_events :: "event list" where
  "life_events = [Ready (demo_ready [demo_entry 1 1 ''x'', demo_entry 1 2 ''bad''])]"

definition reborn :: "(string list sqlite, nat, grpc_client) node" where
  "reborn = (node_New \<lparr>np_NodeID = 1, np_AddrPort = \<lparr>ni_Addr = ''a'', ni_Port = ''10''\<rparr>, np_IsNewCluster = False,
     np_PotentialPeers = []\<rparr> demo_transport (sqlite_New 0 (backend (snd (runMainLoop demo_raft (sqlite_backend strict_engine)
       (grpc_iface demo_stubs) life_events demo_node)))))"

lemma demo_second_life: "second_life demo_raft strict_engine demo_stubs demo_node life_events reborn"
  using demo_node_ready
  by (auto simp: second_life_def life_events_def reborn_def node_New_def demo_ready_def zero_snapshot_def demo_entry_def
      small_def demo_raft_def)

lemma life_log: "concat (map committed_of life_events) = [demo_entry 1 1 ''x'', demo_entry 1 2 ''bad'']"
  by (simp add: life_events_def demo_ready_def)

lemma restart_executes_once_witness:
  "\<exists>s1 s2. node_Restart demo_raft (sqlite_backend strict_engine) (grpc_iface demo_stubs) (\<lambda>_. False) reborn = (Ok (), s1)
    \<and> runMainLoop demo_raft (sqlite_backend strict_engine) (grpc_iface demo_stubs)
        [Ready (demo_ready (redelivered (config s1) [demo_entry 1 1 ''x'', demo_entry 1 2 ''bad'', demo_entry 1 3 ''y'']))] s1 = (Ok (), s2)
    \<and> user_db (backend s2) = [''x'', ''y''] \<and> sq_applied (backend s2) = 3"
proof -
  let ?new = "[demo_entry 1 3 ''y'']"
  have errs: "\<forall>q u e u'. user_exec strict_engine q u = (Some e, u') \<longrightarrow> is_sqlite_error e \<and> u' = u"
    by (auto simp: strict_engine_def is_sqlite_error_def)
  have log: "ascending (concat (map committed_of life_events) @ ?new)"
    "\<forall>e \<in> set (concat (map committed_of life_events) @ ?new). sq_applied (backend demo_node) < Index e"
    unfolding life_log by (simp_all add: ascending_def demo_entry_def sq_applied_def first_row_def)
  have res: "sm_run (wq_Unmarshal demo_raft) (user_exec strict_engine) 0 (concat (map committed_of life_events) @ ?new)
      (user_db (backend demo_node), sq_applied (backend demo_node)) = ([''x'', ''y''], 3)"
    unfolding life_log by (simp add: sm_run_def sm_step_def demo_entry_def strict_engine_def sq_applied_def)
  from restart_executes_once [OF demo_second_life errs log, of "\<lambda>_. False"] obtain s1 where
    s1: "node_Restart demo_raft (sqlite_backend strict_engine) (grpc_iface demo_stubs) (\<lambda>_. False) reborn = (Ok (), s1)"
    and run: "\<And>evs2. list_all (plain_event demo_raft small) evs2
        \<and> concat (map committed_of evs2) = redelivered (config s1) (concat (map committed_of life_events) @ ?new) \<Longrightarrow>
       \<exists>s2. runMainLoop demo_raft (sqlite_backend strict_engine) (grpc_iface demo_stubs) evs2 s1 = (Ok (), s2)
         \<and> (user_db (backend s2), sq_applied (backend s2)) = ([''x'', ''y''], 3)"
    unfolding res by blast
  have "list_all (plain_event demo_raft small) [Ready (demo_ready (redelivered (config s1) (concat (map committed_of life_events) @ ?new)))]"
    unfolding life_log by (auto simp: demo_ready_def zero_snapshot_def redelivered_def demo_entry_def small_def)
  with run [of "[Ready (demo_ready (redelivered (config s1) (concat (map committed_of life_events) @ ?new)))]"] s1
  show ?thesis unfolding life_log by (auto simp: demo_ready_def simp del: runMainLoop.simps)
qed


section \<open>A crash inside a write\<close>

text \<open>Interrupted between its two statements, \<open>ExecSQL\<close> leaves the effect of the first and not the second.\<close>

lemma interrupted_ExecSQL:
  assumes "sq_ready b" and "user_exec X q (user_db b) = (None, u)" and "small trm" and "small ix"
  shows "sqlite_ExecSQL X trm ix q (b\<lparr>faults := [NoFault, FailBefore x]\<rparr>) =
    (Err (EWrap x ''saving applied state''), b\<lparr>user_db := u\<rparr>)"
proof -
  have "b\<lparr>user_db := u, faults := []\<rparr> = b\<lparr>user_db := u\<rparr>"
    using assms(1) by (simp add: sq_ready_def calm_def)
  then show ?thesis
    using assms
    by (simp add: sqlite_ExecSQL_def sqlite_SaveApplied_def op_defs wrap_err_def with_db_def with_handle_def sys_call_def
        run_user_def sq_ready_def small_def)
qed

text \<open>
  C34. A crash between the statement and the record of its index executes the statement twice: the data is
  in one database file and the applied index in another, so that a node that stops in between comes up with
  the statement's effect and the old index, and when the entry is handed out again, the statement runs on its own result.
\<close>

theorem crash_executes_twice:
  fixes s :: "('u sqlite, 'r, grpc_client) node"
  assumes "sq_ready b" and "user_exec X (wq_Sql q) (user_db b) = (None, u)"
    and "wq_Unmarshal R (Data e) = Inr q" and "EType e = EntryNormal" and "Data e \<noteq> []"
    and "small (Term e)" and "small (Index e)" and "sq_applied b < Index e"
    and "backend s = sqlite_New n (snd (sqlite_ExecSQL X (Term e) (Index e) (wq_Sql q) (b\<lparr>faults := [NoFault, FailBefore x]\<rparr>)))"
    and "\<not> isNewCluster s" and "indexAfterAppliedSnapshot s = 0" and "json_Marshal R (nodeInfo s) = Inr jb"
    and "\<forall>q u e u'. user_exec X q u = (Some e, u') \<longrightarrow> is_sqlite_error e"
    and "IsEmptySnap R (rd_Snapshot rd)" and "rd_CommittedEntries rd = [e]"
  shows "\<exists>s1. node_Restart R (sqlite_backend X) (grpc_iface N) cancelled s = (Ok (), s1)
    \<and> redelivered (config s1) [e] = [e]
    \<and> (\<exists>s2. runMainLoop R (sqlite_backend X) (grpc_iface N) [Ready rd] s1 = (Ok (), s2)
        \<and> user_db (backend s2) = snd (user_exec X (wq_Sql q) (snd (user_exec X (wq_Sql q) (user_db b)))))"
proof -
  have disk: "backend s = sqlite_New n (b\<lparr>user_db := u\<rparr>)"
    using assms(9) interrupted_ExecSQL [OF assms(1,2,6,7)] by simp
  have rdy: "sq_ready (b\<lparr>user_db := u\<rparr>)" using assms(1) by (rule ready_user_update)
  have ap: "sq_applied (b\<lparr>user_db := u\<rparr>) = sq_applied b" by (simp add: sq_applied_def)
  obtain s1 where s1: "node_Restart R (sqlite_backend X) (grpc_iface N) cancelled s = (Ok (), s1)" "raftNode s1 \<noteq> None"
    "cfg_Applied (config s1) = sq_applied b" "sq_ready (backend s1)" "user_db (backend s1) = u" "indexAfterAppliedSnapshot s1 = 0"
    using restart_used [OF disk rdy assms(12,10), of X N cancelled] assms(11) ap by auto
  have "redelivered (config s1) [e] = [e]" using s1(3) assms(8) by (simp add: redelivered_def)
  moreover have "\<not> Index e \<le> 0" using assms(8) by (auto simp: not_le intro: le_less_trans)
  then have "\<exists>s2. runMainLoop R (sqlite_backend X) (grpc_iface N) [Ready rd] s1 = (Ok (), s2)
      \<and> user_db (backend s2) = snd (user_exec X (wq_Sql q) u)"
    using sqlite_main_loop [OF s1(4,2) _ assms(13), of R "[Ready rd]" N] assms(3-7,14,15) s1(5,6)
    by (auto simp: sm_run_def sm_step_def simp del: runMainLoop.simps split: prod.splits option.splits)
  ultimately show ?thesis using s1(1) assms(2) by auto
qed

lemma crash_executes_twice_witness:
  "let e = demo_entry 1 1 ''x''; rd = demo_ready [e];
       s = reborn\<lparr>backend := sqlite_New 0 (snd (sqlite_ExecSQL strict_engine 1 1 ''x''
             ((demo_sqlite 0 [] [])\<lparr>faults := [NoFault, FailBefore EConnRefused]\<rparr>)))\<rparr>
   in \<exists>s1. node_Restart demo_raft (sqlite_backend strict_engine) (grpc_iface demo_stubs) (\<lambda>_. False) s = (Ok (), s1)
     \<and> (\<exists>s2. runMainLoop demo_raft (sqlite_backend strict_engine) (grpc_iface demo_stubs) [Ready rd] s1 = (Ok (), s2)
          \<and> user_db (backend s2) = [''x'', ''x''])"
proof -
  let ?b = "demo_sqlite 0 [] []" and ?e = "demo_entry 1 1 ''x''" and ?q = "\<lparr>wq_NodeID = 1, wq_QueryID = 1, wq_Sql = ''x''\<rparr>"
  let ?s = "reborn\<lparr>backend := sqlite_New 0 (snd (sqlite_ExecSQL strict_engine 1 1 ''x''
             (?b\<lparr>faults := [NoFault, FailBefore EConnRefused]\<rparr>)))\<rparr>"
  have "sq_ready ?b" "user_exec strict_engine (wq_Sql ?q) (user_db ?b) = (None, [''x''])"
    "wq_Unmarshal demo_raft (Data ?e) = Inr ?q" "EType ?e = EntryNormal" "Data ?e \<noteq> []" "small (Term ?e)" "small (Index ?e)"
    "sq_applied ?b < Index ?e" "backend ?s = sqlite_New 0 (snd (sqlite_ExecSQL strict_engine (Term ?e) (Index ?e) (wq_Sql ?q)
       (?b\<lparr>faults := [NoFault, FailBefore EConnRefused]\<rparr>)))"
    "\<not> isNewCluster ?s" "indexAfterAppliedSnapshot ?s = 0" "json_Marshal demo_raft (nodeInfo ?s) = Inr ''a''"
    by (simp_all add: demo_sqlite_ready strict_engine_def demo_entry_def small_def sq_applied_def first_row_def reborn_def
        node_New_def demo_raft_def)
  from crash_executes_twice [OF this strict_engine_errs, of "demo_ready [?e]" demo_stubs "\<lambda>_. False"] show ?thesis
    unfolding Let_def by (auto simp: demo_ready_def zero_snapshot_def strict_engine_def simp del: runMainLoop.simps)
qed

end
