(* ===== verification/Node_Write.thy ===== *)
theory Node_Write
  imports Node_Control
begin

text \<open>
  A write from its call to its answer, across \<open>WriteQuery\<close>, the codec of the queries, the Raft library, the
  main loop, the backend and the pool of pending writes.
\<close>

text \<open>What \<open>WriteQuery\<close> does up to its \<open>select\<close>, when the library accepts the proposal.\<close>

definition proposed :: "u64 \<Rightarrow> chan \<Rightarrow> channel_pool \<Rightarrow> 'r \<Rightarrow> ('b, 'r, 'c) node \<Rightarrow> ('b, 'r, 'c) node" where
  "proposed i ch p r s = s\<lparr>pendingWrites := p, raftNode := Some r\<rparr>"

lemma WriteQuery_select:
  assumes "GetNewChannel (pendingWrites s) = ((i, ch), p)" and "raftNode s = Some r"
    and "wq_Marshal R \<lparr>wq_NodeID = GetID s, wq_QueryID = i, wq_Sql = sql\<rparr> = Inr d" and "rn_Propose R d r = (None, r')"
  shows "WriteQuery R sel sql s = (case sel ch of
      Some err \<Rightarrow> return_err err (proposed i ch p r' s)
    | None \<Rightarrow> op_bind (drop_channel i) (\<lambda>_. op_err ECtx) (proposed i ch p r' s))"
  using assms
  by (auto simp: WriteQuery_def op_bind_def new_channel_def op_get_def attempt_def propose_def on_raft_def return_err_def
      op_ret_def op_err_def proposed_def GetID_def split: option.splits)



end
