(* ===== verification/Node_Snapshot.thy ===== *)
theory Node_Snapshot
  imports Node_Apply "HOL-Library.Sublist"
begin

text \<open>
  A node that is brought up to date by a snapshot. The Raft library hands it the snapshot and then the
  committed entries that follow the index the metadata names; the data may be of a later moment (a MySQL snapshot is
  a reference that is streamed when it is applied) and the applied index behind the position of its source (it
  counts only the statements that succeeded), so that entries are delivered again. Shown here: the guard on
  \<open>indexAfterAppliedSnapshot\<close> makes up for both.
\<close>

section \<open>The step\<close>

context snapshot_backend
begin

lemma install_snapshot:
  fixes s :: "('b, 'r, 'c) node"
  assumes "node_up s" and "\<not> IsEmptySnap R snap" and "up src" and "carries src snap"
  shows "\<exists>s'. applySnapshotIfNotEmpty R B snap h s = (Ok (), s') \<and> node_up s'
    \<and> node_view s' = ((data src, applied src), config s, applied src)"
proof -
  obtain b where b: "be_ApplySnapshot B snap (backend s) = (Ok (), b)" "up b" "data b = data src" "applied b = applied src"
    using restore [OF assms(3,4)] assms(1) by (auto simp: node_up_def)
  let ?s = "s\<lparr>backend := b, indexAfterAppliedSnapshot := applied src\<rparr>"
  have up: "node_up ?s" "node_view ?s = ((data src, applied src), config s, applied src)"
    using assms(1) b by (simp_all add: node_up_def node_view_def)
  have "applySnapshotIfNotEmpty R B snap h s =
      (if h \<noteq> 0 then ignore_err (on_backend (be_RemoveSavedSnapshot B h)) else op_ret ()) ?s"
    using assms(2) b read_applied [OF b(2)]
    by (simp add: applySnapshotIfNotEmpty_def or_panic_def op_defs on_backend_def)
  moreover have "\<exists>s'. ignore_err (on_backend (be_RemoveSavedSnapshot B h)) ?s = (Ok (), s') \<and> node_up s'
      \<and> node_view s' = node_view ?s"
    using leaves_Ok [OF leaves_ignore [OF node_leaves_backend [OF drop_snap]] up(1) never_errs_ignore] by auto
  ultimately show ?thesis using up by (cases "h = 0") (auto simp: op_ret_def)
qed

text \<open>A Raft step that brings a snapshot and committed entries.\<close>

lemma snapshot_step:
  fixes s :: "('b, 'r, 'c) node"
  assumes "quiet_iface I" and "node_up s" and "\<not> IsEmptySnap R (rd_Snapshot rd)" and "up src" and "carries src (rd_Snapshot rd)"
    and "list_all (\<lambda>e. can_store (Term e) \<and> can_store (Index e)) (rd_CommittedEntries rd)"
    and errs: "\<forall>q u x u'. exec q u = (Some x, u') \<longrightarrow> db_err x"
  shows "\<exists>s'. runMainLoop R B I [Ready rd] s = (Ok (), s') \<and> node_up s'
    \<and> node_view s' = (sm_run (wq_Unmarshal R) exec (applied src) (rd_CommittedEntries rd) (data src, applied src),
        config s, applied src)"
proof -
  obtain s1 where s1: "saveToStorage R B (rd_HardState rd) (rd_Entries rd) s = (Ok (), s1)" "node_up s1"
    "node_view s1 = node_view s"
    using leaves_Ok [OF leaves_saveToStorage [of R "rd_HardState rd" "rd_Entries rd"] assms(2)
        never_errs_saveToStorage] by auto
  obtain h where save: "saveSnapshotIfNotEmpty R B (rd_Snapshot rd) s1 = (Ok h, s1)"
    using assms(3) save_snap [of "rd_Snapshot rd" "backend s1"]
    by (auto simp: saveSnapshotIfNotEmpty_def or_panic_def op_defs on_backend_def)
  obtain s2 where s2: "sendMessages R I (rd_Messages rd) s1 = (Ok (), s2)" "node_up s2" "node_view s2 = node_view s1"
    using leaves_Ok [OF leaves_sendMessages [OF assms(1), of R "rd_Messages rd"] s1(2)
        never_errs_sendMessages] by auto
  obtain s3 where s3: "applySnapshotIfNotEmpty R B (rd_Snapshot rd) h s2 = (Ok (), s3)" "node_up s3"
    "node_view s3 = ((data src, applied src), config s2, applied src)"
    using install_snapshot [OF s2(2) assms(3-5)] by blast
  obtain s4 where s4: "op_foreach (applyCommitted R B I) (rd_CommittedEntries rd) s3 = (Ok (), s4)" "node_up s4"
    "node_view s4 = (sm_run (wq_Unmarshal R) exec (indexAfterAppliedSnapshot s3) (rd_CommittedEntries rd)
        (data (backend s3), applied (backend s3)), config s3, indexAfterAppliedSnapshot s3)"
    using apply_all [OF assms(1) s3(2) assms(6) errs, of R] by blast
  obtain s5 where s5: "tell_raft (rn_Advance R) s4 = (Ok (), s5)" "node_up s5" "node_view s5 = node_view s4"
    using leaves_Ok [OF leaves_tell_raft [of "rn_Advance R"] s4(2) never_errs_simple(6)] by auto
  show ?thesis
    using s1 save s2 s3 s4 s5 by (auto simp: handleReady_def op_bind_def op_ret_def node_view_def)
qed

end

section \<open>What a snapshot stands for\<close>

text \<open>
  The entries of a log up to an index. In the log of a cluster the indices increase and lie above the applied index
  it starts from.
\<close>

definition upto_index :: "u64 \<Rightarrow> entry list \<Rightarrow> entry list" where
  "upto_index a log = filter (\<lambda>e. Index e \<le> a) log"

definition log_from :: "u64 \<Rightarrow> entry list \<Rightarrow> bool" where
  "log_from a log \<longleftrightarrow> sorted_wrt (<) (map Index log) \<and> (\<forall>e \<in> set log. a < Index e)"

text \<open>A statement that fails leaves the data as they were.\<close>

definition atomic_exec :: "(string \<Rightarrow> 'u \<Rightarrow> goerr option \<times> 'u) \<Rightarrow> bool" where
  "atomic_exec exec \<longleftrightarrow> (\<forall>q u e u'. exec q u = (Some e, u') \<longrightarrow> u' = u)"

lemma sm_run_Nil [simp]: "sm_run unm exec a [] x = x"
  by (simp add: sm_run_def)

lemma sm_run_snoc: "sm_run unm exec a (es @ [e]) x = sm_step unm exec a e (sm_run unm exec a es x)"
  by (simp add: sm_run_def)

lemma log_from_split:
  assumes "log_from a (p @ e # q)"
  shows "\<forall>x \<in> set p. Index x < Index e" and "\<forall>x \<in> set q. Index e < Index x" and "a < Index e" and "log_from a p"
  using assms by (auto simp: log_from_def sorted_wrt_append)

lemma upto_split:
  assumes "log_from a (p @ e # q)"
  shows "upto_index (Index e) (p @ e # q) = p @ [e]"
  using log_from_split(1,2) [OF assms]
  by (auto simp: upto_index_def not_le intro: filter_all_true filter_all_false less_imp_le)

lemma prefix_upto: "log_from a log \<Longrightarrow> prefix (upto_index b log) log"
proof (induction log)
  case (Cons e log)
  show ?case
  proof (cases "Index e \<le> b")
    case True
    with Cons show ?thesis by (auto simp: upto_index_def log_from_def)
  next
    case False
    then have "\<forall>x \<in> set (e # log). \<not> Index x \<le> b" using Cons.prems by (fastforce simp: log_from_def)
    then have "upto_index b (e # log) = []" unfolding upto_index_def by (intro filter_all_false) blast
    then show ?thesis by simp
  qed
qed (simp add: upto_index_def)

lemma prefixes_eq: "prefix p l \<Longrightarrow> prefix q l \<Longrightarrow> length p = length q \<Longrightarrow> p = q"
  by (auto simp: prefix_def)

text \<open>
  The data a node has reached are those of the log up to its applied index: the entries it executed after that have
  failed or carried no statement.
\<close>

lemma run_upto_applied:
  assumes "atomic_exec exec" and "log_from (snd x) log" and "prefix p log"
  shows "sm_run unm exec 0 (upto_index (snd (sm_run unm exec 0 p x)) log) x = sm_run unm exec 0 p x"
  using assms(3)
proof (induction p rule: rev_induct)
  case Nil
  have "upto_index (snd x) log = []"
    using assms(2) unfolding upto_index_def log_from_def by (intro filter_all_false) (auto simp: not_le)
  then show ?case by simp
next
  case (snoc e p)
  obtain q where log: "log = p @ e # q" using snoc.prems by (auto simp: prefix_def)
  obtain u a where ua: "sm_run unm exec 0 p x = (u, a)" by fastforce
  have IH: "sm_run unm exec 0 (upto_index a log) x = (u, a)"
    using snoc ua by (metis append_prefixD snd_conv)
  have next_pos: "0 < Index e" using log_from_split(3) [of "snd x" p e q] assms(2) log by (metis le_less_trans word_zero_le)
  show ?case
  proof (cases "sm_step unm exec 0 e (u, a) = (u, a)")
    case True
    then show ?thesis using ua IH by (simp add: sm_run_snoc)
  next
    case False
    then have "snd (sm_step unm exec 0 e (u, a)) = Index e"
      using assms(1) by (auto simp: sm_step_def atomic_exec_def split: if_splits sum.splits prod.splits option.splits)
    then show ?thesis using upto_split [of "snd x" p e q] assms(2) log ua by (simp add: sm_run_snoc)
  qed
qed

section \<open>Executed entries\<close>

text \<open>
  The part of the log a node has executed, when its last snapshot was of index \<open>a\<close> and the library has handed it the
  entries up to \<open>h\<close>: the longer of the two.
\<close>

definition executed :: "u64 \<Rightarrow> entry list \<Rightarrow> entry list \<Rightarrow> entry list" where
  "executed a log h = (if length (upto_index a log) \<le> length h then h else upto_index a log)"

lemma prefix_executed: "log_from b log \<Longrightarrow> prefix h log \<Longrightarrow> prefix (executed a log h) log"
  by (simp add: executed_def prefix_upto)

lemma upto_length:
  assumes "log_from b (h @ e # q)"
  shows "Index e \<le> a \<longleftrightarrow> length h < length (upto_index a (h @ e # q))"
proof
  assume "Index e \<le> a"
  then have "upto_index a (h @ e # q) = h @ e # upto_index a q"
    using log_from_split(1) [OF assms] by (auto simp: upto_index_def intro!: filter_all_true)
  then show "length h < length (upto_index a (h @ e # q))" by simp
next
  assume len: "length h < length (upto_index a (h @ e # q))"
  show "Index e \<le> a"
  proof (rule ccontr)
    assume "\<not> Index e \<le> a"
    then have "filter (\<lambda>x. Index x \<le> a) (e # q) = []"
      using log_from_split(2) [OF assms] by (intro filter_all_false) auto
    then have "upto_index a (h @ e # q) = upto_index a h" by (simp add: upto_index_def)
    then show False using len length_filter_le [of "\<lambda>x. Index x \<le> a" h] by (simp only: upto_index_def)
  qed
qed

lemma executed_step:
  assumes "log_from (snd x) log" and "prefix (h @ [e]) log"
  shows "sm_step unm exec a e (sm_run unm exec 0 (executed a log h) x) = sm_run unm exec 0 (executed a log (h @ [e])) x"
proof -
  obtain q where log: "log = h @ e # q" using assms(2) by (auto simp: prefix_def)
  note len = upto_length [of "snd x" h e q a, folded log, OF assms(1)]
  show ?thesis
  proof (cases "Index e \<le> a")
    case True
    then have "executed a log (h @ [e]) = executed a log h"
    proof (cases "length (upto_index a log) = length (h @ [e])")
      case eq: True
      have "upto_index a log = h @ [e]"
        by (rule prefixes_eq [OF prefix_upto [OF assms(1)] assms(2) eq])
      then show ?thesis by (simp add: executed_def)
    qed (use len True in \<open>auto simp: executed_def\<close>)
    then show ?thesis using True by (simp add: sm_step_def case_prod_beta)
  next
    case False
    then have "executed a log h = h" "executed a log (h @ [e]) = h @ [e]" using len by (simp_all add: executed_def)
    moreover have "\<not> Index e \<le> 0" using log_from_split(3) [of "snd x" h e q] assms(1) log by auto
    ultimately show ?thesis using False by (simp add: sm_run_snoc sm_step_def)
  qed
qed

text \<open>Entries handed to a node take it along the log, wherever its snapshot has put it.\<close>

lemma executed_run:
  assumes "log_from (snd x) log" and "prefix (h @ es) log"
  shows "sm_run unm exec a es (sm_run unm exec 0 (executed a log h) x) = sm_run unm exec 0 (executed a log (h @ es)) x"
  using assms(2)
proof (induction es rule: rev_induct)
  case (snoc e es)
  then have "prefix (h @ es) log" by (metis append_assoc append_prefixD)
  with snoc.IH executed_step [OF assms(1), of "h @ es" e] snoc.prems show ?case by (simp add: sm_run_snoc)
qed simp

text \<open>Just after a snapshot of index \<open>a\<close> whose metadata names \<open>m \<le> a\<close>.\<close>

lemma executed_snapshot:
  assumes "log_from b log" and "m \<le> a"
  shows "executed a log (upto_index m log) = upto_index a log"
proof -
  have "upto_index m (upto_index a log) = upto_index m log"
    using assms(2) by (auto simp: upto_index_def intro!: filter_cong)
  then have "length (upto_index m log) \<le> length (upto_index a log)" by (metis length_filter_le upto_index_def)
  moreover have "upto_index m log = upto_index a log" if "length (upto_index m log) = length (upto_index a log)"
    by (rule prefixes_eq [OF prefix_upto [OF assms(1)] prefix_upto [OF assms(1)] that])
  ultimately show ?thesis by (auto simp: executed_def)
qed

section \<open>Catching up\<close>

lemma runMainLoop_Cons:
  assumes "runMainLoop R B I [ev] s = (Ok (), t)" and "ev \<noteq> Done"
  shows "runMainLoop R B I (ev # evs) s = runMainLoop R B I evs t"
  using assms by (cases ev) (auto simp: op_bind_def op_ret_def split: prod.splits res.splits)

context snapshot_backend
begin

lemma caught_up:
  fixes s :: "('b, 'r, 'c) node"
  assumes "quiet_iface I" and "node_up s" and "\<not> IsEmptySnap R (rd_Snapshot rd)"
    and src: "up src" "carries src (rd_Snapshot rd)"
      "(data src, applied src) = sm_run (wq_Unmarshal R) exec 0 es x" "prefix es log"
    and log: "log_from (snd x) log" "atomic_exec exec"
    and evs: "list_all (\<lambda>e. can_store (Term e) \<and> can_store (Index e)) (rd_CommittedEntries rd)" "list_all (plain_event R can_store) evs"
      "prefix (upto_index (SMIndex (Metadata (rd_Snapshot rd))) log @ concat (map committed_of (Ready rd # evs))) log"
    and errs: "\<forall>q u x u'. exec q u = (Some x, u') \<longrightarrow> db_err x"
  shows "\<exists>s'. runMainLoop R B I (Ready rd # evs) s = (Ok (), s') \<and> node_up s'
    \<and> node_view s' = (sm_run (wq_Unmarshal R) exec 0 (executed (applied src) log
        (upto_index (SMIndex (Metadata (rd_Snapshot rd))) log @ concat (map committed_of (Ready rd # evs)))) x,
        config s, applied src)"
proof -
  let ?a = "applied src" and ?m = "SMIndex (Metadata (rd_Snapshot rd))"
  obtain s1 where s1: "runMainLoop R B I [Ready rd] s = (Ok (), s1)" "node_up s1"
    "node_view s1 = (sm_run (wq_Unmarshal R) exec ?a (rd_CommittedEntries rd) (data src, ?a), config s, ?a)"
    using snapshot_step [OF assms(1-3) src(1,2) evs(1) errs] by blast
  obtain s2 where s2: "runMainLoop R B I evs s1 = (Ok (), s2)" "node_up s2"
    "node_view s2 = (sm_run (wq_Unmarshal R) exec (indexAfterAppliedSnapshot s1) (concat (map committed_of evs))
        (data (backend s1), applied (backend s1)), config s1, indexAfterAppliedSnapshot s1)"
    using main_loop_run [OF assms(1) s1(2) evs(2) errs] by blast
  have "sm_run (wq_Unmarshal R) exec 0 (executed ?a log (upto_index ?m log)) x = (data src, ?a)"
    using run_upto_applied [OF log(2,1) src(4), of "wq_Unmarshal R"] executed_snapshot [OF log(1) carried_index [OF src(1,2)]]
      src(3) by (metis snd_conv)
  then have "sm_run (wq_Unmarshal R) exec ?a (concat (map committed_of (Ready rd # evs))) (data src, ?a) =
      sm_run (wq_Unmarshal R) exec 0 (executed ?a log (upto_index ?m log @ concat (map committed_of (Ready rd # evs)))) x"
    using executed_run [OF log(1) evs(3), of "wq_Unmarshal R" exec ?a] by simp
  then show ?thesis
    using s1 s2 runMainLoop_Cons [OF s1(1)] by (auto simp: node_view_def sm_run_def)
qed

end

text \<open>
  C4. A node that is far behind, or new, is brought up to date by a snapshot: when the snapshot was taken by a backend that had
  executed some part of the log, a node in any state that applies it and is then handed the committed entries that follow the
  snapshot's index, in any number of Raft steps, holds exactly the data and applied index of a node that executed
  the whole log up to there, entry by entry. (A statement that fails must leave the data alone: failed ones do not
  move the applied index, so they can be executed again behind the snapshot.)
\<close>

theorem snapshot_catches_up:
  fixes s :: "('u sqlite, 'r, grpc_client) node"
  assumes "sq_ready (backend s)" and "raftNode s \<noteq> None" and "\<not> IsEmptySnap R (rd_Snapshot rd)"
    and "sq_ready src" and "sqlite_carries X src (rd_Snapshot rd)"
    and "(user_db src, sq_applied src) = sm_run (wq_Unmarshal R) (user_exec X) 0 es x" and "prefix es log"
    and "log_from (snd x) log" and "atomic_exec (user_exec X)"
    and "\<forall>q u e u'. user_exec X q u = (Some e, u') \<longrightarrow> is_sqlite_error e"
    and "list_all (\<lambda>e. small (Term e) \<and> small (Index e)) (rd_CommittedEntries rd)" and "list_all (plain_event R small) evs"
    and "target = upto_index (SMIndex (Metadata (rd_Snapshot rd))) log @ concat (map committed_of (Ready rd # evs))"
    and "prefix target log"
  shows "\<exists>s'. runMainLoop R (sqlite_backend X) (grpc_iface N) (Ready rd # evs) s = (Ok (), s') \<and> sq_ready (backend s')
    \<and> (user_db (backend s'), sq_applied (backend s')) = sm_run (wq_Unmarshal R) (user_exec X) 0 target x"
proof -
  have up: "sqlite_sql.node_up s" using assms(1,2) by (simp add: sqlite_sql.node_up_def)
  have "SMIndex (Metadata (rd_Snapshot rd)) = sq_applied src" by (rule sqlite_carries_index [OF assms(4,5)])
  then have "executed (sq_applied src) log target = target" using assms(13) by (simp add: executed_def)
  with sqlite_snap.caught_up [OF quiet_grpc up assms(3-9,11,12) assms(14) [unfolded assms(13)] assms(10), of N]
  show ?thesis unfolding assms(13) by (auto simp: sqlite_sql.node_up_def sqlite_sql.node_view_def simp del: runMainLoop.simps)
qed

text \<open>
  A source that executed one statement and failed on the next: its snapshot is of index 1, and the failed statement is
  delivered again.
\<close>

definition demo_source :: "string list sqlite" where
  "demo_source = (demo_sqlite 5 [] [])\<lparr>user_db := [''x''], state_tbl := Some [first_row\<lparr>row_idx := 1\<rparr>]\<rparr>"

definition demo_snap :: snapshot where
  "demo_snap = \<lparr>SData = ''xm'', Metadata = \<lparr>SMConfState = zero_conf_state, SMIndex = 1, SMTerm = 0\<rparr>\<rparr>"

lemma demo_source_ready: "sq_ready demo_source"
  by (auto simp: demo_source_def sq_ready_def calm_def tables_ok_def first_row_def)

lemma demo_source_carries: "sqlite_carries strict_engine demo_source demo_snap"
proof -
  have st: "state_tbl demo_source = Some [first_row\<lparr>row_idx := 1\<rparr>]" by (simp add: demo_source_def)
  have names: "dir_names demo_source = [''db.sqlite'', ''mgmt.sqlite'', ''raft.sqlite'']"
    by (simp add: demo_source_def demo_sqlite_def)
  have arch: "archive_of strict_engine demo_source = [(''db.sqlite'', ''x''), (''mgmt.sqlite'', ''m'')]"
    using names by (simp add: archive_of_def file_image_def strict_engine_def demo_engine_def demo_source_def)
  show ?thesis
    unfolding sqlite_carries_def ready_Snapshot [OF demo_source_ready st] arch names
    by (auto simp: demo_snap_def strict_engine_def demo_engine_def images_ok_def demo_source_def cs_codec_ok_def
        demo_marshal_def demo_unmarshal_def demo_conf_def zero_conf_state_def small_def first_row_def)
qed

lemma strict_engine_atomic: "atomic_exec (user_exec strict_engine)"
  by (auto simp: atomic_exec_def strict_engine_def)

lemma snapshot_catches_up_witness:
  "\<exists>s'. runMainLoop demo_raft (sqlite_backend strict_engine) (grpc_iface demo_stubs)
      [Ready ((demo_ready [demo_entry 1 2 ''bad''])\<lparr>rd_Snapshot := demo_snap\<rparr>), Ready (demo_ready [demo_entry 1 3 ''y''])]
      demo_node = (Ok (), s')
    \<and> user_db (backend s') = [''x'', ''y''] \<and> sq_applied (backend s') = 3"
proof -
  let ?log = "[demo_entry 1 1 ''x'', demo_entry 1 2 ''bad'', demo_entry 1 3 ''y'']"
  let ?rd = "(demo_ready [demo_entry 1 2 ''bad''])\<lparr>rd_Snapshot := demo_snap\<rparr>"
  let ?evs = "[Ready (demo_ready [demo_entry 1 3 ''y''])]"
  have src: "(user_db demo_source, sq_applied demo_source) =
      sm_run (wq_Unmarshal demo_raft) (user_exec strict_engine) 0 (take 2 ?log) ([], 0)"
    by (simp add: demo_source_def sq_applied_def sm_run_def sm_step_def demo_entry_def strict_engine_def)
  have run: "sm_run (wq_Unmarshal demo_raft) (user_exec strict_engine) 0 ?log ([], 0) = ([''x'', ''y''], 3)"
    by (simp add: sm_run_def sm_step_def demo_entry_def strict_engine_def)
  have log: "log_from (snd ([] :: string list, 0)) ?log" by (simp add: log_from_def demo_entry_def)
  have target: "?log = upto_index (SMIndex (Metadata (rd_Snapshot ?rd))) ?log @ concat (map committed_of (Ready ?rd # ?evs))"
    by (simp add: upto_index_def demo_entry_def demo_snap_def demo_ready_def word_le_nat_alt)
  have carried: "sqlite_carries strict_engine demo_source (rd_Snapshot ?rd)" using demo_source_carries by simp
  have ev: "list_all (\<lambda>e. small (Term e) \<and> small (Index e)) (rd_CommittedEntries ?rd)" "list_all (plain_event demo_raft small) ?evs"
    "\<not> IsEmptySnap demo_raft (rd_Snapshot ?rd)"
    by (simp_all add: demo_ready_def demo_entry_def small_def demo_snap_def zero_snapshot_def)
  from snapshot_catches_up [OF demo_node_ready ev(3) demo_source_ready carried src _ log strict_engine_atomic strict_engine_errs
      ev(1,2) target, of demo_stubs] run
  show ?thesis by (auto simp: prefix_def simp del: runMainLoop.simps)
qed

end
