(* ===== verification/Cluster.thy ===== *)
theory Cluster
  imports Node_Recovery Node_Write Node_Snapshot
begin

text \<open>
  Several nodes at once, over any backend that keeps the contract. Each node takes steps of its own, in any order: an
  event of its main loop, the installation of a snapshot of another node's backend, a Raft message, a write, a
  read or a membership change of a client. What the Raft library guarantees across the nodes is the one thing they
  share: what it hands to a node as committed is, at any moment, an initial part of one log, and after a snapshot
  it goes on behind the index the metadata names.
\<close>

section \<open>Steps\<close>

text \<open>
  The nodes, for each the part of the log it has been handed so far, and the states the backends of the nodes have gone
  through, of which snapshots can be on their way.
\<close>

record ('b, 'r, 'c) cluster =
  members :: "u64 \<rightharpoonup> ('b, 'r, 'c) node"
  handed :: "u64 \<Rightarrow> entry list"
  past :: "'b set"

definition put_node :: "u64 \<Rightarrow> ('b, 'r, 'c) node \<Rightarrow> entry list \<Rightarrow> ('b, 'r, 'c) cluster \<Rightarrow> ('b, 'r, 'c) cluster" where
  "put_node i s h c = c\<lparr>members := (members c)(i \<mapsto> s), handed := (handed c)(i := h), past := insert (backend s) (past c)\<rparr>"

text \<open>What the services of a node can be asked for while its main loop runs.\<close>

datatype request =
    Message message
  | Write "chan \<Rightarrow> goerr option option" string
  | Read string
  | Add u64 node_info
  | Update u64 node_info
  | Remove u64

fun serve :: "('b, 'r) raft_lib \<Rightarrow> ('b, 'q) db_backend \<Rightarrow> request \<Rightarrow> ('b, 'r, 'c) node \<Rightarrow> ('b, 'r, 'c) node" where
  "serve R B (Message m) s = snd (HandleRaftMessage R m s)"
| "serve R B (Write sel sql) s = snd (WriteQuery R sel sql s)"
| "serve R B (Read sql) s = snd (ReadQuery B sql s)"
| "serve R B (Add i info) s = snd (AddNode R i info s)"
| "serve R B (Update i info) s = snd (UpdateNode R i info s)"
| "serve R B (Remove i) s = snd (RemoveNode R i s)"

inductive cluster_step ::
  "('b, 'r) raft_lib \<Rightarrow> ('b, 'q) db_backend \<Rightarrow> (('b, 'r, 'c) node, 'c) client_iface \<Rightarrow> (u64 \<Rightarrow> bool) \<Rightarrow> ('b \<Rightarrow> snapshot \<Rightarrow> bool) \<Rightarrow>
   entry list \<Rightarrow> ('b, 'r, 'c) cluster \<Rightarrow> ('b, 'r, 'c) cluster \<Rightarrow> bool"
  for R B I can carried log where
  event: "members c i = Some s \<Longrightarrow> plain_event R can ev \<Longrightarrow> prefix (handed c i @ committed_of ev) log \<Longrightarrow>
    runMainLoop R B I [ev] s = (r, s') \<Longrightarrow>
    cluster_step R B I can carried log c (put_node i s' (handed c i @ committed_of ev) c)"
| install: "members c i = Some s \<Longrightarrow> src \<in> past c \<Longrightarrow> carried src (rd_Snapshot rd) \<Longrightarrow> \<not> IsEmptySnap R (rd_Snapshot rd) \<Longrightarrow>
    list_all (\<lambda>e. can (Term e) \<and> can (Index e)) (rd_CommittedEntries rd) \<Longrightarrow>
    h = upto_index (SMIndex (Metadata (rd_Snapshot rd))) log @ rd_CommittedEntries rd \<Longrightarrow> prefix h log \<Longrightarrow>
    runMainLoop R B I [Ready rd] s = (r, s') \<Longrightarrow>
    cluster_step R B I can carried log c (put_node i s' h c)"
| serves: "members c i = Some s \<Longrightarrow> cluster_step R B I can carried log c (put_node i (serve R B req s) (handed c i) c)"

inductive cluster_reach ::
  "('b, 'r) raft_lib \<Rightarrow> ('b, 'q) db_backend \<Rightarrow> (('b, 'r, 'c) node, 'c) client_iface \<Rightarrow> (u64 \<Rightarrow> bool) \<Rightarrow> ('b \<Rightarrow> snapshot \<Rightarrow> bool) \<Rightarrow>
   entry list \<Rightarrow> ('b, 'r, 'c) cluster \<Rightarrow> ('b, 'r, 'c) cluster \<Rightarrow> bool"
  for R B I can carried log c0 where
  start: "cluster_reach R B I can carried log c0 c0"
| more: "cluster_reach R B I can carried log c0 c \<Longrightarrow> cluster_step R B I can carried log c c' \<Longrightarrow>
    cluster_reach R B I can carried log c0 c'"

text \<open>A freshly started cluster: every node is up with the same data and has been handed nothing.\<close>

definition fresh_cluster :: "('b \<Rightarrow> bool) \<Rightarrow> ('b \<Rightarrow> 'u \<times> u64) \<Rightarrow> 'u \<times> u64 \<Rightarrow> ('b, 'r, 'c) cluster \<Rightarrow> bool" where
  "fresh_cluster up view x c \<longleftrightarrow> (\<forall>b \<in> past c. up b \<and> view b = x)
     \<and> (\<forall>i s. members c i = Some s \<longrightarrow> handed c i = [] \<and> up (backend s) \<and> raftNode s \<noteq> None
          \<and> indexAfterAppliedSnapshot s = 0 \<and> view (backend s) = x)"

text \<open>What node \<open>i\<close> of a cluster, in state \<open>s\<close>, has executed of the log.\<close>

definition executed_by :: "entry list \<Rightarrow> ('b, 'r, 'c) cluster \<Rightarrow> u64 \<Rightarrow> ('b, 'r, 'c) node \<Rightarrow> entry list" where
  "executed_by log c i s = executed (indexAfterAppliedSnapshot s) log (handed c i)"

section \<open>The invariant\<close>

context snapshot_backend
begin

text \<open>
  A node is up, and its data and applied index are those of the state machine after the entries it has executed, an
  initial part of the log; so is every state a backend has gone through.
\<close>

definition node_inv :: "('b, 'r) raft_lib \<Rightarrow> 'u \<times> u64 \<Rightarrow> entry list \<Rightarrow> entry list \<Rightarrow> ('b, 'r, 'c) node \<Rightarrow> bool" where
  "node_inv R x log h s \<longleftrightarrow> node_up s \<and> prefix h log \<and> (data (backend s), applied (backend s)) =
     sm_run (wq_Unmarshal R) exec 0 (executed (indexAfterAppliedSnapshot s) log h) x"

definition backend_inv :: "('b, 'r) raft_lib \<Rightarrow> 'u \<times> u64 \<Rightarrow> entry list \<Rightarrow> 'b \<Rightarrow> bool" where
  "backend_inv R x log b \<longleftrightarrow> up b \<and> (\<exists>p. prefix p log \<and> (data b, applied b) = sm_run (wq_Unmarshal R) exec 0 p x)"

definition cluster_inv :: "('b, 'r) raft_lib \<Rightarrow> 'u \<times> u64 \<Rightarrow> entry list \<Rightarrow> ('b, 'r, 'c) cluster \<Rightarrow> bool" where
  "cluster_inv R x log c \<longleftrightarrow> (\<forall>i s. members c i = Some s \<longrightarrow> node_inv R x log (handed c i) s)
     \<and> (\<forall>b \<in> past c. backend_inv R x log b)"

lemma cluster_inv_put:
  assumes "log_from (snd x) log" and "cluster_inv R x log c" and "node_inv R x log h s"
  shows "cluster_inv R x log (put_node i s h c)"
proof -
  have "backend_inv R x log (backend s)"
    using assms(3) prefix_executed [OF assms(1)] by (auto simp: node_inv_def backend_inv_def node_up_def)
  then show ?thesis using assms(2,3) by (auto simp: cluster_inv_def put_node_def)
qed

lemma fresh_cluster_inv:
  assumes "log_from (snd x) log" and "fresh_cluster up (\<lambda>b. (data b, applied b)) x c"
  shows "cluster_inv R x log c"
proof -
  have "upto_index 0 log = []"
    using assms(1) unfolding upto_index_def log_from_def by (intro filter_all_false) auto
  then have e: "executed 0 log [] = []" by (simp add: executed_def)
  have "backend_inv R x log b" if "up b" "(data b, applied b) = x" for b
    using that by (auto simp: backend_inv_def intro!: exI [of _ "[]"])
  then show ?thesis using assms(2) e by (auto simp: cluster_inv_def fresh_cluster_def node_inv_def node_up_def)
qed

text \<open>A request leaves the data and the Raft node's presence alone.\<close>

lemma serve_same:
  fixes s :: "('b, 'r, 'c) node"
  assumes "node_up s"
  shows "node_up (serve R B req s) \<and> data (backend (serve R B req s)) = data (backend s)
    \<and> applied (backend (serve R B req s)) = applied (backend s)
    \<and> indexAfterAppliedSnapshot (serve R B req s) = indexAfterAppliedSnapshot s"
proof (cases req)
  case (Read q)
  have "leaves node_up node_view (ReadQuery B q :: (('b, 'r, 'c) node, 'q) op)"
    unfolding ReadQuery_def by (rule node_leaves_backend [OF query_leaves])
  with assms Read show ?thesis by (auto simp: leaves_def node_view_def)
next
  case (Write sel q)
  then show ?thesis
    using assms
    by (auto simp: node_up_def WriteQuery_def op_defs new_channel_def drop_channel_def propose_def on_raft_def return_err_def
        split: prod.splits sum.splits option.splits)
qed (use assms in \<open>auto simp: node_up_def HandleRaftMessage_def AddNode_def UpdateNode_def RemoveNode_def op_defs on_raft_def
       return_err_def split: prod.splits sum.splits option.splits\<close>)

lemma event_inv:
  assumes "quiet_iface I" and "log_from (snd x) log" and "node_inv R x log h s" and "plain_event R can_store ev"
    and "prefix (h @ committed_of ev) log"
    and "\<forall>q u e u'. exec q u = (Some e, u') \<longrightarrow> db_err e" and "runMainLoop R B I [ev] s = (r, s')"
  shows "node_inv R x log (h @ committed_of ev) s'"
proof -
  have "node_up s" using assms(3) by (simp add: node_inv_def)
  from main_loop_run [OF assms(1) this _ assms(6), of R "[ev]"] assms(4,7)
  have "node_up s'" and v: "node_view s' = (sm_run (wq_Unmarshal R) exec (indexAfterAppliedSnapshot s) (committed_of ev)
      (data (backend s), applied (backend s)), config s, indexAfterAppliedSnapshot s)"
    by (auto simp del: runMainLoop.simps)
  then show ?thesis
    using assms(3,5) executed_run [OF assms(2,5), of "wq_Unmarshal R" exec "indexAfterAppliedSnapshot s"]
    by (auto simp: node_inv_def node_view_def)
qed

lemma install_inv:
  assumes "quiet_iface I" and "log_from (snd x) log" and "atomic_exec exec" and "node_up s" and "backend_inv R x log src"
    and "carries src (rd_Snapshot rd)" and "\<not> IsEmptySnap R (rd_Snapshot rd)"
    and "list_all (\<lambda>e. can_store (Term e) \<and> can_store (Index e)) (rd_CommittedEntries rd)"
    and "prefix (upto_index (SMIndex (Metadata (rd_Snapshot rd))) log @ rd_CommittedEntries rd) log"
    and "\<forall>q u e u'. exec q u = (Some e, u') \<longrightarrow> db_err e" and "runMainLoop R B I [Ready rd] s = (r, s')"
  shows "node_inv R x log (upto_index (SMIndex (Metadata (rd_Snapshot rd))) log @ rd_CommittedEntries rd) s'"
proof -
  obtain p where p: "prefix p log" "(data src, applied src) = sm_run (wq_Unmarshal R) exec 0 p x" and up: "up src"
    using assms(5) by (auto simp: backend_inv_def)
  from caught_up [OF assms(1,4,7) up assms(6) p(2,1) assms(2,3,8) _ _ assms(10), of "[]"] assms(9,11)
  show ?thesis by (auto simp: node_inv_def node_view_def simp del: runMainLoop.simps)
qed

lemma cluster_step_inv:
  assumes "quiet_iface I" and "log_from (snd x) log" and "atomic_exec exec"
    and "\<forall>q u e u'. exec q u = (Some e, u') \<longrightarrow> db_err e"
    and "cluster_step R B I can_store carries log c c'" and inv: "cluster_inv R x log c"
  shows "cluster_inv R x log c'"
  using assms(5)
proof cases
  case (event i s ev r s')
  then have "node_inv R x log (handed c i) s" using inv by (simp add: cluster_inv_def)
  from event_inv [OF assms(1,2) this event(3,4) assms(4) event(5)] show ?thesis
    unfolding event(1) by (rule cluster_inv_put [OF assms(2) inv])
next
  case (install i s src rd h r s')
  then have "node_up s" "backend_inv R x log src" using inv by (auto simp: cluster_inv_def node_inv_def)
  from install_inv [OF assms(1-3) this install(4-6) install(8) [unfolded install(7)] assms(4) install(9)] show ?thesis
    unfolding install(1,7) by (rule cluster_inv_put [OF assms(2) inv])
next
  case (serves i s req)
  then have "node_inv R x log (handed c i) s" using inv by (simp add: cluster_inv_def)
  then have "node_inv R x log (handed c i) (serve R B req s)"
    using serve_same [of s R req] by (simp add: node_inv_def)
  then show ?thesis unfolding serves(1) by (rule cluster_inv_put [OF assms(2) inv])
qed

lemma cluster_reach_inv:
  assumes "quiet_iface I" and "log_from (snd x) log" and "atomic_exec exec"
    and "\<forall>q u e u'. exec q u = (Some e, u') \<longrightarrow> db_err e"
    and "cluster_reach R B I can_store carries log c0 c" and "cluster_inv R x log c0"
  shows "cluster_inv R x log c"
  using assms(5)
  by (induction rule: cluster_reach.induct) (auto intro: assms(6) cluster_step_inv [OF assms(1-4)])

text \<open>Two nodes have executed parts of one log, and the shorter leads to the longer.\<close>

lemma members_agree:
  assumes "quiet_iface I" and "log_from (snd x) log" and "atomic_exec exec"
    and "\<forall>q u e u'. exec q u = (Some e, u') \<longrightarrow> db_err e"
    and "cluster_reach R B I can_store carries log c0 c" and "fresh_cluster up (\<lambda>b. (data b, applied b)) x c0"
    and "members c i = Some s" and "members c j = Some t" and "length (executed_by log c i s) \<le> length (executed_by log c j t)"
  shows "prefix (executed_by log c j t) log
    \<and> (\<exists>es. executed_by log c j t = executed_by log c i s @ es \<and> (data (backend t), applied (backend t)) =
         sm_run (wq_Unmarshal R) exec 0 es (data (backend s), applied (backend s)))"
proof -
  let ?p = "executed_by log c i s" and ?q = "executed_by log c j t"
  have "cluster_inv R x log c" by (rule cluster_reach_inv [OF assms(1-5) fresh_cluster_inv [OF assms(2,6)]])
  then have i: "node_inv R x log (handed c i) s" and j: "node_inv R x log (handed c j) t"
    using assms(7,8) by (auto simp: cluster_inv_def)
  have pre: "prefix ?p log" "prefix ?q log"
    using i j prefix_executed [OF assms(2)] by (auto simp: node_inv_def executed_by_def)
  then have "prefix ?p ?q" using assms(9) by (rule prefix_length_prefix)
  then obtain es where es: "?q = ?p @ es" by (auto simp: prefix_def)
  then show ?thesis
    using pre(2) i j unfolding node_inv_def executed_by_def [symmetric] by (auto simp: sm_run_def)
qed

end

section \<open>Agreement\<close>


text \<open>Two nodes started on the data of \<^const>\<open>demo_source\<close>, whose snapshot is on its way.\<close>

definition two_nodes :: "(string list sqlite, nat, grpc_client) cluster" where
  "two_nodes = \<lparr>members = [1 \<mapsto> demo_node\<lparr>backend := demo_source\<rparr>,
     2 \<mapsto> demo_node\<lparr>backend := demo_source, config := (config demo_node)\<lparr>cfg_ID := 2\<rparr>\<rparr>],
     handed = (\<lambda>_. []), past = {demo_source}\<rparr>"

lemma two_nodes_fresh:
  "fresh_cluster sq_ready (\<lambda>b. (user_db b, sq_applied b)) ([''x''], 1) two_nodes"
  using demo_source_ready by (simp add: fresh_cluster_def two_nodes_def demo_source_def sq_applied_def)


end
