(* ===== verification/Bootstrap.thy ===== *)
theory Bootstrap
  imports Node
begin

text \<open>
  Bootstrapping, \<open>internal/bootstrap/bootstrap.go\<close> and \<open>envparams.go\<close>: how a starting process finds
  its node ID, from the file of an earlier life or from its peers, and its peers' addresses from its
  own name. The directory holds one file of interest, \<open>node_id\<close>; file operations and connections can
  fail by the fault schedule.
\<close>

section \<open>Decimal numbers\<close>

definition digit_char :: "nat \<Rightarrow> char" where
  "digit_char d = char_of (48 + d)"

definition is_digit :: "char \<Rightarrow> bool" where
  "is_digit c \<longleftrightarrow> 48 \<le> (of_char c :: nat) \<and> (of_char c :: nat) \<le> 57"

definition digit_val :: "char \<Rightarrow> nat" where
  "digit_val c = of_char c - 48"

text \<open>\<open>fmt.Sprintf("%d", n)\<close>\<close>

fun show_nat :: "nat \<Rightarrow> string" where
  "show_nat n = (if n < 10 then [digit_char n] else show_nat (n div 10) @ [digit_char (n mod 10)])"

declare show_nat.simps [simp del]

definition digits_val :: "string \<Rightarrow> nat" where
  "digits_val s = foldl (\<lambda>a c. a * 10 + digit_val c) 0 s"

text \<open>\<open>strconv.ParseUint(s, 10, 64)\<close> and \<open>strconv.Atoi\<close> of a string of digits.\<close>

definition ParseUint :: "string \<Rightarrow> goerr + u64" where
  "ParseUint s = (if s = [] \<or> \<not> list_all is_digit s then Inl (ENew ''invalid syntax'')
     else if 2 ^ 64 \<le> digits_val s then Inl (ENew ''value out of range'')
     else Inr (of_nat (digits_val s)))"

definition Atoi_digits :: "string \<Rightarrow> goerr + nat" where
  "Atoi_digits s = (if 2 ^ 63 \<le> digits_val s then Inl (ENew ''value out of range'') else Inr (digits_val s))"

text \<open>\<open>strings.TrimSpace\<close> on ASCII text.\<close>

definition is_space :: "char \<Rightarrow> bool" where
  "is_space c \<longleftrightarrow> (of_char c :: nat) \<in> {9, 10, 11, 12, 13, 32}"

definition TrimSpace :: "string \<Rightarrow> string" where
  "TrimSpace s = rev (dropWhile is_space (rev (dropWhile is_space s)))"

section \<open>Parameters\<close>

record boot_params =
  ClusterName :: string
  NodeName :: string
  DirWithNodeIDFile :: string
  ClusterSize :: int
  GRPCPort :: string

record bootstrap_info =
  bi_NodeID :: u64
  bi_IsNewCluster :: bool
  bi_NodeName :: string
  bi_ClusterName :: string
  bi_Peers :: "node_info list"

definition NewEnvParams :: "(string \<Rightarrow> string) \<Rightarrow> string \<Rightarrow> boot_params" where
  "NewEnvParams getenv grpcPort = \<lparr>ClusterName = getenv ''CLUSTER_NAME'', NodeName = getenv ''NODE_NAME'',
     DirWithNodeIDFile = ''/var/lib/mysql'', ClusterSize = 3, GRPCPort = grpcPort\<rparr>"

record ('cb, 'c) boot_env = "('cb, 'c) transport" +
  node_id_file :: "bytes option"

section \<open>Names and peers\<close>

text \<open>
  The regular expression \<open>(.*-)([0-9]+)$\<close>: the match ends the text, lies in its last line (a dot does
  not match a newline) and, being leftmost and greedy, its first group is that line up to the last
  hyphen; what follows the hyphen must be digits.
\<close>

definition last_line :: "string \<Rightarrow> string" where
  "last_line s = rev (takeWhile (\<lambda>c. c \<noteq> CHR 0x0A) (rev s))"

definition match_name :: "string \<Rightarrow> (string \<times> string) option" where
  "match_name s = (let l = rev (last_line s); suf = takeWhile is_digit l; rest = dropWhile is_digit l in
     if suf \<noteq> [] \<and> rest \<noteq> [] \<and> hd rest = CHR ''-'' then Some (rev rest, rev suf) else None)"

definition nodeNameParts :: "string \<Rightarrow> goerr + string \<times> nat" where
  "nodeNameParts nodeName = (case match_name nodeName of
      None \<Rightarrow> Inl (ENew (''unable to parse node name: '' @ nodeName))
    | Some (prefix, suf) \<Rightarrow> (case Atoi_digits suf of
          Inl e \<Rightarrow> Inl (EWrap e ''parsing node index: %s'')
        | Inr i \<Rightarrow> Inr (prefix, i)))"

definition peer_at :: "boot_params \<Rightarrow> string \<Rightarrow> nat \<Rightarrow> node_info" where
  "peer_at p prefix i = \<lparr>ni_Addr = prefix @ show_nat i @ ''.'' @ ClusterName p, ni_Port = GRPCPort p\<rparr>"

text \<open>\<open>make([]nd.NodeInfo, 0, p.ClusterSize-1)\<close> panics on a negative capacity.\<close>

definition getPeers :: "boot_params \<Rightarrow> ('s, node_info list) op" where
  "getPeers p = (case nodeNameParts (NodeName p) of
      Inl e \<Rightarrow> op_err e
    | Inr (prefix, own) \<Rightarrow>
        if ClusterSize p < 1 then op_panic (EDriver ''makeslice: cap out of range'')
        else op_ret (map (peer_at p prefix) (filter (\<lambda>i. i \<noteq> own) [0..<nat (ClusterSize p)])))"

section \<open>Finding an ID\<close>

text \<open>The loop over the peers: whether all failed, the highest ID seen and the active peer.\<close>

fun poll_peers :: "('s, 'c) client_iface \<Rightarrow> node_info list \<Rightarrow> bool \<times> u64 \<times> node_info \<Rightarrow> ('s, bool \<times> u64 \<times> node_info) op" where
  "poll_peers I [] acc = op_ret acc"
| "poll_peers I (peer # peers) (allErrors, highest, active) =
     op_bind (attempt (ci_factory I (ni_Addr peer) (ni_Port peer))) (\<lambda>r. case r of
       Inl _ \<Rightarrow> poll_peers I peers (allErrors, highest, active)
     | Inr client \<Rightarrow>
         op_bind (attempt (ci_GetHighestID I client)) (\<lambda>r2. case r2 of
           Inl _ \<Rightarrow> poll_peers I peers (allErrors, highest, active)
         | Inr nodeID \<Rightarrow>
             (let active' = (if ni_Addr active = [] then peer else active) in
              poll_peers I peers (False,
                if highest < nodeID then (nodeID, peer) else (highest, active')))))"

definition no_peer :: node_info where
  "no_peer = \<lparr>ni_Addr = [], ni_Port = []\<rparr>"

definition findNewHighNodeID ::
  "('s, 'c) client_iface \<Rightarrow> node_info list \<Rightarrow> boot_params \<Rightarrow> ('s, u64 \<times> node_info option) op" where
  "findNewHighNodeID I peers p =
     op_bind (poll_peers I peers (True, 0, no_peer)) (\<lambda>(allErrors, highest, active).
     if allErrors then
       op_ret (case nodeNameParts (NodeName p) of
           Inl _ \<Rightarrow> (0, None)
         | Inr (_, nodeIdx) \<Rightarrow> if nodeIdx \<noteq> 0 then (0, None) else (1, None))
     else op_ret (highest + 1, Some active))"

text \<open>Up to three attempts, until an ID was found.\<close>

fun find_attempts ::
  "('s, 'c) client_iface \<Rightarrow> node_info list \<Rightarrow> boot_params \<Rightarrow> nat \<Rightarrow> u64 \<times> node_info option \<Rightarrow> ('s, u64 \<times> node_info option) op" where
  "find_attempts I peers p 0 acc = op_ret acc"
| "find_attempts I peers p (Suc n) acc =
     op_bind (findNewHighNodeID I peers p) (\<lambda>(nodeID, peer).
     if 0 < nodeID then op_ret (nodeID, peer) else find_attempts I peers p n (nodeID, peer))"

definition reportNewNode :: "('s, 'c) client_iface \<Rightarrow> u64 \<Rightarrow> node_info \<Rightarrow> boot_params \<Rightarrow> ('s, unit) op" where
  "reportNewNode I nodeID existing p =
     op_bind (wrap_err ''failed GRPC connection to active peer %s:%s''
       (ci_factory I (ni_Addr existing) (ni_Port existing))) (\<lambda>client.
     wrap_err ''adding new peer''
       (ci_AddNewPeer I client nodeID (NodeName p @ ''.'' @ ClusterName p) (GRPCPort p)))"

section \<open>New\<close>

text \<open>What \<open>os.Stat\<close> says of the file.\<close>

datatype stat = Exists | NotExist | StatErr goerr

definition os_Stat :: "(('cb, 'c, 'z) boot_env_scheme, stat) op" where
  "os_Stat = op_bind (attempt (sys_call (op_get node_id_file))) (\<lambda>r. op_ret (case r of
     Inl e \<Rightarrow> StatErr e | Inr None \<Rightarrow> NotExist | Inr (Some _) \<Rightarrow> Exists))"

definition read_node_id :: "(('cb, 'c, 'z) boot_env_scheme, u64) op" where
  "read_node_id =
     op_bind (wrap_err ''reading node_id file %s'' (sys_call (op_get node_id_file))) (\<lambda>d.
     let data = (case d of None \<Rightarrow> [] | Some b \<Rightarrow> b) in
     if 0 < length data then (case ParseUint (TrimSpace data) of
         Inl e \<Rightarrow> op_err (EWrap e ''parsing node_id file, data: %s'')
       | Inr i \<Rightarrow> op_ret i)
     else op_ret 0)"

definition write_node_id :: "u64 \<Rightarrow> (('cb, 'c, 'z) boot_env_scheme, unit) op" where
  "write_node_id i = wrap_err ''writing node_id file %s''
     (sys_call (op_mod (\<lambda>s. s\<lparr>node_id_file := Some (show_nat (unat i))\<rparr>)))"

definition bootstrap_New ::
  "(('cb, 'c, 'z) boot_env_scheme, 'c) client_iface \<Rightarrow> boot_params \<Rightarrow> (('cb, 'c, 'z) boot_env_scheme, bootstrap_info) op" where
  "bootstrap_New I p =
     op_bind (getPeers p) (\<lambda>peers.
     op_bind os_Stat (\<lambda>st.
     op_bind (if st = Exists then read_node_id else op_ret 0) (\<lambda>stored.
     op_bind (if (st = Exists \<and> stored = 0) \<or> st = NotExist then
         op_bind (find_attempts I peers p 3 (0, None)) (\<lambda>(nodeID, peer).
         op_bind (case peer of
             None \<Rightarrow> op_ret ()
           | Some q \<Rightarrow> wrap_err ''reporting new node to peer %s:%s'' (reportNewNode I nodeID q p)) (\<lambda>_.
         op_bind (if 0 < nodeID then write_node_id nodeID else op_ret ()) (\<lambda>_.
         op_ret nodeID)))
       else (case st of StatErr e \<Rightarrow> op_err (EWrap e ''opening node_id file %s'') | _ \<Rightarrow> op_ret stored)) (\<lambda>nodeID.
     if nodeID = 0 then op_err (ENew ''could not find node ID to use'')
     else op_ret \<lparr>bi_NodeID = nodeID, bi_IsNewCluster = (nodeID = 1), bi_NodeName = NodeName p,
       bi_ClusterName = ClusterName p, bi_Peers = peers\<rparr>))))"

section \<open>The command line\<close>

text \<open>\<open>strings.Split\<close> on a one-character separator.\<close>

fun str_split :: "char \<Rightarrow> string \<Rightarrow> string list" where
  "str_split sep [] = [[]]"
| "str_split sep (c # cs) = (if c = sep then [] # str_split sep cs
     else (case str_split sep cs of [] \<Rightarrow> [[c]] | w # ws \<Rightarrow> (c # w) # ws))"

text \<open>\<open>parsePeers\<close> of \<open>cmd/controller/main.go\<close>: a malformed peer panics.\<close>

fun parse_peer_list :: "string list \<Rightarrow> node_info list res" where
  "parse_peer_list [] = Ok []"
| "parse_peer_list (p # ps) =
     (if p = [] then parse_peer_list ps
      else (case str_split CHR '':'' p of
          [addr, port] \<Rightarrow> (case parse_peer_list ps of
              Ok rs \<Rightarrow> Ok (\<lparr>ni_Addr = addr, ni_Port = port\<rparr> # rs) | e \<Rightarrow> e)
        | _ \<Rightarrow> Panic (ENew (''malformed peer: '' @ p))))"

definition parsePeers :: "string \<Rightarrow> node_info list res" where
  "parsePeers peers = parse_peer_list (str_split CHR '','' peers)"

section \<open>Round trips of numbers and names\<close>

lemma digit_char: "d < 10 \<Longrightarrow> is_digit (digit_char d) \<and> digit_val (digit_char d) = d"
  by (simp add: is_digit_def digit_char_def digit_val_def of_char_of)

lemma show_nat_digits: "show_nat n \<noteq> [] \<and> list_all is_digit (show_nat n) \<and> digits_val (show_nat n) = n"
proof (induction n rule: less_induct)
  case (less n)
  show ?case
  proof (cases "n < 10")
    case True
    then show ?thesis using digit_char [OF True] by (simp add: show_nat.simps [of n] digits_val_def)
  next
    case False
    then have "n div 10 < n" by simp
    from less.IH [OF this] False digit_char [of "n mod 10"] show ?thesis
      by (simp add: show_nat.simps [of n] digits_val_def)
  qed
qed

lemma digit_not_space: "is_digit c \<Longrightarrow> \<not> is_space c"
  by (auto simp: is_digit_def is_space_def)

lemma TrimSpace_digits: "list_all is_digit s \<Longrightarrow> TrimSpace s = s"
proof -
  assume s: "list_all is_digit s"
  have "dropWhile is_space t = t" if "list_all is_digit t" for t
    using that digit_not_space by (cases t) auto
  with s show ?thesis by (simp add: TrimSpace_def)
qed

lemma ParseUint_show: "ParseUint (TrimSpace (show_nat (unat i))) = Inr i"
proof -
  have "unat i < 2 ^ 64" using unsigned_less [of i, where ?'a = nat] by simp
  then show ?thesis using show_nat_digits [of "unat i"] by (simp add: TrimSpace_digits ParseUint_def)
qed

lemma takeWhile_digits:
  assumes "list_all is_digit ds" and "\<not> is_digit c"
  shows "takeWhile is_digit (ds @ c # rest) = ds" and "dropWhile is_digit (ds @ c # rest) = c # rest"
  using assms by (induction ds) auto

text \<open>
  Names: a pod name made of a prefix, a hyphen and an index is taken apart into exactly these,
  for every index that fits an \<open>int\<close> and every prefix without a line break, hyphens and digits in the
  prefix included; and a name with no index after its last hyphen is refused.
\<close>

theorem nodeNameParts_roundtrip:
  assumes "CHR 0x0A \<notin> set pre"
  shows "(i < 2 ^ 63 \<longrightarrow> nodeNameParts (pre @ ''-'' @ show_nat i) = Inr (pre @ ''-'', i))
    \<and> nodeNameParts (pre @ ''-'') = Inl (ENew (''unable to parse node name: '' @ pre @ ''-''))"
proof -
  have hyphen: "\<not> is_digit CHR ''-''" by (simp add: is_digit_def)
  have "c \<noteq> CHR 0x0A" if "is_digit c" for c using that by (auto simp: is_digit_def)
  then have nl: "CHR 0x0A \<notin> set (show_nat i)" using show_nat_digits [of i] by (auto simp: list_all_iff)
  have ll: "last_line s = s" if "CHR 0x0A \<notin> set s" for s
  proof -
    have "takeWhile (\<lambda>c. c \<noteq> CHR 0x0A) (rev s) = rev s" using that by (auto simp: takeWhile_eq_all_conv)
    then show ?thesis unfolding last_line_def by (simp only: rev_rev_ident)
  qed
  have digs: "list_all is_digit (rev (show_nat i))" "rev (show_nat i) \<noteq> []" using show_nat_digits [of i] by auto
  have l: "rev (last_line (pre @ ''-'' @ show_nat i)) = rev (show_nat i) @ CHR ''-'' # rev pre"
    using ll [of "pre @ ''-'' @ show_nat i"] assms nl by simp
  have "match_name (pre @ ''-'' @ show_nat i) = Some (pre @ ''-'', show_nat i)"
    unfolding match_name_def Let_def l takeWhile_digits [OF digs(1) hyphen] using digs(2) by simp
  moreover have "match_name (pre @ ''-'') = None"
    using ll [of "pre @ ''-''"] assms hyphen by (simp add: match_name_def Let_def)
  ultimately show ?thesis
    using show_nat_digits [of i] by (simp add: nodeNameParts_def Atoi_digits_def)
qed

lemma nodeNameParts_roundtrip_witness:
  "nodeNameParts (''deeb-2-'' @ show_nat 12) = Inr (''deeb-2-'', 12)"
  using nodeNameParts_roundtrip [of "''deeb-2''" 12] by simp

section \<open>A stored ID\<close>

definition file_holds :: "u64 \<Rightarrow> ('cb, 'c, 'z) boot_env_scheme \<Rightarrow> bool" where
  "file_holds i s \<longleftrightarrow> (\<exists>d. node_id_file s = Some d \<and> d \<noteq> [] \<and> ParseUint (TrimSpace d) = Inr i)"

lemma getPeers_pure:
  fixes s s' :: 's
  shows "getPeers p s = (r, s') \<Longrightarrow> s' = s \<and> (\<forall>t :: 's. getPeers p t = (r, t))"
  by (auto simp: getPeers_def op_defs split: sum.splits prod.splits if_splits)

lemma New_from_file:
  assumes "getPeers p s = (Ok peers, s)" and "calm s" and "file_holds i s" and "i \<noteq> 0"
  shows "bootstrap_New I p s = (Ok \<lparr>bi_NodeID = i, bi_IsNewCluster = (i = 1), bi_NodeName = NodeName p,
    bi_ClusterName = ClusterName p, bi_Peers = peers\<rparr>, s)"
proof -
  obtain d where d: "node_id_file s = Some d" "d \<noteq> []" "ParseUint (TrimSpace d) = Inr i"
    using assms(3) by (auto simp: file_holds_def)
  have "os_Stat s = (Ok Exists, s)" using assms(2) d(1) by (simp add: os_Stat_def op_defs sys_call_calm)
  moreover have "read_node_id s = (Ok i, s)"
    using assms(2) d by (simp add: read_node_id_def op_defs sys_call_calm)
  ultimately show ?thesis
    using assms(1,4) by (simp add: bootstrap_New_def op_bind_def op_ret_def)
qed

lemma sys_call_get_Ok: "sys_call (op_get g) s = (Ok x, t) \<Longrightarrow> \<exists>fs. t = s\<lparr>faults := fs\<rparr> \<and> x = g t"
  by (auto simp: sys_call_def op_get_def split: list.splits fault.splits intro: exI [of _ "faults s"])

lemma file_holds_faults [simp]: "file_holds i (s\<lparr>faults := fs\<rparr>) = file_holds i s"
  by (simp add: file_holds_def)

lemma read_node_id_Ok:
  assumes "read_node_id s = (Ok i, t)" and "i \<noteq> 0"
  shows "file_holds i t"
proof -
  from assms(1) obtain d u where d: "sys_call (op_get node_id_file) s = (Ok d, u)"
    and rest: "(let data = (case d of None \<Rightarrow> [] | Some b \<Rightarrow> b) in
      if 0 < length data then (case ParseUint (TrimSpace data) of
          Inl e \<Rightarrow> op_err (EWrap e ''parsing node_id file, data: %s'') | Inr i \<Rightarrow> op_ret i)
      else op_ret 0) u = (Ok i, t)"
    by (auto simp: read_node_id_def op_bind_Ok_iff)
  have "d = node_id_file u" using sys_call_get_Ok [OF d] by auto
  then show ?thesis
    using rest assms(2)
    by (auto simp: Let_def op_ret_def op_err_def file_holds_def split: option.splits sum.splits if_splits)
qed

lemma write_node_id_Ok: "write_node_id i s = (Ok (), t) \<Longrightarrow> file_holds i t"
  using ParseUint_show [of i] show_nat_digits [of "unat i"]
  by (auto simp: write_node_id_def sys_call_def op_mod_def file_holds_def split: list.splits fault.splits)

text \<open>However \<open>New\<close> obtained the ID it returns, the file holds it afterwards.\<close>

lemma New_leaves_file:
  assumes "bootstrap_New I p s = (Ok info, s')"
  shows "bi_NodeID info \<noteq> 0 \<and> file_holds (bi_NodeID info) s'
    \<and> getPeers p s = (Ok (bi_Peers info), s)
    \<and> info = \<lparr>bi_NodeID = bi_NodeID info, bi_IsNewCluster = (bi_NodeID info = 1), bi_NodeName = NodeName p,
        bi_ClusterName = ClusterName p, bi_Peers = bi_Peers info\<rparr>"
proof -
  let ?first = "\<lambda>peers. op_bind (find_attempts I peers p 3 (0, None)) (\<lambda>(nodeID, peer).
      op_bind (case peer of None \<Rightarrow> op_ret ()
        | Some q \<Rightarrow> wrap_err ''reporting new node to peer %s:%s'' (reportNewNode I nodeID q p)) (\<lambda>_.
      op_bind (if 0 < nodeID then write_node_id nodeID else op_ret ()) (\<lambda>_. op_ret nodeID)))"
  have first: "file_holds i u" if "?first peers t = (Ok i, u)" "i \<noteq> 0" for peers t i u
    using that write_node_id_Ok
    by (auto simp: op_bind_Ok_iff op_ret_def word_gt_0 split: if_splits)
  from assms obtain peers s1 st s2 stored s3 i where
    run: "getPeers p s = (Ok peers, s1)" "os_Stat s1 = (Ok st, s2)"
      "(if st = Exists then read_node_id else op_ret 0) s2 = (Ok stored, s3)"
      "(if (st = Exists \<and> stored = 0) \<or> st = NotExist then ?first peers
        else (case st of StatErr e \<Rightarrow> op_err (EWrap e ''opening node_id file %s'') | _ \<Rightarrow> op_ret stored)) s3 = (Ok i, s')"
    and fin: "i \<noteq> 0" "info = \<lparr>bi_NodeID = i, bi_IsNewCluster = (i = 1), bi_NodeName = NodeName p,
        bi_ClusterName = ClusterName p, bi_Peers = peers\<rparr>"
    unfolding bootstrap_New_def op_bind_Ok_iff [of "getPeers p"] op_bind_Ok_iff [of os_Stat]
    by (auto simp: op_bind_Ok_iff [where m = "if _ then _ else _"] op_ret_def op_err_def split: if_splits)
  have "file_holds i s'"
  proof (cases "(st = Exists \<and> stored = 0) \<or> st = NotExist")
    case True
    then show ?thesis using run(4) first fin(1) by simp
  next
    case False
    then have "st = Exists" "i = stored" "s' = s3"
      using run(4) by (auto simp: op_err_def op_ret_def split: stat.splits)
    then show ?thesis using run(3) read_node_id_Ok fin(1) by simp
  qed
  then show ?thesis using fin getPeers_pure [OF run(1)] run(1) by auto
qed

text \<open>
  A node keeps its ID across restarts: whatever way \<open>New\<close> found the ID the first time, under
  whatever faults, once it has returned, running it again on the same directory returns the same
  information, leaves the file as it is and needs no peer to answer.
\<close>

theorem bootstrap_is_stable:
  assumes "bootstrap_New I p s = (Ok info, s')" and "calm s'"
  shows "bootstrap_New I' p s' = (Ok info, s')"
proof -
  note first = New_leaves_file [OF assms(1)]
  then have "getPeers p s = (Ok (bi_Peers info), s)" by blast
  from getPeers_pure [OF this] have "getPeers p s' = (Ok (bi_Peers info), s')" by blast
  from New_from_file [OF this assms(2), of "bi_NodeID info" I'] first
  have "bootstrap_New I' p s' = (Ok \<lparr>bi_NodeID = bi_NodeID info, bi_IsNewCluster = (bi_NodeID info = 1),
      bi_NodeName = NodeName p, bi_ClusterName = ClusterName p, bi_Peers = bi_Peers info\<rparr>, s')" by blast
  also have "\<lparr>bi_NodeID = bi_NodeID info, bi_IsNewCluster = (bi_NodeID info = 1),
      bi_NodeName = NodeName p, bi_ClusterName = ClusterName p, bi_Peers = bi_Peers info\<rparr> = info"
    using first by (elim conjE) (rule sym)
  finally show ?thesis .
qed

text \<open>Parameters and an environment for the evaluations.\<close>

definition demo_params :: "string \<Rightarrow> boot_params" where
  "demo_params n = \<lparr>ClusterName = ''c'', NodeName = n, DirWithNodeIDFile = ''/d'', ClusterSize = 2, GRPCPort = ''10''\<rparr>"

definition demo_env :: "bytes option \<Rightarrow> (unit, grpc_client) boot_env" where
  "demo_env f = \<lparr>faults = [], destMap = Map.empty, peerMap = [], conns_made = 0, conns_closed = [], node_id_file = f\<rparr>"

lemma demo_name: "nodeNameParts ''d-0'' = Inr (''d-'', 0)" "nodeNameParts ''d-1'' = Inr (''d-'', 1)"
  by (simp_all add: nodeNameParts_def match_name_def last_line_def is_digit_def Atoi_digits_def digits_val_def
      digit_val_def Let_def)

lemma demo_peers:
  "getPeers (demo_params ''d-0'') s = (Ok [peer_at (demo_params ''d-0'') ''d-'' 1], s)"
  "getPeers (demo_params ''d-1'') s = (Ok [peer_at (demo_params ''d-1'') ''d-'' 0], s)"
proof -
  have "[0..<2] = [0, 1 :: nat]" by (simp add: upt_rec)
  then show "getPeers (demo_params ''d-0'') s = (Ok [peer_at (demo_params ''d-0'') ''d-'' 1], s)"
    "getPeers (demo_params ''d-1'') s = (Ok [peer_at (demo_params ''d-1'') ''d-'' 0], s)"
    by (simp_all add: getPeers_def demo_params_def demo_name op_ret_def)
qed

lemma bootstrap_is_stable_witness:
  "bootstrap_New (grpc_iface demo_stubs) (demo_params ''d-1'') (demo_env (Some ''7'')) =
    (Ok \<lparr>bi_NodeID = 7, bi_IsNewCluster = False, bi_NodeName = ''d-1'', bi_ClusterName = ''c'',
       bi_Peers = [peer_at (demo_params ''d-1'') ''d-'' 0]\<rparr>, demo_env (Some ''7''))"
proof -
  have "file_holds 7 (demo_env (Some ''7''))"
    by (simp add: file_holds_def demo_env_def ParseUint_def TrimSpace_def is_space_def is_digit_def digits_val_def digit_val_def)
  then have "bootstrap_New (grpc_iface demo_stubs) (demo_params ''d-1'') (demo_env (Some ''7'')) =
    (Ok \<lparr>bi_NodeID = 7, bi_IsNewCluster = False, bi_NodeName = ''d-1'', bi_ClusterName = ''c'',
       bi_Peers = [peer_at (demo_params ''d-1'') ''d-'' 0]\<rparr>, demo_env (Some ''7''))"
    using New_from_file [OF demo_peers(2), of "demo_env (Some ''7'')" 7 "grpc_iface demo_stubs"]
    by (simp add: calm_def demo_env_def demo_params_def)
  from bootstrap_is_stable [OF this, of "grpc_iface demo_stubs"] show ?thesis by (simp add: calm_def demo_env_def)
qed

section \<open>A first start\<close>

text \<open>The peers that answer, with the highest ID each reports.\<close>

definition answers :: "grpc_stubs \<Rightarrow> (string \<Rightarrow> string \<Rightarrow> goerr + u64) \<Rightarrow> node_info list \<Rightarrow> (node_info \<times> u64) list" where
  "answers N hi ps = List.map_filter (\<lambda>q. if dial N (ni_Addr q) (ni_Port q) = None
     then (case hi (ni_Addr q) (ni_Port q) of Inl _ \<Rightarrow> None | Inr v \<Rightarrow> Some (q, v)) else None) ps"

fun poll_step :: "bool \<times> u64 \<times> node_info \<Rightarrow> node_info \<times> u64 \<Rightarrow> bool \<times> u64 \<times> node_info" where
  "poll_step (e, h, a) (q, v) = (False, if h < v then (v, q) else (h, if ni_Addr a = [] then q else a))"

lemma poll_grpc:
  assumes "\<forall>b c. rpc_HighestID N b c = hi (dest_addr c) (dest_port c)"
  shows "calm s \<Longrightarrow> \<exists>n. poll_peers (grpc_iface N) ps acc s = (Ok (foldl poll_step acc (answers N hi ps)), s\<lparr>conns_made := n\<rparr>)"
proof (induction ps arbitrary: acc s)
  case Nil
  then show ?case by (intro exI [of _ "conns_made s"]) (simp add: op_ret_def answers_def map_filter_simps)
next
  case (Cons q ps)
  obtain e h a where acc: "acc = (e, h, a)" using prod_cases3 by blast
  let ?s = "s\<lparr>conns_made := Suc (conns_made s)\<rparr>"
  have c: "calm ?s" using Cons.prems by (simp add: calm_def)
  have fac: "ci_factory (grpc_iface N) (ni_Addr q) (ni_Port q) s = (case dial N (ni_Addr q) (ni_Port q) of
      Some x \<Rightarrow> (Err (EWrap x ''grpc dial error %s:%s''), s)
    | None \<Rightarrow> (Ok \<lparr>conn = conns_made s, dest_addr = ni_Addr q, dest_port = ni_Port q\<rparr>, ?s))"
    using Cons.prems by (simp add: grpc_simps wrap_err_def sys_call_calm split: option.splits)
  have ask: "ci_GetHighestID (grpc_iface N) c ?s = (case hi (dest_addr c) (dest_port c) of Inl x \<Rightarrow> Err x | Inr v \<Rightarrow> Ok v, ?s)"
    for c using c assms by (simp add: grpc_iface_def grpc_GetHighestID_def rpc_def sys_call_calm)
  show ?case
  proof (cases "dial N (ni_Addr q) (ni_Port q)")
    case (Some x)
    then show ?thesis
      using Cons.IH [OF Cons.prems, of acc] fac acc by (simp add: op_defs answers_def map_filter_simps)
  next
    case None
    show ?thesis
    proof (cases "hi (ni_Addr q) (ni_Port q)")
      case (Inl x)
      then show ?thesis
        using Cons.IH [OF c, of acc] fac ask None acc
        by (auto simp: op_defs answers_def map_filter_simps)
    next
      case (Inr v)
      then show ?thesis
        using Cons.IH [OF c, of "poll_step acc (q, v)"] fac ask None acc
        by (auto simp: op_defs answers_def map_filter_simps Let_def)
    qed
  qed
qed

text \<open>The highest answer and who gave it.\<close>

lemma poll_fold:
  assumes "as \<noteq> []" and "\<forall>q \<in> fst ` set as. ni_Addr q \<noteq> []"
  shows "\<exists>h a. foldl poll_step (e, 0, no_peer) as = (False, h, a) \<and> (\<forall>v \<in> snd ` set as. v \<le> h)
    \<and> (h = 0 \<or> (a, h) \<in> set as) \<and> a \<in> fst ` set as"
  using assms
proof (induction as rule: rev_induct)
  case (snoc x xs)
  obtain q v where x: "x = (q, v)" by fastforce
  show ?case
  proof (cases "xs = []")
    case True
    then show ?thesis using x by (auto simp: no_peer_def word_gt_0)
  next
    case False
    with snoc obtain h a where ih: "foldl poll_step (e, 0, no_peer) xs = (False, h, a)" "\<forall>v \<in> snd ` set xs. v \<le> h"
      "h = 0 \<or> (a, h) \<in> set xs" "a \<in> fst ` set xs" by auto
    have "ni_Addr a \<noteq> []" using ih(4) snoc.prems(2) by auto
    moreover have "\<forall>w \<in> snd ` set xs. w \<le> (if h < v then v else h)"
      using ih(2) by (auto intro: order.trans less_imp_le)
    ultimately show ?thesis
      using ih x by (cases "h < v") (auto simp: not_less)
  qed
qed simp

lemma peers_have_addresses:
  assumes "getPeers p s = (Ok peers, s')" and "q \<in> set peers"
  shows "ni_Addr q \<noteq> []"
  using assms by (auto simp: getPeers_def peer_at_def op_defs split: sum.splits prod.splits if_splits)

lemma answers_sub: "fst ` set (answers N hi ps) \<subseteq> set ps"
  by (induction ps) (auto simp: answers_def map_filter_simps split: if_splits sum.splits)

lemma calm_conns [simp]: "calm (s\<lparr>conns_made := n\<rparr>) = calm s"
  by (simp add: calm_def)

lemma find_nobody:
  assumes "\<forall>b c. rpc_HighestID N b c = hi (dest_addr c) (dest_port c)" and "answers N hi peers = []"
    and "nodeNameParts (NodeName p) = Inr (prefix, i)"
  shows "calm s \<Longrightarrow> 0 < k \<Longrightarrow> \<exists>n. find_attempts (grpc_iface N) peers p k acc s =
    (Ok (if i = 0 then 1 else 0, None), s\<lparr>conns_made := n\<rparr>)"
proof (induction k arbitrary: s acc)
  case (Suc k)
  from poll_grpc [OF assms(1) Suc.prems(1), of peers "(True, 0, no_peer)"] assms(2)
  obtain n where poll: "poll_peers (grpc_iface N) peers (True, 0, no_peer) s = (Ok (True, 0, no_peer), s\<lparr>conns_made := n\<rparr>)"
    by auto
  then have one: "findNewHighNodeID (grpc_iface N) peers p s = (Ok (if i = 0 then 1 else 0, None), s\<lparr>conns_made := n\<rparr>)"
    using assms(3) by (simp add: findNewHighNodeID_def op_bind_def op_ret_def)
  show ?case
  proof (cases "i = 0 \<or> k = 0")
    case True
    then show ?thesis using one by (intro exI [of _ n]) (auto simp: op_bind_def op_ret_def)
  next
    case False
    then have "calm (s\<lparr>conns_made := n\<rparr>)" "0 < k" using Suc.prems(1) by simp_all
    from Suc.IH [OF this, of "(0, None)"] False one show ?thesis by (auto simp: op_bind_def)
  qed
qed simp

lemma New_first:
  assumes "getPeers p s = (Ok peers, s)" and "calm s" and "node_id_file s = None"
  shows "bootstrap_New I p s =
     op_bind (op_bind (find_attempts I peers p 3 (0, None)) (\<lambda>(nodeID, peer).
         op_bind (case peer of
             None \<Rightarrow> op_ret ()
           | Some q \<Rightarrow> wrap_err ''reporting new node to peer %s:%s'' (reportNewNode I nodeID q p)) (\<lambda>_.
         op_bind (if 0 < nodeID then write_node_id nodeID else op_ret ()) (\<lambda>_.
         op_ret nodeID)))) (\<lambda>nodeID.
     if nodeID = 0 then op_err (ENew ''could not find node ID to use'')
     else op_ret \<lparr>bi_NodeID = nodeID, bi_IsNewCluster = (nodeID = 1), bi_NodeName = NodeName p,
       bi_ClusterName = ClusterName p, bi_Peers = peers\<rparr>) s"
proof -
  have "os_Stat s = (Ok NotExist, s)" using assms(2,3) by (simp add: os_Stat_def op_defs sys_call_calm)
  note steps = op_bind_eq_of_Ok [where m = "getPeers p" and s = s and t = s and x = peers, OF assms(1)]
    op_bind_eq_of_Ok [where m = os_Stat and s = s and t = s and x = NotExist, OF this]
  show ?thesis unfolding bootstrap_New_def steps by simp
qed

lemma calm_write: "calm s \<Longrightarrow> write_node_id i s = (Ok (), s\<lparr>node_id_file := Some (show_nat (unat i))\<rparr>)"
  by (simp add: write_node_id_def wrap_err_def sys_call_calm op_mod_def)

text \<open>
  C36. Only the pod with index 0 founds a cluster: on a first start on which no peer answers, it
  takes the ID 1, records it and reports a new cluster (also when the other pods are running and
  merely out of reach); any other pod gives up with an error and records nothing.
\<close>

theorem bootstrap_founds_cluster:
  assumes "calm s" and "node_id_file s = None" and "getPeers p s = (Ok peers, s)"
    and "nodeNameParts (NodeName p) = Inr (prefix, i)"
    and "\<forall>b c. rpc_HighestID N b c = hi (dest_addr c) (dest_port c)" and "answers N hi peers = []"
  shows "if i = 0
    then \<exists>info s'. bootstrap_New (grpc_iface N) p s = (Ok info, s') \<and> bi_NodeID info = 1 \<and> bi_IsNewCluster info
      \<and> file_holds 1 s'
    else \<exists>s'. bootstrap_New (grpc_iface N) p s = (Err (ENew ''could not find node ID to use''), s')
      \<and> node_id_file s' = None"
proof -
  from find_nobody [OF assms(5,6,4,1), of 3 "(0, None)"] obtain n where
    find: "find_attempts (grpc_iface N) peers p 3 (0, None) s = (Ok (if i = 0 then 1 else 0, None), s\<lparr>conns_made := n\<rparr>)"
    by auto
  have "write_node_id 1 (s\<lparr>conns_made := n\<rparr>) = (Ok (), s\<lparr>conns_made := n, node_id_file := Some (show_nat (unat (1 :: u64)))\<rparr>)"
    using assms(1) by (simp add: calm_write)
  moreover from this have "file_holds 1 (s\<lparr>conns_made := n, node_id_file := Some (show_nat (unat (1 :: u64)))\<rparr>)"
    by (rule write_node_id_Ok)
  ultimately show ?thesis
    using find assms(2) unfolding New_first [OF assms(3,1,2)]
    by (simp add: op_bind_def op_ret_def op_err_def)
qed


lemma bootstrap_founds_cluster_witness:
  "\<exists>info s'. bootstrap_New (grpc_iface (demo_stubs\<lparr>rpc_HighestID := (\<lambda>b c. Inl EUnavailable)\<rparr>)) (demo_params ''d-0'') (demo_env None)
     = (Ok info, s') \<and> bi_NodeID info = 1 \<and> bi_IsNewCluster info"
proof -
  let ?N = "demo_stubs\<lparr>rpc_HighestID := (\<lambda>b c. Inl EUnavailable)\<rparr>"
  have "calm (demo_env None)" "node_id_file (demo_env None) = None" by (simp_all add: calm_def demo_env_def)
  moreover have "nodeNameParts (NodeName (demo_params ''d-0'')) = Inr (''d-'', 0)"
    by (simp add: demo_params_def demo_name)
  moreover have "answers ?N (\<lambda>a q. Inl EUnavailable) ps = []" for ps
    by (induction ps) (simp_all add: answers_def map_filter_simps)
  ultimately show ?thesis
    using bootstrap_founds_cluster [OF _ _ demo_peers(1), of "demo_env None" "''d-''" 0 ?N "\<lambda>a q. Inl EUnavailable"] by auto
qed


section \<open>The peers of a pod\<close>

lemma show_nat_inj: "show_nat m = show_nat n \<Longrightarrow> m = n"
  using show_nat_digits by metis

text \<open>
  A pod's peers are the other pods of its cluster: for a well-formed name the list has one address
  for every index below the cluster size except its own, in order and without repetition, and the pod's
  own address is not among them.
\<close>

theorem getPeers_are_the_others:
  assumes "nodeNameParts (NodeName p) = Inr (prefix, own)" and "1 \<le> ClusterSize p"
  shows "\<exists>peers. getPeers p s = (Ok peers, s) \<and> distinct peers
    \<and> set peers = peer_at p prefix ` ({i. int i < ClusterSize p} - {own}) \<and> peer_at p prefix own \<notin> set peers
    \<and> int (length peers) = (if int own < ClusterSize p then ClusterSize p - 1 else ClusterSize p)"
proof -
  let ?is = "filter (\<lambda>i. i \<noteq> own) [0..<nat (ClusterSize p)]"
  have inj: "peer_at p prefix i = peer_at p prefix j \<Longrightarrow> i = j" for i j
    using show_nat_inj by (simp add: peer_at_def)
  have get: "getPeers p s = (Ok (map (peer_at p prefix) ?is), s)"
    using assms by (simp add: getPeers_def op_ret_def)
  have dist: "distinct (map (peer_at p prefix) ?is)" using inj by (simp add: distinct_map inj_on_def)
  have "set ?is = {i. int i < ClusterSize p} - {own}" using assms(2) by auto
  then have set: "set (map (peer_at p prefix) ?is) = peer_at p prefix ` ({i. int i < ClusterSize p} - {own})" by simp
  have "length ?is = card (set ?is)" by (simp only: distinct_card distinct_filter distinct_upt)
  also have "set ?is = {0..<nat (ClusterSize p)} - {own}" by auto
  also have "card \<dots> = (if own < nat (ClusterSize p) then nat (ClusterSize p) - 1 else nat (ClusterSize p))"
    by (simp add: card_Diff_singleton_if)
  finally have len: "length ?is = (if own < nat (ClusterSize p) then nat (ClusterSize p) - 1 else nat (ClusterSize p))" .
  have "peer_at p prefix own \<notin> set (map (peer_at p prefix) ?is)" using inj by auto
  moreover have "int (length (map (peer_at p prefix) ?is)) = (if int own < ClusterSize p then ClusterSize p - 1 else ClusterSize p)"
    using len assms(2) by (auto simp: zless_nat_eq_int_zless)
  ultimately show ?thesis using get dist set by blast
qed

lemma getPeers_are_the_others_witness:
  "\<exists>peers. getPeers (demo_params ''d-1'') (demo_env None) = (Ok peers, demo_env None) \<and> int (length peers) = 1"
  using getPeers_are_the_others [of "demo_params ''d-1''" "''d-''" 1 "demo_env None"]
  by (auto simp: demo_params_def demo_name)

lemma str_split_append:
  "sep \<notin> set a \<Longrightarrow> str_split sep (a @ sep # b) = a # str_split sep b"
  "sep \<notin> set a \<Longrightarrow> str_split sep a = [a]"
  by (induction a) auto

lemma parse_peer_list_fields:
  "list_all (\<lambda>q. CHR '':'' \<notin> set (ni_Addr q) \<and> CHR '':'' \<notin> set (ni_Port q)) qs \<Longrightarrow>
   parse_peer_list (map (\<lambda>q. ni_Addr q @ '':'' @ ni_Port q) qs) = Ok qs"
  by (induction qs) (simp_all add: str_split_append)

definition join_peers :: "node_info list \<Rightarrow> string" where
  "join_peers qs = concat (map (\<lambda>q. ni_Addr q @ '':'' @ ni_Port q @ '','') qs)"

lemma split_join:
  "list_all (\<lambda>q. CHR '','' \<notin> set (ni_Addr q) \<and> CHR '','' \<notin> set (ni_Port q)) qs \<Longrightarrow>
   str_split CHR '','' (join_peers qs) = map (\<lambda>q. ni_Addr q @ '':'' @ ni_Port q) qs @ [[]]"
proof (induction qs)
  case (Cons q qs)
  have eq: "join_peers (q # qs) = (ni_Addr q @ '':'' @ ni_Port q) @ CHR '','' # join_peers qs"
    by (simp add: join_peers_def)
  show ?case unfolding eq using Cons by (subst str_split_append) simp_all
qed (simp add: join_peers_def)

lemma parse_peer_list_end: "parse_peer_list ps = Ok qs \<Longrightarrow> parse_peer_list (ps @ [[]]) = Ok qs"
  by (induction ps arbitrary: qs) (auto split: if_splits list.splits res.splits)

text \<open>
  The \<open>-peers\<close> flag: a list of host and port pairs, each followed by a comma, is parsed back into
  exactly that list, as long as hosts and ports contain neither comma nor colon; a peer without
  a colon panics.
\<close>

theorem parsePeers_roundtrip:
  assumes "list_all (\<lambda>q. CHR '','' \<notin> set (ni_Addr q @ ni_Port q) \<and> CHR '':'' \<notin> set (ni_Addr q @ ni_Port q)) qs"
  shows "parsePeers (join_peers qs) = Ok qs \<and> parsePeers ''localhost'' = Panic (ENew ''malformed peer: localhost'')"
proof -
  have "parse_peer_list (map (\<lambda>q. ni_Addr q @ '':'' @ ni_Port q) qs) = Ok qs"
    using assms by (intro parse_peer_list_fields) (simp add: list_all_iff)
  moreover have "str_split CHR '','' (join_peers qs) = map (\<lambda>q. ni_Addr q @ '':'' @ ni_Port q) qs @ [[]]"
    using assms by (intro split_join) (simp add: list_all_iff)
  ultimately show ?thesis by (simp add: parsePeers_def parse_peer_list_end)
qed

lemma parsePeers_roundtrip_witness:
  "parsePeers ''a:1,b:2,'' = Ok [\<lparr>ni_Addr = ''a'', ni_Port = ''1''\<rparr>, \<lparr>ni_Addr = ''b'', ni_Port = ''2''\<rparr>]"
  using parsePeers_roundtrip [of "[\<lparr>ni_Addr = ''a'', ni_Port = ''1''\<rparr>, \<lparr>ni_Addr = ''b'', ni_Port = ''2''\<rparr>]"]
  by (simp add: join_peers_def)

end
