(* ===== verification/Server.thy ===== *)
theory Server
  imports Node "HOL-Library.Multiset"
begin

text \<open>
  The gRPC services of a process, \<open>internal/server/raft.go\<close> (what nodes ask of each other) and
  \<open>internal/server/control.go\<close> (what clients ask), and the life cycle of \<open>internal/server/server.go\<close>.
  The codecs, the SQL driver's rows and the response stream are parameters; the order in which the
  goroutines of a health check deliver their answers is an argument.
\<close>

section \<open>The Raft service\<close>

definition rs_Message :: "('b, 'r) raft_lib \<Rightarrow> (bytes \<Rightarrow> goerr + message) \<Rightarrow> bytes \<Rightarrow> (('b, 'r, 'c) node, unit) op" where
  "rs_Message R msg_Unmarshal data = (case msg_Unmarshal data of
      Inl e \<Rightarrow> op_err (EWrap e ''failed to unmarshal raft message'')
    | Inr m \<Rightarrow> wrap_err ''failed to handle raft message'' (HandleRaftMessage R m))"

definition rs_GetID :: "('b, 'r, 'c) node \<Rightarrow> u64" where
  "rs_GetID s = GetID s"

definition rs_HighestID :: "('b, 'r) raft_lib \<Rightarrow> ('b, 'r, 'c) node \<Rightarrow> u64" where
  "rs_HighestID R s = (let status = RaftStatus R s in scan_max (map fst (st_Progress status)) (st_ID status))"

definition rs_Progress :: "('b, 'r) raft_lib \<Rightarrow> ('b, 'r, 'c) node \<Rightarrow> progress_response" where
  "rs_Progress R s = (let status = RaftStatus R s in
     \<lparr>pr_Id = st_ID status, pr_Applied = st_Applied status, pr_State = st_State status,
      pr_ProgressMap = map (\<lambda>(i, match). (i, match)) (st_Progress status)\<rparr>)"

text \<open>One goroutine per peer asks for its progress; a failed call is answered with nil.\<close>

fun ask_progress :: "('s, 'c) client_iface \<Rightarrow> 'c list \<Rightarrow> ('s, progress_response option list) op" where
  "ask_progress I [] = op_ret []"
| "ask_progress I (c # cs) =
     op_bind (attempt (ci_Progress I c)) (\<lambda>r.
     op_bind (ask_progress I cs) (\<lambda>rest.
     op_ret ((case r of Inl _ \<Rightarrow> None | Inr p \<Rightarrow> Some p) # rest)))"

text \<open>
  The receiving loop: the first answer of a leader, and the answers it did not wait for (the
  channel is unbuffered, so that their goroutines stay in their sends).
\<close>

fun receive_leader :: "progress_response option list \<Rightarrow> progress_response option \<times> progress_response option list" where
  "receive_leader [] = (None, [])"
| "receive_leader (r # rs) = (case r of
      Some p \<Rightarrow> if pr_State p = ''StateLeader'' then (Some p, rs) else receive_leader rs
    | None \<Rightarrow> receive_leader rs)"

text \<open>
  \<open>CheckHealth\<close>, with the field \<open>IsLeader\<close> of the response as the value. \<open>arrival\<close> is the order in which
  the peers answer, \<open>meanwhile\<close> what the main loop did to the node before the status is read again.
\<close>

definition rs_CheckHealth ::
  "('b, 'r) raft_lib \<Rightarrow> (('b, 'r, 'c) node, 'c) client_iface \<Rightarrow> ('c list \<Rightarrow> 'c list) \<Rightarrow>
   (('b, 'r, 'c) node \<Rightarrow> ('b, 'r, 'c) node) \<Rightarrow> u64 \<Rightarrow> (('b, 'r, 'c) node, bool) op" where
  "rs_CheckHealth R I arrival meanwhile LagThreshold =
     op_bind (op_get (RaftStatus R)) (\<lambda>status.
     if st_State status = ''StateLeader'' then op_ret True
     else
       op_bind GetPeerClients (\<lambda>peerClients.
       op_bind (ask_progress I (arrival peerClients)) (\<lambda>answers.
       case fst (receive_leader answers) of
         None \<Rightarrow> op_err (ENew ''did not received a Progress() response from a leader node'')
       | Some leader \<Rightarrow>
           op_bind (op_mod meanwhile) (\<lambda>_.
           op_bind (op_get (RaftStatus R)) (\<lambda>status.
           if pr_Applied leader > st_Applied status + LagThreshold
           then op_err (ENew ''node is behind leader by %d'')
           else op_ret False)))))"

section \<open>The control service\<close>

definition cs_Status :: "('b, 'r, 'c) node \<Rightarrow> string" where
  "cs_Status s = ''OK''"

definition cs_AddPeer :: "('b, 'r) raft_lib \<Rightarrow> u64 \<Rightarrow> string \<Rightarrow> string \<Rightarrow> (('b, 'r, 'c) node, unit) op" where
  "cs_AddPeer R i addr port = AddNode R i \<lparr>ni_Addr = addr, ni_Port = port\<rparr>"

definition cs_ExecuteSQL ::
  "('b, 'r) raft_lib \<Rightarrow> (chan \<Rightarrow> goerr option option) \<Rightarrow> string \<Rightarrow> (('b, 'r, 'c) node, unit) op" where
  "cs_ExecuteSQL R sel sql = WriteQuery R sel sql"

text \<open>The Go types a column can be scanned into, and the values of these types.\<close>

datatype go_type =
    TString | TBytes | TInt | TUint | TUint64 | TInt64 | TInt8 | TInt16 | TInt32 | TUint8 | TUint16 | TUint32
  | TBool | TTime | TNullString | TNullInt64 | TNullFloat64 | TNullBool | TNullTime | TRawBytes
  | TFloat64 | TOther string

datatype go_value =
    VString string
  | VBytes bytes
  | VInt "64 word" | VUint "64 word" | VUint64 "64 word" | VInt64 "64 word"
  | VInt8 "8 word" | VInt16 "16 word" | VInt32 "32 word"
  | VUint8 "8 word" | VUint16 "16 word" | VUint32 "32 word"
  | VBool bool
  | VTime int
  | VNullString "string option"
  | VNullInt64 "64 word option"
  | VNullFloat64 "string option"
  | VNullBool "bool option"
  | VNullTime "int option"
  | VRawBytes bytes
  | VFloat64 string
  | VOther string

text \<open>
  The cells of a response: \<open>oneof\<close> string, bytes, 64-bit and 32-bit integer, boolean and timestamp
  (seconds and nanoseconds), or unset. A float is kept as its text in the format \<open>%f\<close>.
\<close>

datatype cell =
    CStr string | CBy bytes | CI64 "64 word" | CI32 "32 word" | CB bool | CTs "64 word" "32 word" | CUnset

record column =
  ScanType :: "go_type option"
  DatabaseTypeName :: string

text \<open>The type to scan a column into: the driver's, or by the name of the database's type when it has none.\<close>

definition column_type :: "column \<Rightarrow> go_type option" where
  "column_type ct = (case ScanType ct of
      Some t \<Rightarrow> Some t
    | None \<Rightarrow>
        if DatabaseTypeName ct = ''INTEGER'' \<or> DatabaseTypeName ct = ''INT'' then Some TInt
        else if DatabaseTypeName ct = ''REAL'' then Some TFloat64
        else if DatabaseTypeName ct = ''TEXT'' then Some TString
        else if DatabaseTypeName ct = ''BLOB'' then Some TBytes
        else None)"

text \<open>
  A time is the number of nanoseconds since 1970; \<open>v.Unix()\<close> are its seconds rounded down, and the
  field \<open>Nanos\<close> is \<open>int32(v.UnixNano())\<close>.
\<close>

definition timestamp :: "int \<Rightarrow> cell" where
  "timestamp ns = CTs (word_of_int (ns div 10 ^ 9)) (word_of_int ns)"

text \<open>The type switch; \<open>None\<close> is the \<open>default\<close> branch.\<close>

fun to_cell :: "go_value \<Rightarrow> cell option" where
  "to_cell (VString v) = Some (CStr v)"
| "to_cell (VBytes v) = Some (CBy v)"
| "to_cell (VInt v) = Some (CI64 v)"
| "to_cell (VUint v) = Some (CI64 v)"
| "to_cell (VUint64 v) = Some (CI64 v)"
| "to_cell (VInt64 v) = Some (CI64 v)"
| "to_cell (VInt8 v) = Some (CI32 (scast v))"
| "to_cell (VInt16 v) = Some (CI32 (scast v))"
| "to_cell (VInt32 v) = Some (CI32 v)"
| "to_cell (VUint8 v) = Some (CI32 (ucast v))"
| "to_cell (VUint16 v) = Some (CI32 (ucast v))"
| "to_cell (VUint32 v) = Some (CI32 v)"
| "to_cell (VBool v) = Some (CB v)"
| "to_cell (VTime v) = Some (timestamp v)"
| "to_cell (VNullString v) = Some (case v of Some x \<Rightarrow> CStr x | None \<Rightarrow> CUnset)"
| "to_cell (VNullInt64 v) = Some (case v of Some x \<Rightarrow> CI64 x | None \<Rightarrow> CUnset)"
| "to_cell (VNullFloat64 v) = Some (case v of Some x \<Rightarrow> CBy x | None \<Rightarrow> CUnset)"
| "to_cell (VNullBool v) = Some (case v of Some x \<Rightarrow> CB x | None \<Rightarrow> CUnset)"
| "to_cell (VNullTime v) = Some (case v of Some x \<Rightarrow> timestamp x | None \<Rightarrow> CUnset)"
| "to_cell (VRawBytes v) = Some (if 0 < length v then CStr v else CUnset)"
| "to_cell _ = None"

fun to_cells :: "go_value list \<Rightarrow> goerr + cell list" where
  "to_cells [] = Inr []"
| "to_cells (v # vs) = (case to_cell v of
      None \<Rightarrow> Inl (ENew ''unsupported scan value type: %T'')
    | Some c \<Rightarrow> (case to_cells vs of Inl e \<Rightarrow> Inl e | Inr cs \<Rightarrow> Inr (c # cs)))"

text \<open>
  The rows of a query: \<open>column_types\<close> may fail, \<open>rows\<close> are what \<open>Next\<close> steps through, \<open>scan\<close> converts a row into
  the requested types or fails, \<open>rows_err\<close> is \<open>rows.Err()\<close> at the end.
\<close>

record ('q, 'row) sql_rows =
  column_types :: "'q \<Rightarrow> goerr + column list"
  result_rows :: "'q \<Rightarrow> 'row list"
  scan_row :: "go_type list \<Rightarrow> 'row \<Rightarrow> goerr + go_value list"
  rows_err :: "'q \<Rightarrow> goerr option"

text \<open>
  One row: the types of all columns (\<open>reflect.New\<close> of a nil type panics), the scan, the cells.
\<close>

definition row_cells :: "('q, 'row) sql_rows \<Rightarrow> column list \<Rightarrow> 'row \<Rightarrow> cell list res" where
  "row_cells Q cts row =
     (if list_ex (\<lambda>ct. column_type ct = None) cts then Panic nil_deref
      else (case scan_row Q (map (\<lambda>ct. the (column_type ct)) cts) row of
          Inl e \<Rightarrow> Err e
        | Inr vs \<Rightarrow> (case to_cells vs of Inl e \<Rightarrow> Err e | Inr cells \<Rightarrow> Ok cells)))"

text \<open>The loop over the rows, with what was sent so far; \<open>send n\<close> is the error of the \<open>n\<close>-th send.\<close>

fun stream_rows :: "('q, 'row) sql_rows \<Rightarrow> column list \<Rightarrow> (nat \<Rightarrow> goerr option) \<Rightarrow> goerr option \<Rightarrow> 'row list \<Rightarrow>
    cell list list \<Rightarrow> unit res \<times> cell list list" where
  "stream_rows Q cts send fin [] sent = ((case fin of None \<Rightarrow> Ok () | Some e \<Rightarrow> Err e), sent)"
| "stream_rows Q cts send fin (row # rows) sent = (case row_cells Q cts row of
      Ok cells \<Rightarrow> (case send (length sent) of
          Some e \<Rightarrow> (Err e, sent)
        | None \<Rightarrow> stream_rows Q cts send fin rows (sent @ [cells]))
    | Err e \<Rightarrow> (Err e, sent)
    | Panic e \<Rightarrow> (Panic e, sent))"

definition cs_QuerySQL ::
  "('b, 'q) db_backend \<Rightarrow> ('q, 'row) sql_rows \<Rightarrow> (nat \<Rightarrow> goerr option) \<Rightarrow> string \<Rightarrow> ('b, 'r, 'c) node \<Rightarrow>
   unit res \<times> cell list list" where
  "cs_QuerySQL B Q send sql s = (case fst (ReadQuery B sql s) of
      Ok q \<Rightarrow> (case column_types Q q of
          Inl e \<Rightarrow> (Err e, [])
        | Inr cts \<Rightarrow> stream_rows Q cts send (rows_err Q q) (result_rows Q q) [])
    | Err e \<Rightarrow> (Err e, [])
    | Panic e \<Rightarrow> (Panic e, []))"

section \<open>The server\<close>

text \<open>
  The handlers of the HTTP server: the gateway to gRPC, and the embedded files behind \<open>http.StripPrefix\<close> with its
  prefix.
\<close>

datatype http_handler = GatewayMux | StripPrefixFiles string

record ('b, 'r, 'c) server = world +
  srv_node :: "('b, 'r, 'c) node"
  srv_addr :: string
  srv_port :: string
  srv_gwPort :: string
  grpc_serving :: bool
  http_serving :: bool
  http_addr :: string
  httpMux :: "(string \<times> http_handler) list"
  node_launched :: bool

record server_params =
  sp_Addr :: string
  sp_Port :: string
  sp_GatewayPort :: string
  sp_PrivateKey :: bytes

definition server_New :: "server_params \<Rightarrow> ('b, 'r, 'c) node \<Rightarrow> ('b, 'r, 'c) server" where
  "server_New p n = \<lparr>faults = [], srv_node = n, srv_addr = sp_Addr p, srv_port = sp_Port p,
     srv_gwPort = sp_GatewayPort p, grpc_serving = False, http_serving = False,
     http_addr = '':'' @ sp_GatewayPort p, httpMux = [], node_launched = False\<rparr>"

text \<open>\<open>ServeMux.Handle\<close> panics on a pattern that is registered already.\<close>

definition mux_Handle :: "string \<Rightarrow> http_handler \<Rightarrow> (('b, 'r, 'c) server, unit) op" where
  "mux_Handle pat h s =
     (if pat \<in> fst ` set (httpMux s) then (Panic (ENew ''http: multiple registrations for %s''), s)
      else (Ok (), s\<lparr>httpMux := httpMux s @ [(pat, h)]\<rparr>))"

definition serveOpenAPI :: "(('b, 'r, 'c) server, unit) op" where
  "serveOpenAPI = op_bind (sys_call (op_ret ())) (\<lambda>_.
     mux_Handle ''/openapi-ui/'' (StripPrefixFiles ''/openapi-ui/''))"

text \<open>\<open>Start\<close>: the goroutines it starts are recorded; the node's own \<open>Start\<close> runs in one of them.\<close>

definition server_Start :: "(('b, 'r, 'c) server, unit) op" where
  "server_Start =
     op_bind (wrap_err ''failed to listen on %s'' (sys_call (op_ret ()))) (\<lambda>_.
     op_bind (op_mod (\<lambda>s. s\<lparr>grpc_serving := True\<rparr>)) (\<lambda>_.
     op_bind (wrap_err ''failed to dial server %s'' (sys_call (op_ret ()))) (\<lambda>_.
     op_bind (wrap_err ''failed to register control gateway'' (sys_call (op_ret ()))) (\<lambda>_.
     op_bind (wrap_err ''failed to register raft gateway'' (sys_call (op_ret ()))) (\<lambda>_.
     op_bind (mux_Handle ''/'' GatewayMux) (\<lambda>_.
     op_bind (wrap_err ''failed to serve OpenAPI UI'' serveOpenAPI) (\<lambda>_.
     op_bind (op_mod (\<lambda>s. s\<lparr>node_launched := True\<rparr>)) (\<lambda>_.
     op_mod (\<lambda>s. s\<lparr>http_serving := True\<rparr>)))))))))"

text \<open>
  \<open>Node.Stop\<close> waits for the main loop to finish: it does not return (\<open>None\<close>) while none runs.
\<close>

definition node_Stop ::
  "('b, 'r) raft_lib \<Rightarrow> ('b, 'q) db_backend \<Rightarrow> (('b, 'r, 'c) node, 'c) client_iface \<Rightarrow> ('b, 'r, 'c) node \<Rightarrow>
   (unit res \<times> ('b, 'r, 'c) node) option" where
  "node_Stop R B I s = (if running s then Some (runMainLoop R B I [Done] s) else None)"

definition server_Stop ::
  "('b, 'r) raft_lib \<Rightarrow> ('b, 'q) db_backend \<Rightarrow> (('b, 'r, 'c) node, 'c) client_iface \<Rightarrow> ('b, 'r, 'c) server \<Rightarrow>
   (unit res \<times> ('b, 'r, 'c) server) option" where
  "server_Stop R B I s = (case node_Stop R B I (srv_node s) of
      None \<Rightarrow> None
    | Some (Panic e, n) \<Rightarrow> Some (Panic e, s\<lparr>srv_node := n\<rparr>)
    | Some (_, n) \<Rightarrow> Some (op_bind (sys_call (op_ret ())) (\<lambda>_.
        op_mod (\<lambda>s. s\<lparr>http_serving := False, grpc_serving := False\<rparr>)) (s\<lparr>srv_node := n\<rparr>)))"

section \<open>Health\<close>

text \<open>What a peer answers over gRPC while nothing else fails.\<close>

definition answer_of :: "grpc_stubs \<Rightarrow> ('b, 'r, grpc_client) node \<Rightarrow> grpc_client \<Rightarrow> progress_response option" where
  "answer_of N s c = (case rpc_Progress N (is_closed c s) c of Inl _ \<Rightarrow> None | Inr p \<Rightarrow> Some p)"

lemma calm_ask: "calm s \<Longrightarrow> ask_progress (grpc_iface N) cs s = (Ok (map (answer_of N s) cs), s)"
  by (induction cs) (simp_all add: op_defs grpc_iface_def grpc_Progress_def rpc_def sys_call_calm answer_of_def split: sum.split)

text \<open>The answers a leader gave.\<close>

definition leader_answers :: "progress_response option list \<Rightarrow> progress_response list" where
  "leader_answers rs = [p. Some p \<leftarrow> rs, pr_State p = ''StateLeader'']"

lemma receive_leader_eq:
  "fst (receive_leader rs) = (case leader_answers rs of [] \<Rightarrow> None | p # _ \<Rightarrow> Some p)"
  by (induction rs) (auto simp: leader_answers_def split: option.splits)

lemma set_leader_answers: "set (leader_answers rs) = {p. Some p \<in> set rs \<and> pr_State p = ''StateLeader''}"
  by (induction rs) (auto simp: leader_answers_def split: option.splits)

lemma calm_CheckHealth:
  assumes "calm s" and "st_State (RaftStatus R s) \<noteq> ''StateLeader''"
  shows "rs_CheckHealth R (grpc_iface N) arrival meanwhile lag s =
    (case leader_answers (map (answer_of N s) (arrival (map snd (peerMap s)))) of
       [] \<Rightarrow> (Err (ENew ''did not received a Progress() response from a leader node''), s)
     | p # _ \<Rightarrow> (if st_Applied (RaftStatus R (meanwhile s)) + lag < pr_Applied p
         then Err (ENew ''node is behind leader by %d'') else Ok False, meanwhile s))"
  using assms calm_ask [OF assms(1), of N "arrival (map snd (peerMap s))"]
  by (simp add: rs_CheckHealth_def op_bind_def op_get_def op_ret_def op_err_def op_mod_def GetPeerClients_def
      GetAllClients_def receive_leader_eq split: list.split)


definition level_stubs :: grpc_stubs where
  "level_stubs = demo_stubs\<lparr>rpc_Progress := (\<lambda>b c. Inr \<lparr>pr_Id = 2, pr_Applied = 5, pr_State = ''StateLeader'',
     pr_ProgressMap = []\<rparr>)\<rparr>"

definition level_raft :: "(unit, nat) raft_lib" where
  "level_raft = \<lparr>StartNode = (\<lambda>c ps b. 0), RestartNode = (\<lambda>c b. 0), rn_Tick = Suc, rn_Propose = (\<lambda>d r. (None, r)),
     rn_ProposeConfChange = (\<lambda>c r. (None, r)), rn_ApplyConfChange = (\<lambda>c r. (zero_conf_state, r)),
     rn_Step = (\<lambda>m r. (None, r)), rn_ReportUnreachable = (\<lambda>i r. r), rn_ReportSnapshot = (\<lambda>i b r. r),
     rn_Advance = (\<lambda>r. r), rn_Stop = (\<lambda>r. r), rn_Status = (\<lambda>r. zero_status\<lparr>st_ID := 1, st_Applied := of_nat r\<rparr>),
     IsEmptySnap = (\<lambda>s. True), IsEmptyHardState = (\<lambda>h. True),
     cc_Unmarshal = (\<lambda>b. \<lparr>ccID = 2, ccType = ConfChangeAddNode, ccNodeID = 2, ccContext = b\<rparr>),
     wq_Marshal = (\<lambda>q. Inr (wq_Sql q)), wq_Unmarshal = (\<lambda>b. Inr \<lparr>wq_NodeID = 1, wq_QueryID = 1, wq_Sql = b\<rparr>),
     json_Marshal = (\<lambda>i. Inr (ni_Addr i)), json_Unmarshal = (\<lambda>b. Inr \<lparr>ni_Addr = b, ni_Port = ''10''\<rparr>),
     driver_text = (\<lambda>_. [])\<rparr>"

definition level_node :: "(unit, nat, grpc_client) node" where
  "level_node = (node_New \<lparr>np_NodeID = 1, np_AddrPort = \<lparr>ni_Addr = ''a'', ni_Port = ''10''\<rparr>,
     np_IsNewCluster = False, np_PotentialPeers = []\<rparr> demo_transport ())\<lparr>raftNode := Some 5\<rparr>"

lemma level_simps:
  "calm level_node" "peerMap level_node = [(2, \<lparr>conn = 0, dest_addr = ''a'', dest_port = ''10''\<rparr>)]"
  "RaftStatus level_raft level_node = zero_status\<lparr>st_ID := 1, st_Applied := 5\<rparr>"
  "answer_of level_stubs level_node c = Some \<lparr>pr_Id = 2, pr_Applied = 5, pr_State = ''StateLeader'', pr_ProgressMap = []\<rparr>"
  by (simp_all add: level_node_def node_New_def demo_transport_def calm_def RaftStatus_def level_raft_def
      answer_of_def level_stubs_def)


section \<open>Query results\<close>

lemma stream_rows_prefix:
  "stream_rows Q cts send fin rows sent = (r, out) \<Longrightarrow>
   \<exists>k \<le> length rows. \<exists>cs. out = sent @ cs \<and> map Ok cs = map (row_cells Q cts) (take k rows)
     \<and> (r = Ok () \<longrightarrow> k = length rows \<and> fin = None)"
proof (induction rows arbitrary: sent)
  case Nil
  then show ?case by (auto split: option.splits)
next
  case (Cons row rows)
  show ?case
  proof (cases "\<exists>cells. row_cells Q cts row = Ok cells \<and> send (length sent) = None")
    case True
    then obtain cells where c: "row_cells Q cts row = Ok cells" "send (length sent) = None" by blast
    with Cons.prems have "stream_rows Q cts send fin rows (sent @ [cells]) = (r, out)" by simp
    from Cons.IH [OF this] obtain k cs where "k \<le> length rows" "out = (sent @ [cells]) @ cs"
      "map Ok cs = map (row_cells Q cts) (take k rows)" "r = Ok () \<longrightarrow> k = length rows \<and> fin = None" by blast
    then show ?thesis using c by (intro exI [of _ "Suc k"] conjI exI [of _ "cells # cs"]) auto
  next
    case False
    with Cons.prems have "out = sent \<and> r \<noteq> Ok ()" by (auto split: res.splits option.splits)
    then show ?thesis by (intro exI [of _ 0] conjI exI [of _ "[]"]) auto
  qed
qed


text \<open>A backend whose query results are lists of single values, and rows read from them.\<close>

definition list_backend :: "go_value list \<Rightarrow> (unit, go_value list) db_backend" where
  "list_backend vs = \<lparr>be_Start = op_ret (), be_Stop = op_ret (), be_AppendEntries = (\<lambda>_. op_ret ()),
     be_SaveApplied = (\<lambda>_ _. op_ret ()), be_GetAppliedIndex = op_ret 0, be_SaveHardState = (\<lambda>_. op_ret ()),
     be_SaveConfState = (\<lambda>_. op_ret ()), be_SaveSnapshot = (\<lambda>_. op_ret 0), be_RemoveSavedSnapshot = (\<lambda>_. op_ret ()),
     be_ApplySnapshot = (\<lambda>_. op_ret ()), be_LoadPeers = op_ret [], be_UpsertPeer = (\<lambda>_. op_ret 0),
     be_RemovePeer = (\<lambda>_. op_ret ()), be_ExecSQL = (\<lambda>_ _ _. op_ret ()), be_QuerySQL = (\<lambda>_. op_ret vs)\<rparr>"

definition list_rows :: "column \<Rightarrow> (go_value list, go_value) sql_rows" where
  "list_rows ct = \<lparr>column_types = (\<lambda>q. Inr [ct]), result_rows = (\<lambda>q. q), scan_row = (\<lambda>ts v. Inr [v]),
     rows_err = (\<lambda>q. None)\<rparr>"


section \<open>Types of cells\<close>

text \<open>The type a value is scanned as.\<close>

fun type_of_value :: "go_value \<Rightarrow> go_type" where
  "type_of_value (VString _) = TString" | "type_of_value (VBytes _) = TBytes"
| "type_of_value (VInt _) = TInt" | "type_of_value (VUint _) = TUint"
| "type_of_value (VUint64 _) = TUint64" | "type_of_value (VInt64 _) = TInt64"
| "type_of_value (VInt8 _) = TInt8" | "type_of_value (VInt16 _) = TInt16" | "type_of_value (VInt32 _) = TInt32"
| "type_of_value (VUint8 _) = TUint8" | "type_of_value (VUint16 _) = TUint16" | "type_of_value (VUint32 _) = TUint32"
| "type_of_value (VBool _) = TBool" | "type_of_value (VTime _) = TTime"
| "type_of_value (VNullString _) = TNullString" | "type_of_value (VNullInt64 _) = TNullInt64"
| "type_of_value (VNullFloat64 _) = TNullFloat64" | "type_of_value (VNullBool _) = TNullBool"
| "type_of_value (VNullTime _) = TNullTime" | "type_of_value (VRawBytes _) = TRawBytes"
| "type_of_value (VFloat64 _) = TFloat64" | "type_of_value (VOther n) = TOther n"

text \<open>The kinds of cells, and the kind a client can expect for a column of a type; unset only where a null or an empty text can occur.\<close>

datatype kind = KStr | KBy | KI64 | KI32 | KB | KTs

fun kind_of :: "cell \<Rightarrow> kind option" where
  "kind_of (CStr _) = Some KStr" | "kind_of (CBy _) = Some KBy" | "kind_of (CI64 _) = Some KI64"
| "kind_of (CI32 _) = Some KI32" | "kind_of (CB _) = Some KB" | "kind_of (CTs _ _) = Some KTs"
| "kind_of CUnset = None"

fun column_kind :: "go_type \<Rightarrow> kind option" where
  "column_kind TString = Some KStr" | "column_kind TBytes = Some KBy"
| "column_kind TInt = Some KI64" | "column_kind TUint = Some KI64" | "column_kind TUint64 = Some KI64" | "column_kind TInt64 = Some KI64"
| "column_kind TInt8 = Some KI32" | "column_kind TInt16 = Some KI32" | "column_kind TInt32 = Some KI32"
| "column_kind TUint8 = Some KI32" | "column_kind TUint16 = Some KI32" | "column_kind TUint32 = Some KI32"
| "column_kind TBool = Some KB" | "column_kind TTime = Some KTs"
| "column_kind TNullString = Some KStr" | "column_kind TNullInt64 = Some KI64" | "column_kind TNullFloat64 = Some KBy"
| "column_kind TNullBool = Some KB" | "column_kind TNullTime = Some KTs" | "column_kind TRawBytes = Some KStr"
| "column_kind TFloat64 = None" | "column_kind (TOther _) = None"

definition nullable :: "go_type \<Rightarrow> bool" where
  "nullable t \<longleftrightarrow> t \<in> {TNullString, TNullInt64, TNullFloat64, TNullBool, TNullTime, TRawBytes}"

definition cell_fits :: "go_type \<Rightarrow> cell \<Rightarrow> bool" where
  "cell_fits t c \<longleftrightarrow> kind_of c = column_kind t \<or> (c = CUnset \<and> nullable t)"

lemma to_cell_typed:
  "(to_cell v = None \<longleftrightarrow> column_kind (type_of_value v) = None) \<and> (\<forall>c. to_cell v = Some c \<longrightarrow> cell_fits (type_of_value v) c)"
  by (cases v) (auto simp: cell_fits_def nullable_def timestamp_def split: option.splits)

lemma to_cells_typed:
  "(case to_cells vs of
      Inl e \<Rightarrow> e = ENew ''unsupported scan value type: %T'' \<and> (\<exists>v \<in> set vs. column_kind (type_of_value v) = None)
    | Inr cs \<Rightarrow> list_all2 cell_fits (map type_of_value vs) cs \<and> (\<forall>v \<in> set vs. column_kind (type_of_value v) \<noteq> None))"
proof (induction vs)
  case (Cons v vs)
  then show ?case
    using to_cell_typed [of v] by (cases "to_cell v"; cases "column_kind (type_of_value v)") (auto split: sum.splits)
qed simp

text \<open>
  C23. Rows are typed by their columns: when the driver scans a row into the types it was asked for, the row is converted
  exactly if every column's type has a cell (all but floating-point numbers and types unknown to the switch), a row that is
  converted has one cell for each column, each of its column's kind or, for a column that can be null, unset, and
  a row that is not converted fails with the error for unsupported types.
\<close>

theorem query_rows_typed:
  assumes "list_all (\<lambda>ct. column_type ct \<noteq> None) cts"
    and "scan_row Q (map (\<lambda>ct. the (column_type ct)) cts) row = Inr vs"
    and "map type_of_value vs = map (\<lambda>ct. the (column_type ct)) cts"
  shows "if list_all (\<lambda>ct. column_kind (the (column_type ct)) \<noteq> None) cts
    then \<exists>cells. row_cells Q cts row = Ok cells \<and> list_all2 (\<lambda>ct c. cell_fits (the (column_type ct)) c) cts cells
    else row_cells Q cts row = Err (ENew ''unsupported scan value type: %T'')"
proof -
  have "\<not> list_ex (\<lambda>ct. column_type ct = None) cts" using assms(1) by (auto simp: list_all_iff list_ex_iff)
  then have row: "row_cells Q cts row = (case to_cells vs of Inl e \<Rightarrow> Err e | Inr cells \<Rightarrow> Ok cells)"
    using assms(2) by (simp add: row_cells_def)
  have "type_of_value ` set vs = (\<lambda>ct. the (column_type ct)) ` set cts"
    using arg_cong [OF assms(3), of set] by simp
  then have sup: "(\<forall>v \<in> set vs. column_kind (type_of_value v) \<noteq> None) \<longleftrightarrow>
      list_all (\<lambda>ct. column_kind (the (column_type ct)) \<noteq> None) cts"
    unfolding list_all_iff by (metis (no_types, lifting) image_iff)
  show ?thesis
  proof (cases "to_cells vs")
    case (Inl e)
    then show ?thesis using to_cells_typed [of vs] row sup by auto
  next
    case (Inr cells)
    then show ?thesis using to_cells_typed [of vs] row sup assms(3) by (simp add: list_all2_map1)
  qed
qed

lemma query_rows_typed_witness:
  "\<exists>cells. row_cells (list_rows \<lparr>ScanType = None, DatabaseTypeName = ''TEXT''\<rparr>) [\<lparr>ScanType = None, DatabaseTypeName = ''TEXT''\<rparr>]
       (VString ''a'') = Ok cells \<and> list_all2 (\<lambda>ct c. cell_fits (the (column_type ct)) c) [\<lparr>ScanType = None, DatabaseTypeName = ''TEXT''\<rparr>] cells"
  using query_rows_typed [of "[\<lparr>ScanType = None, DatabaseTypeName = ''TEXT''\<rparr>]"
      "list_rows \<lparr>ScanType = None, DatabaseTypeName = ''TEXT''\<rparr>" "VString ''a''" "[VString ''a'']"]
  by (simp add: column_type_def list_rows_def)

section \<open>Numbers and times in cells\<close>

text \<open>The number a value stands for, and the number a client reads in a cell.\<close>

fun value_int :: "go_value \<Rightarrow> int option" where
  "value_int (VInt v) = Some (sint v)"
| "value_int (VUint v) = Some (uint v)"
| "value_int (VUint64 v) = Some (uint v)"
| "value_int (VInt64 v) = Some (sint v)"
| "value_int (VInt8 v) = Some (sint v)"
| "value_int (VInt16 v) = Some (sint v)"
| "value_int (VInt32 v) = Some (sint v)"
| "value_int (VUint8 v) = Some (uint v)"
| "value_int (VUint16 v) = Some (uint v)"
| "value_int (VUint32 v) = Some (uint v)"
| "value_int (VNullInt64 v) = map_option sint v"
| "value_int _ = None"

fun cell_int :: "cell \<Rightarrow> int option" where
  "cell_int (CI64 v) = Some (sint v)"
| "cell_int (CI32 v) = Some (sint v)"
| "cell_int _ = None"

text \<open>The largest number the cell chosen for a value can hold.\<close>

fun cell_max :: "go_value \<Rightarrow> int" where
  "cell_max (VUint32 v) = 2 ^ 31 - 1"
| "cell_max (VUint v) = 2 ^ 63 - 1"
| "cell_max (VUint64 v) = 2 ^ 63 - 1"
| "cell_max v = 2 ^ 64"

lemma sint_eq_uint_iff: "sint (v :: 'a::len word) = uint v \<longleftrightarrow> uint v < 2 ^ (LENGTH('a) - 1)"
  unfolding sint_uint signed_take_bit_int_eq_self_iff
  using uint_ge_0 [of v] by (auto intro: order_trans [of _ 0])

lemma sint_scast_up:
  assumes "LENGTH('a::len) \<le> LENGTH('b::len)"
  shows "sint (scast (v :: 'a word) :: 'b word) = sint v"
proof -
  have "(2::int) ^ (LENGTH('a) - 1) \<le> 2 ^ (LENGTH('b) - 1)" using assms by (intro power_increasing) simp_all
  then have "signed_take_bit (LENGTH('b) - 1) (sint v) = sint v"
    using sint_greater_eq [of v] sint_less [of v] unfolding signed_take_bit_int_eq_self_iff One_nat_def by linarith
  then show ?thesis by (simp add: signed_scast_eq)
qed

lemma sint_ucast_up:
  assumes "LENGTH('a::len) < LENGTH('b::len)"
  shows "sint (ucast (v :: 'a word) :: 'b word) = uint v"
proof -
  have "(2::int) ^ LENGTH('a) \<le> 2 ^ (LENGTH('b) - 1)" using assms by (intro power_increasing) simp_all
  then have "signed_take_bit (LENGTH('b) - 1) (uint v) = uint v"
    using uint_ge_0 [of v] uint_lt2p [of v] unfolding signed_take_bit_int_eq_self_iff by linarith
  then show ?thesis by (simp add: signed_ucast_eq)
qed

text \<open>
  C30. Numbers survive the conversion to cells except large unsigned ones: every integer a driver
  yields becomes a cell; a client reads the same number from it, unless an unsigned 32-bit value is \<open>2 ^ 31\<close>
  or more, or an unsigned 64-bit value \<open>2 ^ 63\<close> or more, and then it reads a different one. A column of
  SQLite's type \<open>REAL\<close> without a scan type of its own is scanned into a \<open>float64\<close>, which no branch converts.
\<close>

theorem query_numbers:
  "(\<forall>v i. value_int v = Some i \<longrightarrow> (\<exists>c j. to_cell v = Some c \<and> cell_int c = Some j \<and> (j = i \<longleftrightarrow> i \<le> cell_max v)))
   \<and> column_type \<lparr>ScanType = None, DatabaseTypeName = ''REAL''\<rparr> = Some TFloat64
   \<and> (\<forall>x. to_cell (VFloat64 x) = None)"
proof (intro conjI allI impI)
  fix v i
  assume "value_int v = Some i"
  moreover have small: "sint (a :: 64 word) \<le> 2 ^ 64" "sint (b :: 32 word) \<le> 2 ^ 64"
    "sint (c :: 16 word) \<le> 2 ^ 64" "sint (d :: 8 word) \<le> 2 ^ 64" for a b c d
    using sint_less [of a] sint_less [of b] sint_less [of c] sint_less [of d] by simp_all
  have unsigned: "uint (w :: 16 word) \<le> 2 ^ 64" "uint (u :: 8 word) \<le> 2 ^ 64" for w u
    using uint_lt2p [of w] uint_lt2p [of u] by simp_all
  ultimately show "\<exists>c j. to_cell v = Some c \<and> cell_int c = Some j \<and> (j = i \<longleftrightarrow> i \<le> cell_max v)"
    using small unsigned
    by (cases v) (auto simp: sint_scast_up sint_ucast_up sint_eq_uint_iff)
qed (simp_all add: column_type_def)

text \<open>The least unsigned 32-bit number a client misreads.\<close>

lemma query_numbers_witness:
  "\<exists>c j. to_cell (VUint32 (2 ^ 31)) = Some c \<and> cell_int c = Some j \<and> j \<noteq> 2 ^ 31"
proof -
  have "value_int (VUint32 (2 ^ 31)) = Some (2 ^ 31)" by simp
  with query_numbers have "\<exists>c j. to_cell (VUint32 (2 ^ 31)) = Some c \<and> cell_int c = Some j
      \<and> (j = 2 ^ 31 \<longleftrightarrow> (2 ^ 31 :: int) \<le> cell_max (VUint32 (2 ^ 31)))" by blast
  then show ?thesis by auto
qed

text \<open>The instant a client computes from a timestamp: \<open>Seconds\<close> and, on top of them, \<open>Nanos\<close>.\<close>

fun cell_time :: "cell \<Rightarrow> int option" where
  "cell_time (CTs seconds nanos) = Some (sint seconds * 10 ^ 9 + sint nanos)"
| "cell_time _ = None"

text \<open>\<open>10 ^ 9\<close> has nine factors 2, so that the low 32 bits of whole seconds vanish each \<open>2 ^ 23\<close> seconds.\<close>

lemma dvd_billion_iff: "(2 ^ 32 :: int) dvd k * 10 ^ 9 \<longleftrightarrow> 2 ^ 23 dvd k"
proof -
  have "k * 10 ^ 9 = 2 ^ 9 * (k * 5 ^ 9)" "(2 ^ 32 :: int) = 2 ^ 9 * 2 ^ 23" by simp_all
  then have "(2 ^ 32 :: int) dvd k * 10 ^ 9 \<longleftrightarrow> 2 ^ 23 dvd k * 5 ^ 9" by (simp only: dvd_mult_cancel_left) simp
  also have "\<dots> \<longleftrightarrow> 2 ^ 23 dvd k"
    by (rule coprime_dvd_mult_left_iff) (simp add: coprime_power_left_iff coprime_power_right_iff del: power_numeral)
  finally show ?thesis .
qed

lemma sint_word_of_int_self:
  "- (2 ^ 63) \<le> k \<Longrightarrow> k < 2 ^ 63 \<Longrightarrow> sint (word_of_int k :: 64 word) = k"
  "- (2 ^ 31) \<le> k \<Longrightarrow> k < 2 ^ 31 \<Longrightarrow> sint (word_of_int k :: 32 word) = k"
  by (simp_all add: sint_sbintrunc' signed_take_bit_int_eq_self)

text \<open>
  A time survives the conversion only in one second out of \<open>2 ^ 23\<close>: since \<open>Nanos\<close> is taken from the
  nanoseconds since 1970, and not from those within the second, the instant a client computes from
  the cell is the one of the database exactly when the seconds since 1970 are a multiple of \<open>2 ^ 23\<close>
  (97 days).
\<close>

theorem timestamp_readback:
  assumes "- (2 ^ 63) \<le> ns div 10 ^ 9" and "ns div 10 ^ 9 < 2 ^ 63"
  shows "\<exists>c. to_cell (VTime ns) = Some c \<and> to_cell (VNullTime (Some ns)) = Some c
    \<and> (cell_time c = Some ns \<longleftrightarrow> 2 ^ 23 dvd ns div 10 ^ 9)"
proof -
  let ?k = "ns div 10 ^ 9" and ?r = "ns mod 10 ^ 9"
  have ns: "ns = ?k * 10 ^ 9 + ?r" by simp
  have r: "sint (word_of_int ?r :: 32 word) = ?r"
    using pos_mod_bound [of "10 ^ 9" ns] pos_mod_sign [of "10 ^ 9" ns] by (intro sint_word_of_int_self(2)) simp_all
  have "cell_time (timestamp ns) = Some ns \<longleftrightarrow> sint (word_of_int ns :: 32 word) = ?r"
    unfolding timestamp_def cell_time.simps option.inject sint_word_of_int_self(1) [OF assms]
    using ns by (intro iffI) linarith+
  also have "\<dots> \<longleftrightarrow> (word_of_int ns :: 32 word) = word_of_int ?r"
    unfolding word_eq_iff_signed [where ?'a = int] r ..
  also have "\<dots> \<longleftrightarrow> 2 ^ 32 dvd ns - ?r"
    unfolding word_of_int_eq_iff take_bit_eq_mod mod_eq_dvd_iff by simp
  also have "\<dots> \<longleftrightarrow> 2 ^ 23 dvd ?k"
    using dvd_billion_iff [of ?k] ns by (metis add_diff_cancel_right')
  finally show ?thesis by auto
qed

text \<open>One second after the start of 1970.\<close>

lemma timestamp_readback_witness:
  "\<exists>c. to_cell (VTime (10 ^ 9)) = Some c \<and> cell_time c \<noteq> Some (10 ^ 9)"
  using timestamp_readback [of "10 ^ 9"] by auto

section \<open>Starting and stopping the server\<close>

text \<open>What the next call of the environment reports.\<close>

definition fault_error :: "fault list \<Rightarrow> goerr option" where
  "fault_error fs = (case fs of FailBefore e # _ \<Rightarrow> Some e | FailAfter e # _ \<Rightarrow> Some e | _ \<Rightarrow> None)"

lemma sys_call_ret:
  "sys_call (op_ret x) s = (case fault_error (faults s) of None \<Rightarrow> Ok x | Some e \<Rightarrow> Err e, s\<lparr>faults := tl (faults s)\<rparr>)"
proof (cases "faults s")
  case Nil
  then have "s\<lparr>faults := []\<rparr> = s" by simp
  with Nil show ?thesis by (simp add: sys_call_def op_ret_def fault_error_def)
next
  case (Cons f fs)
  then show ?thesis by (cases f) (simp_all add: sys_call_def op_ret_def fault_error_def)
qed



section \<open>Routing\<close>

text \<open>
  \<open>ServeMux\<close> of the standard library, for the patterns of this server, which all end in a slash: such a pattern
  matches the paths it is a prefix of, the longest one wins, and a path that lacks only the final slash of a
  pattern is redirected.
\<close>

datatype http_answer = HandledBy http_handler string | Redirected string | PageNotFound

definition better :: "string \<times> http_handler \<Rightarrow> (string \<times> http_handler) option \<Rightarrow> bool" where
  "better r b \<longleftrightarrow> (case b of None \<Rightarrow> True | Some b \<Rightarrow> length (fst b) < length (fst r))"

fun mux_match :: "(string \<times> http_handler) list \<Rightarrow> string \<Rightarrow> (string \<times> http_handler) option \<Rightarrow> (string \<times> http_handler) option" where
  "mux_match [] path best = best"
| "mux_match (r # rs) path best =
     mux_match rs path (if take (length (fst r)) path = fst r \<and> better r best then Some r else best)"

definition strip_prefix :: "http_handler \<Rightarrow> string \<Rightarrow> string" where
  "strip_prefix h path = (case h of GatewayMux \<Rightarrow> path | StripPrefixFiles pre \<Rightarrow> drop (length pre) path)"

definition serve_http :: "(string \<times> http_handler) list \<Rightarrow> string \<Rightarrow> http_answer" where
  "serve_http mux path =
     (if path @ ''/'' \<in> fst ` set mux then Redirected (path @ ''/'')
      else (case mux_match mux path None of
          None \<Rightarrow> PageNotFound
        | Some (pat, h) \<Rightarrow> HandledBy h (strip_prefix h path)))"

lemma started_mux:
  "server_Start ((server_New p n)\<lparr>faults := fs\<rparr>) = (Ok (), s') \<Longrightarrow>
   httpMux s' = [(''/'', GatewayMux), (''/openapi-ui/'', StripPrefixFiles ''/openapi-ui/'')] \<and> http_addr s' = '':'' @ sp_GatewayPort p"
  by (auto simp: server_Start_def serveOpenAPI_def mux_Handle_def wrap_err_def op_bind_def op_mod_def sys_call_ret server_New_def
      split: option.splits)

text \<open>
  A server that started serves every rooted path: those under \<open>/openapi-ui/\<close> from the embedded files, under the name
  that is left after the prefix, \<open>/openapi-ui\<close> by a redirect, and all others by the gateway, with the path unchanged.
\<close>

theorem http_routing:
  assumes "server_Start ((server_New p n)\<lparr>faults := fs\<rparr>) = (Ok (), s')"
  shows "serve_http (httpMux s') (''/openapi-ui/'' @ file) = HandledBy (StripPrefixFiles ''/openapi-ui/'') file
    \<and> serve_http (httpMux s') ''/openapi-ui'' = Redirected ''/openapi-ui/''
    \<and> (take 1 path = ''/'' \<and> path \<noteq> ''/openapi-ui'' \<and> take (length ''/openapi-ui/'') path \<noteq> ''/openapi-ui/'' \<longrightarrow>
         serve_http (httpMux s') path = HandledBy GatewayMux path)"
  using started_mux [OF assms]
  by (auto simp: serve_http_def better_def strip_prefix_def)

end
