(* ===== verification/Controller.thy ===== *)
theory Controller
  imports Bootstrap Server Mysql_Storage Node_Apply
begin

text \<open>
  The controller command, \<open>cmd/controller/main.go\<close>: the flags, what the process makes of them and of
  its environment (the backend's, the node's and the server's parameters), and the life of
  the server from its start to the signal that ends the process. The container that calls the constructors (\<open>fx\<close>) is represented by their composition:
  each runs once, before the hook that starts the server.
\<close>

section \<open>Flags and parameters\<close>

record flags =
  doBootstrap :: bool
  fl_isNewCluster :: bool
  host :: string
  gRPCPort :: string
  gatewayPort :: string
  nodeID :: u64
  peerStr :: string
  fl_backend :: string
  sqliteDBDir :: string
  sshPrivateKeyFile :: string
  retention :: u64

definition default_flags :: flags where
  "default_flags = \<lparr>doBootstrap = False, fl_isNewCluster = False, host = ''localhost'', gRPCPort = ''10000'',
     gatewayPort = ''11000'', nodeID = 1, peerStr = [], fl_backend = ''mysql'', sqliteDBDir = ''./db'',
     sshPrivateKeyFile = ''id_rsa'', retention = 1000\<rparr>"

text \<open>Reading the key file: a failure is fatal unless the backend is SQLite.\<close>

definition read_key :: "flags \<Rightarrow> goerr + bytes \<Rightarrow> bytes res" where
  "read_key fl file = (case file of
      Inl e \<Rightarrow> if fl_backend fl \<noteq> ''sqlite'' then Panic e else Ok []
    | Inr b \<Rightarrow> Ok b)"

record sqlite_params =
  sq_DBDir :: string
  sq_EntriesToRetain :: u64

datatype backend_choice = Sqlite_choice sqlite_params | Mysql_choice mysql_params

text \<open>The provider of a backend; for any other name of a backend there is none (a nil option).\<close>

definition backendProvides :: "flags \<Rightarrow> bytes \<Rightarrow> backend_choice option" where
  "backendProvides fl key =
     (if fl_backend fl = ''sqlite'' then Some (Sqlite_choice \<lparr>sq_DBDir = sqliteDBDir fl, sq_EntriesToRetain = retention fl\<rparr>)
      else if fl_backend fl = ''mysql'' then Some (Mysql_choice \<lparr>mp_Addr = ''localhost'', mp_MysqlPort = 3306,
        mp_SSHPort = 22, mp_PrivateKey = key, mp_EntriesToRetain = retention fl\<rparr>)
      else None)"

definition bootstrapProvide ::
  "(('cb, 'c, 'z) boot_env_scheme, 'c) client_iface \<Rightarrow> (string \<Rightarrow> string) \<Rightarrow> flags \<Rightarrow>
   (('cb, 'c, 'z) boot_env_scheme, bootstrap_info) op" where
  "bootstrapProvide I getenv fl s =
     (if doBootstrap fl then (case bootstrap_New I (NewEnvParams getenv (gRPCPort fl)) s of
          (Err e, s') \<Rightarrow> (Panic e, s')
        | r \<Rightarrow> r)
      else (case parsePeers (peerStr fl) of
          Ok ps \<Rightarrow> Ok \<lparr>bi_NodeID = nodeID fl, bi_IsNewCluster = fl_isNewCluster fl, bi_NodeName = host fl,
            bi_ClusterName = [], bi_Peers = ps\<rparr>
        | Err e \<Rightarrow> Err e
        | Panic e \<Rightarrow> Panic e, s))"

definition serverParams :: "(string \<Rightarrow> string) \<Rightarrow> flags \<Rightarrow> bytes \<Rightarrow> server_params" where
  "serverParams getenv fl key =
     (let bsp = NewEnvParams getenv (gRPCPort fl) in
      \<lparr>sp_Addr = (if doBootstrap fl then NodeName bsp @ ''.'' @ ClusterName bsp else host fl),
       sp_Port = gRPCPort fl, sp_GatewayPort = gatewayPort fl, sp_PrivateKey = key\<rparr>)"

definition nodeParams :: "flags \<Rightarrow> bootstrap_info \<Rightarrow> node_params" where
  "nodeParams fl bsi = \<lparr>np_NodeID = bi_NodeID bsi, np_AddrPort = \<lparr>ni_Addr = bi_NodeName bsi, ni_Port = gRPCPort fl\<rparr>,
     np_IsNewCluster = bi_IsNewCluster bsi, np_PotentialPeers = bi_Peers bsi\<rparr>"

section \<open>The process\<close>

record app =
  app_backend :: backend_choice
  app_node :: node_params
  app_server :: server_params

text \<open>What \<open>main\<close> has assembled when it starts the server; a nil option cannot be applied.\<close>

definition assemble ::
  "(('cb, 'c, 'z) boot_env_scheme, 'c) client_iface \<Rightarrow> (string \<Rightarrow> string) \<Rightarrow> goerr + bytes \<Rightarrow> flags \<Rightarrow>
   (('cb, 'c, 'z) boot_env_scheme, app) op" where
  "assemble I getenv file fl =
     op_bind (\<lambda>s. (read_key fl file, s)) (\<lambda>key. case backendProvides fl key of
       None \<Rightarrow> op_panic nil_deref
     | Some b \<Rightarrow> op_bind (bootstrapProvide I getenv fl) (\<lambda>bsi.
         op_ret \<lparr>app_backend = b, app_node = nodeParams fl bsi, app_server = serverParams getenv fl key\<rparr>))"

text \<open>\<open>app.Start\<close> runs the hook; its error is fatal.\<close>

definition app_Start :: "(('b, 'r, 'c) server, unit) op" where
  "app_Start s = (case server_Start s of (Err e, s') \<Rightarrow> (Panic e, s') | r \<Rightarrow> r)"

definition app_Stop ::
  "('b, 'r) raft_lib \<Rightarrow> ('b, 'q) db_backend \<Rightarrow> (('b, 'r, 'c) node, 'c) client_iface \<Rightarrow> ('b, 'r, 'c) server \<Rightarrow>
   (unit res \<times> ('b, 'r, 'c) server) option" where
  "app_Stop R B I = server_Stop R B I"

text \<open>
  From the start of the application to the end of \<open>main\<close>. \<open>meanwhile\<close> is what the goroutines do to the server while \<open>main\<close>
  waits. The channel of the signals has no buffer, so that one that arrives before \<open>main\<close> receives from the channel is
  dropped. The error of \<open>app.Stop\<close> is dropped; \<open>None\<close> is a \<open>main\<close> that does not return.
\<close>

datatype signal = EarlySignal | WaitedForSignal

definition run_app ::
  "('b, 'r) raft_lib \<Rightarrow> ('b, 'q) db_backend \<Rightarrow> (('b, 'r, 'c) node, 'c) client_iface \<Rightarrow> (('b, 'r, 'c) server \<Rightarrow> ('b, 'r, 'c) server) \<Rightarrow>
   signal list \<Rightarrow> ('b, 'r, 'c) server \<Rightarrow> (unit res \<times> ('b, 'r, 'c) server) option" where
  "run_app R B I meanwhile signals s = (case app_Start s of
      (Ok _, t) \<Rightarrow>
        (if WaitedForSignal \<in> set signals then
           (case app_Stop R B I (meanwhile t) of
              None \<Rightarrow> None
            | Some (Panic e, v) \<Rightarrow> Some (Panic e, v)
            | Some (_, v) \<Rightarrow> Some (Ok (), v))
         else None)
    | (r, t) \<Rightarrow> Some (r, t))"

section \<open>Assembling the process\<close>

text \<open>
  Without bootstrap, the process is assembled exactly when the backend's name is known, the key
  can be read (which SQLite does not need) and the list of peers is well-formed; otherwise it panics. The
  retention, the ports and the node's ID and peers are those of the flags.
\<close>

lemma assemble_flags:
  assumes "\<not> doBootstrap fl"
  shows "fst (assemble I getenv file fl s) =
    (if fl_backend fl = ''sqlite'' \<or> (fl_backend fl = ''mysql'' \<and> (\<exists>key. file = Inr key)) then
       (case parsePeers (peerStr fl) of
          Ok ps \<Rightarrow> Ok \<lparr>app_backend = the (backendProvides fl (case file of Inl _ \<Rightarrow> [] | Inr key \<Rightarrow> key)),
            app_node = \<lparr>np_NodeID = nodeID fl, np_AddrPort = \<lparr>ni_Addr = host fl, ni_Port = gRPCPort fl\<rparr>,
              np_IsNewCluster = fl_isNewCluster fl, np_PotentialPeers = ps\<rparr>,
            app_server = \<lparr>sp_Addr = host fl, sp_Port = gRPCPort fl, sp_GatewayPort = gatewayPort fl,
              sp_PrivateKey = (case file of Inl _ \<Rightarrow> [] | Inr key \<Rightarrow> key)\<rparr>\<rparr>
        | Err e \<Rightarrow> Err e | Panic e \<Rightarrow> Panic e)
     else Panic (case file of Inl e \<Rightarrow> e | Inr _ \<Rightarrow> nil_deref))"
  using assms
  by (auto simp: assemble_def op_bind_def read_key_def backendProvides_def bootstrapProvide_def nodeParams_def
      serverParams_def Let_def op_ret_def op_panic_def split: sum.splits res.splits)

section \<open>Addresses\<close>

text \<open>The environment of the pod with index \<open>i\<close> of a cluster.\<close>

definition pod_env :: "string \<Rightarrow> string \<Rightarrow> nat \<Rightarrow> string \<Rightarrow> string" where
  "pod_env pre cluster i v = (if v = ''CLUSTER_NAME'' then cluster
     else if v = ''NODE_NAME'' then pre @ ''-'' @ show_nat i else [])"

lemma show_nat_no_dot: "CHR ''.'' \<notin> set (show_nat i)"
  using show_nat_digits [of i] by (auto simp: list_all_iff is_digit_def)

lemma pod_params:
  "NodeName (NewEnvParams (pod_env pre cluster i) p) = pre @ ''-'' @ show_nat i"
  "ClusterName (NewEnvParams (pod_env pre cluster i) p) = cluster"
  "ClusterSize (NewEnvParams (pod_env pre cluster i) p) = 3" "GRPCPort (NewEnvParams (pod_env pre cluster i) p) = p"
  by (simp_all add: NewEnvParams_def pod_env_def)

lemma bootstrapProvide_info:
  assumes "bootstrapProvide I getenv fl s = (Ok bsi, s')" and "doBootstrap fl"
  shows "bi_NodeName bsi = NodeName (NewEnvParams getenv (gRPCPort fl))"
proof -
  from assms have "bootstrap_New I (NewEnvParams getenv (gRPCPort fl)) s = (Ok bsi, s')"
    by (auto simp: bootstrapProvide_def split: prod.splits res.splits)
  from New_leaves_file [OF this] have "bsi = \<lparr>bi_NodeID = bi_NodeID bsi, bi_IsNewCluster = (bi_NodeID bsi = 1),
      bi_NodeName = NodeName (NewEnvParams getenv (gRPCPort fl)),
      bi_ClusterName = ClusterName (NewEnvParams getenv (gRPCPort fl)), bi_Peers = bi_Peers bsi\<rparr>" by blast
  from arg_cong [OF this, of bi_NodeName] show ?thesis by simp
qed


definition boot_flags :: flags where
  "boot_flags = default_flags\<lparr>doBootstrap := True\<rparr>"


section \<open>Snapshot references\<close>

lemma Snapshot_reference:
  "mysql_Snapshot X s = (Ok snap, s') \<Longrightarrow> ref_Marshal X \<lparr>ref_Addr = my_addr s, ref_SSHPort = sshPort s\<rparr> = Inr (SData snap)"
  by (auto simp: mysql_Snapshot_def op_bind_def wrap_err_def op_get_def op_ret_def op_err_def raft_stmt_def my_call_def
      in_database_def select_state_def state_query_def sys_call_def
      split: handle.splits if_splits list.splits fault.splits option.splits prod.splits res.splits sum.splits)

text \<open>
  C37. Where a snapshot comes from under the controller's configuration of MySQL: a snapshot taken on any pod refers to
  the host \<open>localhost\<close>, so that the pod that applies it asks for a backup from no host but itself, whatever fails on the
  way and although its own data directory has been emptied before.
\<close>

theorem controller_snapshot_from_itself:
  assumes "backendProvides fl key = Some (Mysql_choice P)" and "my_addr src = mp_Addr P" and "sshPort src = mp_SSHPort P"
    and "mysql_Snapshot X src = (Ok snap, src')"
    and "\<forall>b. ref_Marshal X \<lparr>ref_Addr = my_addr src, ref_SSHPort = sshPort src\<rparr> = Inr b \<longrightarrow>
       ref_Unmarshal X b = Inr \<lparr>ref_Addr = my_addr src, ref_SSHPort = sshPort src\<rparr>"
    and "ApplySnapshotWithPortRecovery X snap rec dst = (r, dst')"
  shows "\<exists>evs. ev_trace dst' = ev_trace dst @ evs
    \<and> (\<forall>h p c. Remote h p c \<in> set evs \<longrightarrow> h = ''localhost'' \<and> p = 22)"
proof -
  have P: "mp_Addr P = ''localhost''" "mp_SSHPort P = 22"
    using assms(1) by (auto simp: backendProvides_def split: if_splits)
  then have "ref_Unmarshal X (SData snap) = Inr \<lparr>ref_Addr = ''localhost'', ref_SSHPort = 22\<rparr>"
    using Snapshot_reference [OF assms(4)] assms(2,3,5) by simp
  from does_ApplySnapshot [OF this, of rec] assms(6) obtain evs rest where
    e: "ev_trace dst' = ev_trace dst @ evs"
      "snapshot_steps \<lparr>ref_Addr = ''localhost'', ref_SSHPort = 22\<rparr> @ [Ran cmd_unblock] = steps_of evs @ rest"
    unfolding does_def by (metis snd_conv)
  have "h = ''localhost'' \<and> p = 22" if "Remote h p c \<in> set evs" for h p c
  proof -
    from that have "Remote h p c \<in> set (steps_of evs @ rest)" by (simp add: steps_of_def)
    then show ?thesis unfolding e(2) [symmetric] by (simp add: snapshot_steps_def)
  qed
  with e(1) show ?thesis by blast
qed

lemma controller_snapshot_from_itself_witness:
  "\<exists>snap evs. mysql_Snapshot demo_my ((demo_mysql 0 [] [] True)\<lparr>my_addr := ''localhost''\<rparr>) =
      (Ok snap, (demo_mysql 0 [] [] True)\<lparr>my_addr := ''localhost''\<rparr>)
    \<and> ev_trace (snd (ApplySnapshotWithPortRecovery demo_my snap (\<lambda>p. (None, p)) (demo_mysql 0 [] [] True))) = evs
    \<and> (\<forall>h p c. Remote h p c \<in> set evs \<longrightarrow> h = ''localhost'' \<and> p = 22)"
proof -
  let ?src = "(demo_mysql 0 [] [] True)\<lparr>my_addr := ''localhost''\<rparr>"
  have "my_ready demo_my ?src" by (auto simp: my_ready_def calm_def tables_ok_def first_row_def demo_my_def)
  from my_ready_Snapshot [OF this, of first_row "''localhost''"] obtain snap where
    snap: "mysql_Snapshot demo_my ?src = (Ok snap, ?src)" by (auto simp: demo_my_def)
  let ?d = "demo_mysql 0 [] [] True"
  have P: "backendProvides default_flags [] = Some (Mysql_choice \<lparr>mp_Addr = ''localhost'', mp_MysqlPort = 3306,
      mp_SSHPort = 22, mp_PrivateKey = [], mp_EntriesToRetain = 1000\<rparr>)"
    by (simp add: backendProvides_def default_flags_def)
  have "\<exists>evs. ev_trace (snd (ApplySnapshotWithPortRecovery demo_my snap (\<lambda>p. (None, p)) ?d)) = ev_trace ?d @ evs
      \<and> (\<forall>h p c. Remote h p c \<in> set evs \<longrightarrow> h = ''localhost'' \<and> p = 22)"
    using controller_snapshot_from_itself [OF P _ _ snap _ prod.collapse [symmetric], of "\<lambda>p. (None, p)" ?d]
    by (simp add: demo_my_def)
  with snap show ?thesis by auto
qed

section \<open>Shutting down\<close>

lemma close_handle_not_open: "close_handle h \<noteq> HOpen"
  by (cases h) simp_all

lemma close_all_conns:
  "\<exists>err' cc. close_all (grpc_iface N) cs err s = (Ok err', s\<lparr>conns_closed := cc\<rparr>)"
proof (induction cs arbitrary: err s)
  case Nil
  then show ?case by (intro exI [of _ err] exI [of _ "conns_closed s"]) (simp add: op_ret_def)
next
  case (Cons c cs)
  have "\<exists>err2. close_all (grpc_iface N) (c # cs) err s =
      close_all (grpc_iface N) cs err2 (s\<lparr>conns_closed := conn c # conns_closed s\<rparr>)"
    by (cases "conn_Close N (is_closed c s) c") (auto simp: op_bind_def attempt_def grpc_iface_def grpc_Close_def)
  then obtain err2 where step: "close_all (grpc_iface N) (c # cs) err s =
      close_all (grpc_iface N) cs err2 (s\<lparr>conns_closed := conn c # conns_closed s\<rparr>)" by blast
  from Cons.IH [of err2 "s\<lparr>conns_closed := conn c # conns_closed s\<rparr>"] obtain err' cc where
    "close_all (grpc_iface N) cs err2 (s\<lparr>conns_closed := conn c # conns_closed s\<rparr>) = (Ok err', s\<lparr>conns_closed := cc\<rparr>)"
    by auto
  with step show ?case by auto
qed

lemma pm_Close_conns: "\<exists>cc. ignore_err (pm_Close (grpc_iface N)) s = (Ok (), s\<lparr>conns_closed := cc\<rparr>)"
proof -
  obtain err cc where "close_all (grpc_iface N) (map snd (peerMap s)) None s = (Ok err, s\<lparr>conns_closed := cc\<rparr>)"
    using close_all_conns by blast
  then show ?thesis by (cases err) (auto simp: pm_Close_def op_defs)
qed

text \<open>The main loop that receives \<open>done\<close> closes everything, whatever the connections report.\<close>

lemma sqlite_shutdown:
  fixes s :: "('u sqlite, 'r, grpc_client) node"
  assumes "raftNode s \<noteq> None"
  shows "\<exists>t. runMainLoop R (sqlite_backend X) (grpc_iface N) [Done] s = (Ok (), t) \<and> \<not> node.running t
    \<and> destMap t (cfg_ID (config s)) = None \<and> backend t = snd (sqlite_Stop (backend s))"
proof -
  obtain r where r: "raftNode s = Some r" using assms by blast
  obtain cc where "ignore_err (pm_Close (grpc_iface N)) s = (Ok (), s\<lparr>conns_closed := cc\<rparr>)"
    using pm_Close_conns by blast
  then show ?thesis using r
    by (simp add: shutdown_def op_bind_def op_get_def op_mod_def UnregisterDestCallback_def tell_raft_def on_raft_def
        on_backend_def ignore_err_def attempt_def sqlite_backend_def sqlite_Stop_def op_ret_def)
qed

lemma sqlite_app_Stop:
  fixes u :: "('u sqlite, 'r, grpc_client) server"
  assumes "node.running (srv_node u)" and "raftNode (srv_node u) \<noteq> None"
  shows "\<exists>r v. app_Stop R (sqlite_backend X) (grpc_iface N) u = Some (r, v) \<and> (\<forall>e. r \<noteq> Panic e) \<and> \<not> node.running (srv_node v)
    \<and> destMap (srv_node v) (GetID (srv_node u)) = None \<and> raftdb (backend (srv_node v)) \<noteq> HOpen
    \<and> mgmtdb (backend (srv_node v)) \<noteq> HOpen \<and> db (backend (srv_node v)) \<noteq> HOpen
    \<and> (faults u = [] \<longrightarrow> \<not> http_serving v \<and> \<not> grpc_serving v)"
proof -
  from sqlite_shutdown [OF assms(2), of R X N] obtain m where
    m: "runMainLoop R (sqlite_backend X) (grpc_iface N) [Done] (srv_node u) = (Ok (), m)" "\<not> node.running m"
      "destMap m (cfg_ID (config (srv_node u))) = None" "backend m = snd (sqlite_Stop (backend (srv_node u)))"
    by (elim exE conjE)
  have closed: "raftdb (backend m) \<noteq> HOpen" "mgmtdb (backend m) \<noteq> HOpen" "db (backend m) \<noteq> HOpen"
    unfolding m(4) by (simp_all add: sqlite_Stop_def op_mod_def close_handle_not_open)
  have "\<exists>r v. app_Stop R (sqlite_backend X) (grpc_iface N) u = Some (r, v) \<and> (\<forall>e. r \<noteq> Panic e) \<and> srv_node v = m
      \<and> (faults u = [] \<longrightarrow> \<not> http_serving v \<and> \<not> grpc_serving v)"
    using assms m(1)
    by (cases u) (auto simp: app_Stop_def server_Stop_def node_Stop_def op_bind_def op_mod_def sys_call_ret
        fault_error_def split: option.splits list.splits fault.splits)
  with m(2,3) closed show ?thesis unfolding GetID_def by metis
qed


text \<open>A process whose node has come up while \<open>main\<close> waits, and which is told to end, after a signal that came too early.\<close>

definition demo_params :: server_params where
  "demo_params = \<lparr>sp_Addr = ''a'', sp_Port = ''10'', sp_GatewayPort = ''11'', sp_PrivateKey = []\<rparr>"

definition demo_launch :: "(string list sqlite, nat, grpc_client) server \<Rightarrow> (string list sqlite, nat, grpc_client) server" where
  "demo_launch s = s\<lparr>srv_node := demo_node\<lparr>node.running := True\<rparr>\<rparr>"


end
