(* ===== verification/Kube_Helper.thy ===== *)
theory Kube_Helper
  imports Raft_Types
begin

text \<open>
  The Kubernetes helper, \<open>internal/lib/kubehelper.go\<close>, which the integration tests use to set up their
  pods, with the port forwarding of \<open>internal/lib/port_forward.go\<close>. The Kubernetes client is a parameter: one record of calls for each kind of object, over a state
  \<open>'s\<close> of the cluster, with \<open>IsNotFound\<close> and the decoding of YAML.
\<close>

section \<open>The client\<close>

record ('s, 'o) kube_objects =
  ko_Get :: "string \<Rightarrow> ('s, 'o) op"
  ko_Create :: "'o \<Rightarrow> ('s, 'o) op"
  ko_Delete :: "string \<Rightarrow> ('s, unit) op"
  ko_DeleteCollection :: "string \<Rightarrow> ('s, unit) op"
  ko_Unmarshal :: "string \<Rightarrow> goerr + 'o"

record pod =
  pod_Phase :: string
  pod_Conditions :: "(string \<times> string) list"

record secret =
  secret_Data :: "string \<rightharpoonup> bytes"

text \<open>\<open>second\<close> is what a second of waiting does to the cluster.\<close>

record ('s, 'cm, 'pd, 'sec, 'ss, 'pvc) kube =
  ConfigMaps :: "('s, 'cm) kube_objects"
  Secrets :: "('s, 'sec) kube_objects"
  Pods :: "('s, 'pd) kube_objects"
  StatefulSets :: "('s, 'ss) kube_objects"
  PersistentVolumeClaims :: "('s, 'pvc) kube_objects"
  IsNotFound :: "goerr \<Rightarrow> bool"
  kube_second :: "'s \<Rightarrow> 's"

section \<open>Operations\<close>

definition NewKubeHelper :: "goerr + 'cfg \<Rightarrow> ('cfg \<Rightarrow> goerr + 'k) \<Rightarrow> string \<Rightarrow> goerr + 'cfg \<times> 'k \<times> string" where
  "NewKubeHelper config newForConfig namespace = (case config of
      Inl e \<Rightarrow> Inl e
    | Inr cfg \<Rightarrow> (case newForConfig cfg of Inl e \<Rightarrow> Inl e | Inr k \<Rightarrow> Inr (cfg, k, namespace)))"

text \<open>The text the four \<open>Ensure\<close> functions share: create the object if it is not found.\<close>

definition ensure :: "string \<Rightarrow> (goerr \<Rightarrow> bool) \<Rightarrow> ('s, 'o) kube_objects \<Rightarrow> string \<Rightarrow> string \<Rightarrow> ('s, unit) op" where
  "ensure kind nf K name yml =
     op_bind (attempt (ko_Get K name)) (\<lambda>r. case r of
       Inr _ \<Rightarrow> op_ret ()
     | Inl err \<Rightarrow>
         if nf err then (case ko_Unmarshal K yml of
             Inl e \<Rightarrow> op_err (EWrap e (''unmarshaling '' @ kind @ '' YAML''))
           | Inr new \<Rightarrow> op_bind (wrap_err (''creating '' @ kind) (ko_Create K new)) (\<lambda>_. op_ret ()))
         else op_ret ())"

definition EnsureConfigMap :: "('s, 'cm, 'pd, 'sec, 'ss, 'pvc) kube \<Rightarrow> string \<Rightarrow> string \<Rightarrow> ('s, unit) op" where
  "EnsureConfigMap k = ensure ''ConfigMap'' (IsNotFound k) (ConfigMaps k)"

definition EnsureSecret :: "('s, 'cm, 'pd, 'sec, 'ss, 'pvc) kube \<Rightarrow> string \<Rightarrow> string \<Rightarrow> ('s, unit) op" where
  "EnsureSecret k = ensure ''Secret'' (IsNotFound k) (Secrets k)"

definition ExtractBytesFromSecretYAML :: "(string \<Rightarrow> goerr + secret) \<Rightarrow> string \<Rightarrow> string \<Rightarrow> goerr + bytes" where
  "ExtractBytesFromSecretYAML unmarshal secretYAML key = (case unmarshal secretYAML of
      Inl e \<Rightarrow> Inl e
    | Inr s \<Rightarrow> Inr (case secret_Data s key of None \<Rightarrow> [] | Some d \<Rightarrow> d))"

definition EnsurePod :: "('s, 'cm, 'pd, 'sec, 'ss, 'pvc) kube \<Rightarrow> string \<Rightarrow> string \<Rightarrow> ('s, unit) op" where
  "EnsurePod k = ensure ''Pod'' (IsNotFound k) (Pods k)"

definition DeletePod :: "('s, 'cm, 'pd, 'sec, 'ss, 'pvc) kube \<Rightarrow> string \<Rightarrow> ('s, unit) op" where
  "DeletePod k podName = ko_Delete (Pods k) podName"

definition EnsureStatefulSet :: "('s, 'cm, 'pd, 'sec, 'ss, 'pvc) kube \<Rightarrow> string \<Rightarrow> string \<Rightarrow> ('s, unit) op" where
  "EnsureStatefulSet k = ensure ''StatefulSet'' (IsNotFound k) (StatefulSets k)"

definition DeleteStatefulSet :: "('s, 'cm, 'pd, 'sec, 'ss, 'pvc) kube \<Rightarrow> string \<Rightarrow> ('s, unit) op" where
  "DeleteStatefulSet k ssetName = ko_Delete (StatefulSets k) ssetName"

definition DeletePeristentVolumeClaim :: "('s, 'cm, 'pd, 'sec, 'ss, 'pvc) kube \<Rightarrow> string \<Rightarrow> ('s, unit) op" where
  "DeletePeristentVolumeClaim k pvcName = ko_Delete (PersistentVolumeClaims k) pvcName"

definition DeletePeristentVolumeClaims :: "('s, 'cm, 'pd, 'sec, 'ss, 'pvc) kube \<Rightarrow> string \<Rightarrow> string \<Rightarrow> ('s, unit) op" where
  "DeletePeristentVolumeClaims k inst ssetName = ko_DeleteCollection (PersistentVolumeClaims k)
     (''app.kubernetes.io/instance='' @ inst @ '',app.kubernetes.io/name='' @ ssetName)"

definition pod_ready :: "pod \<Rightarrow> bool" where
  "pod_ready p \<longleftrightarrow> pod_Phase p = ''Running'' \<and> list_ex (\<lambda>(t, st). t = ''Ready'' \<and> st = ''True'') (pod_Conditions p)"

fun WaitForPodToBeReady :: "('s, 'cm, pod, 'sec, 'ss, 'pvc) kube \<Rightarrow> string \<Rightarrow> nat \<Rightarrow> ('s, unit) op" where
  "WaitForPodToBeReady k podName 0 = op_ret ()"
| "WaitForPodToBeReady k podName (Suc attempts) =
     op_bind (attempt (ko_Get (Pods k) podName)) (\<lambda>r. case r of
       Inr p \<Rightarrow> if pod_ready p then op_ret ()
         else op_bind (op_mod (kube_second k)) (\<lambda>_. WaitForPodToBeReady k podName attempts)
     | Inl err \<Rightarrow> if \<not> IsNotFound k err then op_err (EWrap err ''getting pod to wait on (%s)'')
         else op_bind (op_mod (kube_second k)) (\<lambda>_. WaitForPodToBeReady k podName attempts))"

fun WaitForPodToBeGone :: "('s, 'cm, pod, 'sec, 'ss, 'pvc) kube \<Rightarrow> string \<Rightarrow> nat \<Rightarrow> ('s, unit) op" where
  "WaitForPodToBeGone k podName 0 = op_err (ENew ''ran out of attempts'')"
| "WaitForPodToBeGone k podName (Suc attempts) =
     op_bind (attempt (ko_Get (Pods k) podName)) (\<lambda>r.
     if (case r of Inl _ \<Rightarrow> False | Inr p \<Rightarrow> pod_Phase p \<noteq> ''Terminating'') then op_ret ()
     else op_bind (op_mod (kube_second k)) (\<lambda>_. WaitForPodToBeGone k podName attempts))"

section \<open>Port forwarding\<close>

text \<open>
  What the caller of the forwarding goroutine sees of it: \<open>readyCh\<close> is closed, and \<open>PortForwardAPod\<close> returns.
\<close>

datatype forward_event = ReadyClosed | Returned "goerr option"

text \<open>
  The client library: a transport for the configuration, a forwarder for a URL (scheme, host, path) and the port pairs,
  and what forwarding does, in order.
\<close>

record ('cfg, 'tr, 'fw) forward_lib =
  cfg_Host :: "'cfg \<Rightarrow> string"
  RoundTripperFor :: "'cfg \<Rightarrow> goerr + 'tr"
  new_forwarder :: "'tr \<Rightarrow> string \<times> string \<times> string \<Rightarrow> (int \<times> int) list \<Rightarrow> goerr + 'fw"
  ForwardPorts :: "'fw \<Rightarrow> forward_event list"

text \<open>\<open>strings.TrimLeft\<close>: the cutset is a set of characters, not a prefix.\<close>

definition TrimLeft :: "string \<Rightarrow> string \<Rightarrow> string" where
  "TrimLeft s cutset = dropWhile (\<lambda>c. c \<in> set cutset) s"

definition forward_url :: "string \<Rightarrow> string \<Rightarrow> string \<Rightarrow> string \<times> string \<times> string" where
  "forward_url host ns name =
     (''https'', TrimLeft host ''https:/'', ''/api/v1/namespaces/'' @ ns @ ''/pods/'' @ name @ ''/portforward'')"

definition PortForwardAPod ::
  "('cfg, 'tr, 'fw) forward_lib \<Rightarrow> 'cfg \<Rightarrow> string \<Rightarrow> string \<Rightarrow> int \<Rightarrow> int \<Rightarrow> forward_event list" where
  "PortForwardAPod L cfg ns name localPort podPort = (case RoundTripperFor L cfg of
      Inl e \<Rightarrow> [Returned (Some e)]
    | Inr tr \<Rightarrow> (case new_forwarder L tr (forward_url (cfg_Host L cfg) ns name) [(localPort, podPort)] of
        Inl e \<Rightarrow> [Returned (Some e)]
      | Inr fw \<Rightarrow> ForwardPorts L fw))"

text \<open>
  \<open>PortForward\<close> waits for the first of two channels: \<open>readyCh\<close> is closed, or the goroutine sends the error it returned
  with. When the goroutine returns nil, nothing is sent, and the call goes on waiting (\<open>None\<close>: for ever).
\<close>

fun await :: "forward_event list \<Rightarrow> unit res option" where
  "await [] = None"
| "await (ReadyClosed # evs) = Some (Ok ())"
| "await (Returned (Some e) # evs) = Some (Err e)"
| "await (Returned None # evs) = await evs"

definition PortForward ::
  "('cfg, 'tr, 'fw) forward_lib \<Rightarrow> 'cfg \<times> 'k \<times> string \<Rightarrow> string \<Rightarrow> int \<Rightarrow> int \<Rightarrow> unit res option" where
  "PortForward L k podName localPort podPort =
     await (PortForwardAPod L (fst k) (snd (snd k)) podName localPort podPort)"

section \<open>Ensuring that an object exists\<close>

text \<open>
  An object that is found is left alone; one that is not found is created from its description, and only
  the errors of decoding and creating it are reported; any other error of looking it up counts as success.
\<close>

lemma ensure_eq:
  "fst (ko_Get K name s) = Ok x \<Longrightarrow> ensure kind nf K name yml s = (Ok (), snd (ko_Get K name s))"
  "fst (ko_Get K name s) = Err e \<Longrightarrow> \<not> nf e \<Longrightarrow> ensure kind nf K name yml s = (Ok (), snd (ko_Get K name s))"
  "fst (ko_Get K name s) = Err e \<Longrightarrow> nf e \<Longrightarrow> ko_Unmarshal K yml = Inr new \<Longrightarrow>
     ensure kind nf K name yml s = (case ko_Create K new (snd (ko_Get K name s)) of
       (Ok _, t) \<Rightarrow> (Ok (), t) | (Err x, t) \<Rightarrow> (Err (EWrap x (''creating '' @ kind)), t) | (Panic x, t) \<Rightarrow> (Panic x, t))"
  by (auto simp: ensure_def op_defs wrap_err_def split: prod.splits res.splits)

section \<open>Waiting for a pod\<close>

text \<open>What a client sees of a pod: found with its status, or not found.\<close>

definition sees :: "('s, 'cm, pod, 'sec, 'ss, 'pvc) kube \<Rightarrow> string \<Rightarrow> ('s \<Rightarrow> pod option) \<Rightarrow> bool" where
  "sees k name look \<longleftrightarrow> (\<exists>e. IsNotFound k e \<and>
     (\<forall>s. ko_Get (Pods k) name s = (case look s of None \<Rightarrow> Err e | Some p \<Rightarrow> Ok p, s)))"

definition ready_at :: "('s \<Rightarrow> pod option) \<Rightarrow> 's \<Rightarrow> bool" where
  "ready_at look s \<longleftrightarrow> (\<exists>p. look s = Some p \<and> pod_ready p)"

definition staying_at :: "('s \<Rightarrow> pod option) \<Rightarrow> 's \<Rightarrow> bool" where
  "staying_at look s \<longleftrightarrow> (\<exists>p. look s = Some p \<and> pod_Phase p \<noteq> ''Terminating'')"

lemma wait_ready_run:
  assumes "sees k name look"
  shows "\<exists>j \<le> n. WaitForPodToBeReady k name n s = (Ok (), (kube_second k ^^ j) s)
    \<and> (\<forall>i < j. \<not> ready_at look ((kube_second k ^^ i) s)) \<and> (j = n \<or> ready_at look ((kube_second k ^^ j) s))"
proof (induction n arbitrary: s)
  case 0
  then show ?case by (simp add: op_ret_def)
next
  case (Suc n)
  let ?f = "kube_second k"
  obtain e where e: "IsNotFound k e" "\<And>s. ko_Get (Pods k) name s = (case look s of None \<Rightarrow> Err e | Some p \<Rightarrow> Ok p, s)"
    using assms by (auto simp: sees_def)
  show ?case
  proof (cases "ready_at look s")
    case True
    then have "WaitForPodToBeReady k name (Suc n) s = (Ok (), s)" using e by (auto simp: ready_at_def op_defs)
    with True show ?thesis by (intro exI [of _ 0]) simp
  next
    case False
    then have step: "WaitForPodToBeReady k name (Suc n) s = WaitForPodToBeReady k name n (?f s)"
      using e by (cases "look s") (auto simp: ready_at_def op_defs)
    obtain j where j: "j \<le> n" "WaitForPodToBeReady k name n (?f s) = (Ok (), (?f ^^ j) (?f s))"
      "\<forall>i < j. \<not> ready_at look ((?f ^^ i) (?f s))" "j = n \<or> ready_at look ((?f ^^ j) (?f s))"
      using Suc.IH by blast
    have "\<not> ready_at look ((?f ^^ i) s)" if "i < Suc j" for i
      using that False j(3) by (cases i) (simp_all add: funpow_Suc_right del: funpow.simps)
    then show ?thesis
      using step j by (intro exI [of _ "Suc j"]) (auto simp: funpow_Suc_right simp del: funpow.simps)
  qed
qed

lemma wait_gone_run:
  assumes "sees k name look"
  shows "fst (WaitForPodToBeGone k name n s) =
    (if \<exists>j < n. staying_at look ((kube_second k ^^ j) s) then Ok () else Err (ENew ''ran out of attempts''))"
proof (induction n arbitrary: s)
  case 0
  then show ?case by (simp add: op_err_def)
next
  case (Suc n)
  obtain e where e: "\<And>s. ko_Get (Pods k) name s = (case look s of None \<Rightarrow> Err e | Some p \<Rightarrow> Ok p, s)"
    using assms by (auto simp: sees_def)
  have split: "(\<exists>j < Suc n. staying_at look ((kube_second k ^^ j) s)) \<longleftrightarrow>
      staying_at look s \<or> (\<exists>j < n. staying_at look ((kube_second k ^^ j) (kube_second k s)))"
    by (simp add: Ex_less_Suc2 funpow_swap1)
  show ?case
  proof (cases "staying_at look s")
    case True
    then show ?thesis unfolding split using e by (auto simp: staying_at_def op_defs)
  next
    case False
    then have "WaitForPodToBeGone k name (Suc n) s = WaitForPodToBeGone k name n (kube_second k s)"
      using e by (cases "look s") (auto simp: staying_at_def op_defs)
    then show ?thesis unfolding split using Suc.IH False by simp
  qed
qed

text \<open>
  What the two waits mean: \<open>WaitForPodToBeReady\<close> returns after at most as many seconds as it has attempts, at
  the first second the pod is seen ready, but with nil also when it never was; \<open>WaitForPodToBeGone\<close> returns nil
  exactly if the pod is seen within the attempts in a phase other than \<open>Terminating\<close>, so that it succeeds while
  the pod is running and fails when the pod is gone.
\<close>

theorem pod_waits:
  assumes "sees k name look"
  shows "(\<exists>j \<le> n. WaitForPodToBeReady k name n s = (Ok (), (kube_second k ^^ j) s)
      \<and> (\<forall>i < j. \<not> ready_at look ((kube_second k ^^ i) s)) \<and> (j = n \<or> ready_at look ((kube_second k ^^ j) s)))
    \<and> fst (WaitForPodToBeGone k name n s) =
      (if \<exists>j < n. staying_at look ((kube_second k ^^ j) s) then Ok () else Err (ENew ''ran out of attempts''))"
  using wait_ready_run [OF assms] wait_gone_run [OF assms] by blast

text \<open>A cluster whose only pod is running but never ready, or is gone.\<close>

definition demo_pods :: "(pod option, pod) kube_objects" where
  "demo_pods = \<lparr>ko_Get = (\<lambda>n s. (case s of None \<Rightarrow> Err (ENew ''not found'') | Some p \<Rightarrow> Ok p, s)),
     ko_Create = (\<lambda>p s. (Ok p, Some p)), ko_Delete = (\<lambda>n s. (Ok (), None)), ko_DeleteCollection = (\<lambda>l s. (Ok (), None)),
     ko_Unmarshal = (\<lambda>y. Inr \<lparr>pod_Phase = y, pod_Conditions = []\<rparr>)\<rparr>"

definition demo_kube :: "(pod option, pod, pod, pod, pod, pod) kube" where
  "demo_kube = \<lparr>ConfigMaps = demo_pods, Secrets = demo_pods, Pods = demo_pods, StatefulSets = demo_pods,
     PersistentVolumeClaims = demo_pods, IsNotFound = (\<lambda>e. e = ENew ''not found''), kube_second = (\<lambda>s. s)\<rparr>"

lemma pod_waits_witness:
  "fst (WaitForPodToBeReady demo_kube ''p'' 2 None) = Ok ()
   \<and> fst (WaitForPodToBeGone demo_kube ''p'' 2 None) = Err (ENew ''ran out of attempts'')
   \<and> fst (WaitForPodToBeGone demo_kube ''p'' 2 (Some \<lparr>pod_Phase = ''Running'', pod_Conditions = []\<rparr>)) = Ok ()"
proof -
  have s: "sees demo_kube ''p'' (\<lambda>s. s)" by (auto simp: sees_def demo_kube_def demo_pods_def)
  have f: "(kube_second demo_kube ^^ j) x = x" for j x by (induction j) (simp_all add: demo_kube_def)
  have two: "\<exists>j. j < (2 :: nat)" by (rule exI [of _ 0]) simp
  show ?thesis
    using pod_waits [OF s, of 2 None] pod_waits [OF s, of 2 "Some \<lparr>pod_Phase = ''Running'', pod_Conditions = []\<rparr>"]
    by (auto simp: f staying_at_def two simp del: WaitForPodToBeReady.simps WaitForPodToBeGone.simps)
qed

section \<open>Forwarding a port\<close>

lemma TrimLeft_scheme:
  "TrimLeft (''https://'' @ host) ''https:/'' = dropWhile (\<lambda>c. c \<in> set ''https:/'') host"
  by (simp add: TrimLeft_def)

text \<open>
  Where the forwarded connection goes: to the host of the configured URL \<open>https://host\<close> if, and only if, its name does not
  start with one of the letters \<open>h\<close>, \<open>t\<close>, \<open>p\<close>, \<open>s\<close>, a colon or a slash; a name that does loses these characters. \<open>PortForward\<close> returns
  once the library has signalled that it is ready or failed before; when it returns nil before being ready,
  \<open>PortForward\<close> never returns.
\<close>

theorem port_forward_target:
  assumes "RoundTripperFor L cfg = Inr tr" and "cfg_Host L cfg = ''https://'' @ host" and "host \<noteq> []"
    and "\<And>h. new_forwarder L tr (''https'', h, ''/api/v1/namespaces/'' @ ns @ ''/pods/'' @ name @ ''/portforward'') [(lp, pp)] = Inr (fw h)"
  shows "\<exists>h. PortForwardAPod L cfg ns name lp pp = ForwardPorts L (fw h)
    \<and> (h = host \<longleftrightarrow> hd host \<notin> {CHR ''h'', CHR ''t'', CHR ''p'', CHR ''s'', CHR '':'', CHR ''/''})
    \<and> (ForwardPorts L (fw h) = ReadyClosed # evs \<longrightarrow> PortForward L (cfg, k, ns) name lp pp = Some (Ok ()))
    \<and> (ForwardPorts L (fw h) = Returned (Some e) # evs \<longrightarrow> PortForward L (cfg, k, ns) name lp pp = Some (Err e))
    \<and> (ForwardPorts L (fw h) = [Returned None] \<longrightarrow> PortForward L (cfg, k, ns) name lp pp = None)"
proof -
  let ?h = "dropWhile (\<lambda>c. c \<in> set ''https:/'') host"
  have run: "PortForwardAPod L cfg ns name lp pp = ForwardPorts L (fw ?h)"
    using assms by (simp add: PortForwardAPod_def forward_url_def TrimLeft_scheme [simplified])
  have "?h = host \<longleftrightarrow> hd host \<notin> set ''https:/''" using assms(3) by (simp only: dropWhile_eq_self_iff) simp
  then show ?thesis using run by (intro exI [of _ ?h]) (auto simp: PortForward_def)
qed

text \<open>A cluster whose API server is called \<open>staging\<close>.\<close>

definition demo_forward :: "(unit, unit, string) forward_lib" where
  "demo_forward = \<lparr>cfg_Host = (\<lambda>_. ''https://staging''), RoundTripperFor = Inr,
     new_forwarder = (\<lambda>_ (sch, h, p) ps. Inr h), ForwardPorts = (\<lambda>h. if h = ''staging'' then [ReadyClosed] else [Returned (Some (ENew h))])\<rparr>"

lemma port_forward_target_witness: "PortForward demo_forward ((), (), ''ns'') ''pod'' 1 2 \<noteq> Some (Ok ())"
  using port_forward_target [of demo_forward "()" "()" "''staging''" "''ns''" "''pod''" 1 2 "\<lambda>h. h" "[]" "()" "ENew ''aging''"]
  by (auto simp: demo_forward_def PortForward_def PortForwardAPod_def forward_url_def TrimLeft_def)

end
