(* ===== verification/Ssh_Server.thy ===== *)
theory Ssh_Server
  imports Deeb_Prelude "HOL-Library.Multiset"
begin

text \<open>
  \<open>SSHRespondingServer\<close> of \<open>internal/lib/ssh.go\<close>, the server that plays a MySQL pod in the tests: it answers one
  command with the bytes of a reader. The goroutines (the accept loop, one per channel, one per copy) are
  interleaved in a step relation; the SSH library is a parameter.
\<close>

section \<open>State\<close>

text \<open>
  A session is an accepted channel: what was written to it, the replies to its requests, and who closed it.
  \<open>io.Copy\<close> reads a chunk and then writes it, so a copier holds the chunk in between.
\<close>

record session =
  sess_out :: string
  sess_replies :: "bool list"
  sess_closed :: bool

record copier =
  cp_session :: nat
  cp_buf :: string

datatype phase = NotStarted | Selecting | Serving | Returned | Crashed

record ssh_server =
  ssh_port :: int
  hostKey :: string
  expectedCommand :: string
  responseReader :: string
  stop_sent :: bool
  phase :: phase
  sessions :: "session list"
  copiers :: "copier list"
  rejected :: "string list"

text \<open>
  The library: parsing a key, listening on an address, the handshake (an error, or the connection), accepting a
  channel, and decoding an \<open>exec\<close> payload, which leaves a command even when it reports an error.
\<close>

record ('key, 'conn) ssh_lib =
  ParsePrivateKey :: "string \<Rightarrow> goerr + 'key"
  net_Listen :: "int \<Rightarrow> goerr option"
  NewServerConn :: "'key option \<Rightarrow> 'conn \<Rightarrow> goerr option"
  ssh_Unmarshal :: "string \<Rightarrow> string \<times> goerr option"

datatype ssh_request = Request (req_Type: string) (req_Payload: string)

section \<open>Operations\<close>

definition NewSSHRespondingServer :: "int \<Rightarrow> string \<Rightarrow> string \<Rightarrow> string \<Rightarrow> ssh_server" where
  "NewSSHRespondingServer p key expected reader = \<lparr>ssh_port = p, hostKey = key, expectedCommand = expected,
     responseReader = reader, stop_sent = False, phase = NotStarted, sessions = [], copiers = [], rejected = []\<rparr>"

text \<open>\<open>Stop\<close> sends on a channel with room for one value: \<open>None\<close> while that room is taken.\<close>

definition ssh_Stop :: "ssh_server \<Rightarrow> ssh_server option" where
  "ssh_Stop s = (if stop_sent s then None else Some (s\<lparr>stop_sent := True\<rparr>))"

text \<open>
  \<open>runServer\<close> up to its loop. Neither a bad key nor a failed \<open>Listen\<close> ends it: the key is then nil, and the listener
  is, so that the goroutine that accepts dereferences nil, which ends the process.
\<close>

definition run_prologue :: "('key, 'conn) ssh_lib \<Rightarrow> ssh_server \<Rightarrow> ssh_server" where
  "run_prologue L s = (case net_Listen L (ssh_port s) of
      Some _ \<Rightarrow> s\<lparr>phase := Crashed\<rparr>
    | None \<Rightarrow> s\<lparr>phase := Selecting\<rparr>)"

definition parsed_key :: "('key, 'conn) ssh_lib \<Rightarrow> ssh_server \<Rightarrow> 'key option" where
  "parsed_key L s = (case ParsePrivateKey L (hostKey s) of Inl _ \<Rightarrow> None | Inr k \<Rightarrow> Some k)"

text \<open>One turn of the loop, for the connection \<open>accept\<close> delivered: nil after an error of \<open>Accept\<close>.\<close>

definition accepted :: "('key, 'conn) ssh_lib \<Rightarrow> 'conn option \<Rightarrow> ssh_server \<Rightarrow> ssh_server" where
  "accepted L c s = (case c of
      None \<Rightarrow> s
    | Some c \<Rightarrow> (case NewServerConn L (parsed_key L s) c of Some _ \<Rightarrow> s | None \<Rightarrow> s\<lparr>phase := Serving\<rparr>))"

text \<open>\<open>handleChannel\<close>: \<open>ok\<close> is whether \<open>Accept\<close> succeeds.\<close>

definition handleChannel :: "string \<Rightarrow> bool \<Rightarrow> ssh_server \<Rightarrow> ssh_server" where
  "handleChannel t ok s =
     (if t \<noteq> ''session'' then s\<lparr>rejected := rejected s @ [t]\<rparr>
      else if \<not> ok then s
      else s\<lparr>sessions := sessions s @ [\<lparr>sess_out = [], sess_replies = [], sess_closed = False\<rparr>]\<rparr>)"

text \<open>The \<open>switch\<close> on the type of a request of session \<open>i\<close>.\<close>

definition reply :: "nat \<Rightarrow> bool \<Rightarrow> ssh_server \<Rightarrow> ssh_server" where
  "reply i b s = s\<lparr>sessions := (sessions s)[i := (sessions s ! i)\<lparr>sess_replies := sess_replies (sessions s ! i) @ [b]\<rparr>]\<rparr>"

definition handleRequest :: "('key, 'conn) ssh_lib \<Rightarrow> nat \<Rightarrow> ssh_request \<Rightarrow> ssh_server \<Rightarrow> ssh_server" where
  "handleRequest L i req s =
     (if req_Type req = ''exec'' then
        (case ssh_Unmarshal L (req_Payload req) of (command, err) \<Rightarrow>
          reply i (err = None)
            (if command = expectedCommand s then s\<lparr>copiers := copiers s @ [\<lparr>cp_session = i, cp_buf = []\<rparr>]\<rparr> else s))
      else if req_Type req = ''shell'' then (if req_Payload req = [] then reply i True s else s)
      else if req_Type req = ''pty-req'' then reply i True s
      else s)"

definition close_session :: "nat \<Rightarrow> ssh_server \<Rightarrow> ssh_server" where
  "close_session i s = s\<lparr>sessions := (sessions s)[i := (sessions s ! i)\<lparr>sess_closed := True\<rparr>]\<rparr>"

text \<open>Whether a request makes the server answer with the payload.\<close>

definition asks :: "('key, 'conn) ssh_lib \<Rightarrow> ssh_server \<Rightarrow> ssh_request \<Rightarrow> bool" where
  "asks L s req \<longleftrightarrow> req_Type req = ''exec'' \<and> fst (ssh_Unmarshal L (req_Payload req)) = expectedCommand s"

section \<open>Interleaving\<close>

text \<open>
  What a step does, for the observer: \<open>Asked i\<close> is a request for the payload on session \<open>i\<close>, \<open>Hangup i\<close> is the client
  closing session \<open>i\<close>.
\<close>

datatype label = Internal | Asked nat | Hangup nat

inductive ssh_step :: "('key, 'conn) ssh_lib \<Rightarrow> ssh_server \<Rightarrow> label \<Rightarrow> ssh_server \<Rightarrow> bool" for L where
  StartAsync: "phase s = NotStarted \<Longrightarrow> ssh_step L s Internal (run_prologue L s)"
| Stop: "ssh_Stop s = Some s' \<Longrightarrow> ssh_step L s Internal s'"
| TakeConn: "phase s = Selecting \<Longrightarrow> ssh_step L s Internal (accepted L c s)"
| TakeStop: "phase s = Selecting \<Longrightarrow> stop_sent s \<Longrightarrow> ssh_step L s Internal (s\<lparr>phase := Returned, stop_sent := False\<rparr>)"
| Channel: "phase s = Serving \<Longrightarrow> ssh_step L s Internal (handleChannel t ok s)"
| ConnEnd: "phase s = Serving \<Longrightarrow> ssh_step L s Internal (s\<lparr>phase := Selecting\<rparr>)"
| Req: "i < length (sessions s) \<Longrightarrow> \<not> sess_closed (sessions s ! i) \<Longrightarrow>
    ssh_step L s (if asks L s req then Asked i else Internal) (handleRequest L i req s)"
| Read: "j < length (copiers s) \<Longrightarrow> cp_buf (copiers s ! j) = [] \<Longrightarrow> 0 < n \<Longrightarrow> n \<le> length (responseReader s) \<Longrightarrow>
    ssh_step L s Internal (s\<lparr>copiers := (copiers s)[j := (copiers s ! j)\<lparr>cp_buf := take n (responseReader s)\<rparr>],
      responseReader := drop n (responseReader s)\<rparr>)"
| Write: "j < length (copiers s) \<Longrightarrow> copiers s ! j = \<lparr>cp_session = i, cp_buf = b\<rparr> \<Longrightarrow> b \<noteq> [] \<Longrightarrow>
    \<not> sess_closed (sessions s ! i) \<Longrightarrow>
    ssh_step L s Internal (s\<lparr>copiers := (copiers s)[j := \<lparr>cp_session = i, cp_buf = []\<rparr>],
      sessions := (sessions s)[i := (sessions s ! i)\<lparr>sess_out := sess_out (sessions s ! i) @ b\<rparr>]\<rparr>)"
| WriteFails: "j < length (copiers s) \<Longrightarrow> copiers s ! j = \<lparr>cp_session = i, cp_buf = b\<rparr> \<Longrightarrow> b \<noteq> [] \<Longrightarrow>
    sess_closed (sessions s ! i) \<Longrightarrow>
    ssh_step L s Internal (s\<lparr>copiers := take j (copiers s) @ drop (Suc j) (copiers s)\<rparr>)"
| Eof: "j < length (copiers s) \<Longrightarrow> copiers s ! j = \<lparr>cp_session = i, cp_buf = []\<rparr> \<Longrightarrow> responseReader s = [] \<Longrightarrow>
    ssh_step L s Internal (close_session i (s\<lparr>copiers := take j (copiers s) @ drop (Suc j) (copiers s)\<rparr>))"
| ClientClose: "i < length (sessions s) \<Longrightarrow> ssh_step L s (Hangup i) (close_session i s)"

inductive ssh_run :: "('key, 'conn) ssh_lib \<Rightarrow> ssh_server \<Rightarrow> label list \<Rightarrow> ssh_server \<Rightarrow> bool" for L s where
  run_refl: "ssh_run L s [] s"
| run_step: "ssh_run L s ls t \<Longrightarrow> ssh_step L t l u \<Longrightarrow> ssh_run L s (ls @ [l]) u"

section \<open>The payload is never duplicated\<close>

definition copiers_wf :: "ssh_server \<Rightarrow> bool" where
  "copiers_wf s \<longleftrightarrow> (\<forall>c \<in> set (copiers s). cp_session c < length (sessions s))"

definition held :: "ssh_server \<Rightarrow> char multiset" where
  "held s = mset (concat (map sess_out (sessions s))) + mset (concat (map cp_buf (copiers s))) + mset (responseReader s)"

lemma mset_concat_update:
  assumes "i < length xs"
  shows "mset (concat (map f (xs[i := y]))) + mset (f (xs ! i)) = mset (concat (map f xs)) + mset (f y)"
  using assms
proof (induction xs arbitrary: i)
  case (Cons x xs)
  then show ?case by (cases i) (simp_all add: ac_simps)
qed simp

lemma mset_concat_remove:
  assumes "i < length xs"
  shows "mset (concat (map f (take i xs @ drop (Suc i) xs))) + mset (f (xs ! i)) = mset (concat (map f xs))"
proof -
  have "mset (concat (map f xs)) = mset (concat (map f (take i xs @ xs ! i # drop (Suc i) xs)))"
    using assms by (simp flip: id_take_nth_drop)
  then show ?thesis by simp
qed

lemmas ssh_defs = run_prologue_def ssh_Stop_def accepted_def handleChannel_def handleRequest_def reply_def close_session_def

lemma step_keeps_wf: "ssh_step L s l t \<Longrightarrow> copiers_wf s \<Longrightarrow> copiers_wf t"
  by (induction rule: ssh_step.induct)
    (auto simp: copiers_wf_def ssh_defs all_set_conv_all_nth nth_list_update nth_append less_Suc_eq
      dest!: in_set_takeD in_set_dropD split: option.splits if_splits prod.splits; metis in_set_conv_nth)+

lemma copiers_wfD:
  "copiers_wf s \<Longrightarrow> j < length (copiers s) \<Longrightarrow> copiers s ! j = \<lparr>cp_session = i, cp_buf = b\<rparr> \<Longrightarrow> i < length (sessions s)"
  unfolding copiers_wf_def by (metis copier.select_convs(1) nth_mem)

lemma map_update_same: "i < length xs \<Longrightarrow> f y = f (xs ! i) \<Longrightarrow> map f (xs[i := y]) = map f xs"
  by (metis length_map list_update_id map_update nth_map)

text \<open>Steps either keep the bytes the server holds or lose some of them.\<close>

lemma step_loses: "ssh_step L s l t \<Longrightarrow> copiers_wf s \<Longrightarrow> held t \<subseteq># held s"
proof (induction rule: ssh_step.induct)
  case (Req i s req)
  then show ?case by (auto simp: held_def ssh_defs map_update_same split: prod.splits)
next
  case (Read j s n)
  have "mset (responseReader s) = mset (take n (responseReader s)) + mset (drop n (responseReader s))"
    by (simp flip: mset_append)
  with Read show ?case
    using mset_concat_update [of j "copiers s" cp_buf "(copiers s ! j)\<lparr>cp_buf := take n (responseReader s)\<rparr>"]
    by (simp add: held_def)
next
  case (Write j s i b)
  then have i: "i < length (sessions s)" by (blast intro: copiers_wfD)
  show ?case
    using mset_concat_update [OF Write(1), of cp_buf "\<lparr>cp_session = i, cp_buf = []\<rparr>"] Write(2)
      mset_concat_update [OF i, of sess_out "(sessions s ! i)\<lparr>sess_out := sess_out (sessions s ! i) @ b\<rparr>"]
    by (simp add: held_def ac_simps)
next
  case (WriteFails j s i b)
  then show ?case using mset_concat_remove [OF WriteFails(1), of cp_buf, symmetric] by (simp add: held_def)
next
  case (Eof j s i)
  then have "i < length (sessions s)" by (blast intro: copiers_wfD)
  then show ?case
    using mset_concat_remove [OF Eof(1), of cp_buf, symmetric] Eof by (simp add: held_def ssh_defs map_update_same)
next
  case (ClientClose i s)
  then show ?case by (simp add: held_def ssh_defs map_update_same)
qed (auto simp: held_def ssh_defs split: option.splits if_splits)

lemma run_loses: "ssh_run L s ls t \<Longrightarrow> copiers_wf s \<Longrightarrow> copiers_wf t \<and> held t \<subseteq># held s"
  by (induction rule: ssh_run.induct) (auto dest: step_keeps_wf step_loses intro: subset_mset.order_trans)

text \<open>
  However the goroutines interleave and whatever the clients do, no byte of the response is sent twice: what all
  sessions have received together is contained in the response, counting repetitions.
\<close>

theorem ssh_response_not_duplicated:
  assumes "ssh_run L (NewSSHRespondingServer p key cmd payload) ls s"
  shows "mset (concat (map sess_out (sessions s))) \<subseteq># mset payload"
proof -
  have "held s \<subseteq># mset payload"
    using run_loses [OF assms] by (simp add: held_def NewSSHRespondingServer_def copiers_wf_def)
  then show ?thesis unfolding held_def by (meson mset_subset_eq_add_left subset_mset.order_trans)
qed

section \<open>A single request\<close>

definition asked :: "label list \<Rightarrow> nat list" where
  "asked ls = concat (map (\<lambda>l. case l of Asked i \<Rightarrow> [i] | _ \<Rightarrow> []) ls)"

lemma asked_simps [simp]:
  "asked [] = []" "asked (ls @ [Internal]) = asked ls" "asked (ls @ [Hangup i]) = asked ls"
  "asked (ls @ [Asked i]) = asked ls @ [i]"
  by (simp_all add: asked_def)

text \<open>The copy that answers the only request: running, or finished.\<close>

definition copying :: "string \<Rightarrow> nat \<Rightarrow> ssh_server \<Rightarrow> bool" where
  "copying payload i s \<longleftrightarrow> i < length (sessions s) \<and>
     ((\<exists>b. copiers s = [\<lparr>cp_session = i, cp_buf = b\<rparr>] \<and> \<not> sess_closed (sessions s ! i)
          \<and> sess_out (sessions s ! i) @ b @ responseReader s = payload)
      \<or> (copiers s = [] \<and> sess_closed (sessions s ! i) \<and> sess_out (sessions s ! i) = payload))"

definition untouched :: "string \<Rightarrow> ssh_server \<Rightarrow> bool" where
  "untouched payload s \<longleftrightarrow> copiers s = [] \<and> responseReader s = payload \<and> (\<forall>x \<in> set (sessions s). sess_out x = [])"

lemma step_untouched:
  "ssh_step L s l t \<Longrightarrow> untouched payload s \<Longrightarrow>
   (case l of Asked i \<Rightarrow> copying payload i t | _ \<Rightarrow> untouched payload t)"
  by (induction rule: ssh_step.induct)
    (auto simp: untouched_def copying_def ssh_defs asks_def all_set_conv_all_nth nth_list_update nth_append less_Suc_eq
      split: option.splits prod.splits if_splits)

lemma step_copying:
  "ssh_step L s l t \<Longrightarrow> copying payload i s \<Longrightarrow> l \<noteq> Hangup i \<Longrightarrow> \<forall>j. l \<noteq> Asked j \<Longrightarrow> copying payload i t"
  by (induction rule: ssh_step.induct)
    (auto simp: copying_def ssh_defs asks_def nth_list_update nth_append split: option.splits prod.splits if_splits)

lemma run_asked:
  "ssh_run L s ls t \<Longrightarrow> untouched payload s \<Longrightarrow>
   (asked ls = [] \<longrightarrow> untouched payload t) \<and> (\<forall>i. asked ls = [i] \<and> Hangup i \<notin> set ls \<longrightarrow> copying payload i t)"
proof (induction rule: ssh_run.induct)
  case (run_step ls t l u)
  then show ?case
  proof (cases l)
    case (Asked j)
    then show ?thesis using run_step step_untouched [of L t l u payload] by auto
  next
    case Internal
    then show ?thesis using run_step step_untouched [of L t l u payload] step_copying [of L t l u payload] by auto
  next
    case (Hangup j)
    then show ?thesis using run_step step_untouched [of L t l u payload] step_copying [of L t l u payload] by auto
  qed
qed simp

lemma run_trans: "ssh_run L t ls' u \<Longrightarrow> ssh_run L s ls t \<Longrightarrow> ssh_run L s (ls @ ls') u"
  by (induction rule: ssh_run.induct) (auto intro: ssh_run.intros simp flip: append_assoc)

lemma run_cons: "ssh_step L s l t \<Longrightarrow> ssh_run L t ls u \<Longrightarrow> ssh_run L s (l # ls) u"
  using run_trans [of L t ls u s "[l]"] run_step [OF run_refl, of L s l t] by simp

definition copy_at :: "string \<Rightarrow> nat \<Rightarrow> string \<Rightarrow> string \<Rightarrow> ssh_server \<Rightarrow> bool" where
  "copy_at payload i b r s \<longleftrightarrow> i < length (sessions s) \<and> copiers s = [\<lparr>cp_session = i, cp_buf = b\<rparr>]
     \<and> \<not> sess_closed (sessions s ! i) \<and> responseReader s = r \<and> sess_out (sessions s ! i) @ b @ r = payload"

definition can_end :: "('key, 'conn) ssh_lib \<Rightarrow> string \<Rightarrow> nat \<Rightarrow> ssh_server \<Rightarrow> bool" where
  "can_end L payload i s \<longleftrightarrow> (\<exists>n t. ssh_run L s (replicate n Internal) t
     \<and> sess_closed (sessions t ! i) \<and> sess_out (sessions t ! i) = payload)"

lemma can_end_step: "ssh_step L s Internal t \<Longrightarrow> can_end L payload i t \<Longrightarrow> can_end L payload i s"
  unfolding can_end_def by (metis run_cons replicate_Suc)

lemma can_end_closed: "sess_closed (sessions s ! i) \<Longrightarrow> sess_out (sessions s ! i) = payload \<Longrightarrow> can_end L payload i s"
  unfolding can_end_def by (metis run_refl replicate_0)

lemma can_end_eof: "copy_at payload i [] [] s \<Longrightarrow> can_end L payload i s"
  by (rule can_end_step [OF Eof [of 0]]) (auto simp: copy_at_def close_session_def intro: can_end_closed)

lemma can_end_write:
  assumes "copy_at payload i b r s" and "b \<noteq> []" and "\<And>t. copy_at payload i [] r t \<Longrightarrow> can_end L payload i t"
  shows "can_end L payload i s"
  by (rule can_end_step [OF Write [of 0 _ i b]]; (rule assms(3))?) (use assms(1,2) in \<open>auto simp: copy_at_def\<close>)

lemma can_end_read:
  assumes "copy_at payload i [] r s" and "r \<noteq> []" and "\<And>t. copy_at payload i r [] t \<Longrightarrow> can_end L payload i t"
  shows "can_end L payload i s"
  by (rule can_end_step [OF Read [of 0 _ "length r"]]; (rule assms(3))?) (use assms(1,2) in \<open>auto simp: copy_at_def\<close>)

text \<open>A running copy can write what it holds, read what is left, write that and close the session.\<close>

lemma copying_can_end:
  assumes "copying payload i s"
  shows "can_end L payload i s"
proof (cases "copiers s = []")
  case True
  then show ?thesis using assms by (auto simp: copying_def intro: can_end_closed)
next
  case False
  then obtain b r where c: "copy_at payload i b r s" using assms by (auto simp: copying_def copy_at_def)
  have idle: "can_end L payload i t" if "copy_at payload i [] r t" for r t
  proof (cases "r = []")
    case True
    then show ?thesis using that by (simp add: can_end_eof)
  next
    case False
    show ?thesis by (rule can_end_read [OF that False], rule can_end_write [OF _ False can_end_eof])
  qed
  show ?thesis
  proof (cases "b = []")
    case True
    then show ?thesis using c idle by simp
  next
    case False
    show ?thesis by (rule can_end_write [OF c False idle])
  qed
qed


text \<open>A client that asks once, on the first session of the first connection.\<close>

definition demo_ssh :: "(string, unit) ssh_lib" where
  "demo_ssh = \<lparr>ParsePrivateKey = Inr, net_Listen = (\<lambda>_. None), NewServerConn = (\<lambda>_ _. None), ssh_Unmarshal = (\<lambda>b. (b, None))\<rparr>"

lemma demo_ssh_run:
  "ssh_run demo_ssh (NewSSHRespondingServer 22 [] ''dump'' ''data'') [Internal, Internal, Internal, Asked 0]
     ((NewSSHRespondingServer 22 [] ''dump'' ''data'')\<lparr>phase := Serving,
        sessions := [\<lparr>sess_out = [], sess_replies = [True], sess_closed = False\<rparr>],
        copiers := [\<lparr>cp_session = 0, cp_buf = []\<rparr>]\<rparr>)"
proof -
  let ?s = "NewSSHRespondingServer 22 [] ''dump'' ''data''"
  let ?c = "?s\<lparr>phase := Serving, sessions := [\<lparr>sess_out = [], sess_replies = [], sess_closed = False\<rparr>]\<rparr>"
  let ?d = "?s\<lparr>phase := Serving, sessions := [\<lparr>sess_out = [], sess_replies = [True], sess_closed = False\<rparr>],
        copiers := [\<lparr>cp_session = 0, cp_buf = []\<rparr>]\<rparr>"
  have "ssh_step demo_ssh ?s Internal (?s\<lparr>phase := Selecting\<rparr>)"
    using StartAsync [of ?s demo_ssh] by (simp add: NewSSHRespondingServer_def run_prologue_def demo_ssh_def)
  moreover have "ssh_step demo_ssh (?s\<lparr>phase := Selecting\<rparr>) Internal (?s\<lparr>phase := Serving\<rparr>)"
    using TakeConn [of "?s\<lparr>phase := Selecting\<rparr>" demo_ssh "Some ()"] by (simp add: accepted_def demo_ssh_def)
  moreover have "ssh_step demo_ssh (?s\<lparr>phase := Serving\<rparr>) Internal ?c"
    using Channel [of "?s\<lparr>phase := Serving\<rparr>" demo_ssh "''session''" True]
    by (simp add: handleChannel_def NewSSHRespondingServer_def)
  moreover have "ssh_step demo_ssh ?c (Asked 0) ?d"
    using Req [of 0 ?c demo_ssh "Request ''exec'' ''dump''"]
    by (simp add: handleRequest_def reply_def asks_def demo_ssh_def NewSSHRespondingServer_def)
  ultimately show ?thesis by (blast intro: run_cons run_refl)
qed


end
