(* ===== verification/Logging.thy ===== *)
theory Logging
  imports Deeb_Prelude
begin

text \<open>
  Logging: \<open>internal/lib/logger_adapter.go\<close>, which gives the Raft library and gRPC a logger of theirs, and
  \<open>internal/lib/utils.go\<close>. Operands are strings, slices, or other values with their \<open>%v\<close> text. The logger of zap appends
  a line; \<open>Fatal\<close> then ends the process and \<open>Panic\<close> panics with the message.
\<close>

section \<open>Formatting\<close>

datatype arg = AStr string | AOther string | ASlice "arg list"

fun spaced :: "string list \<Rightarrow> string" where
  "spaced [] = []"
| "spaced [x] = x"
| "spaced (x # xs) = x @ '' '' @ spaced xs"

fun fmt_v :: "arg \<Rightarrow> string" where
  "fmt_v (AStr s) = s"
| "fmt_v (AOther s) = s"
| "fmt_v (ASlice vs) = ''['' @ spaced (map fmt_v vs) @ '']''"

fun is_string :: "arg \<Rightarrow> bool" where
  "is_string (AStr _) = True"
| "is_string _ = False"

text \<open>\<open>fmt.Sprint\<close> puts a space between operands when neither is a string, \<open>fmt.Sprintln\<close> always.\<close>

fun Sprint :: "arg list \<Rightarrow> string" where
  "Sprint [] = []"
| "Sprint [a] = fmt_v a"
| "Sprint (a # b # as) = fmt_v a @ (if is_string a \<or> is_string b then [] else '' '') @ Sprint (b # as)"

definition Sprintln :: "arg list \<Rightarrow> string" where
  "Sprintln as = spaced (map fmt_v as) @ [CHR 0x0A]"

section \<open>The zap logger\<close>

datatype level = DebugLevel | InfoLevel | WarnLevel | ErrorLevel | PanicLevel | FatalLevel

datatype outcome = Continues | Exits | Panics string

record logger =
  log_lines :: "(level \<times> string) list"
  caller_skip :: nat

definition write_log :: "level \<Rightarrow> string \<Rightarrow> logger \<Rightarrow> outcome \<times> logger" where
  "write_log lvl msg l = (case lvl of FatalLevel \<Rightarrow> Exits | PanicLevel \<Rightarrow> Panics msg | _ \<Rightarrow> Continues,
     l\<lparr>log_lines := log_lines l @ [(lvl, msg)]\<rparr>)"

definition zap_log :: "level \<Rightarrow> arg list \<Rightarrow> logger \<Rightarrow> outcome \<times> logger" where
  "zap_log lvl as = write_log lvl (Sprint as)"

definition zap_logf :: "(string \<Rightarrow> arg list \<Rightarrow> string) \<Rightarrow> level \<Rightarrow> string \<Rightarrow> arg list \<Rightarrow> logger \<Rightarrow> outcome \<times> logger" where
  "zap_logf Sprintf lvl format as = write_log lvl (Sprintf format as)"

section \<open>The adapter\<close>

text \<open>\<open>NewDevelopmentLogger\<close> panics with the error of zap.\<close>

definition NewDevelopmentLogger :: "goerr + logger \<Rightarrow> logger res" where
  "NewDevelopmentLogger r = (case r of Inl e \<Rightarrow> Panic e | Inr l \<Rightarrow> Ok l)"

definition NewLoggerAdapter :: "logger \<Rightarrow> logger" where
  "NewLoggerAdapter l = l\<lparr>caller_skip := caller_skip l + 1\<rparr>"

text \<open>\<open>la.logger.Debug(args)\<close> passes the slice of the operands as one operand, \<open>la.logger.Warn(args...)\<close> the operands.\<close>

definition la_Debug :: "arg list \<Rightarrow> logger \<Rightarrow> outcome \<times> logger" where
  "la_Debug args = zap_log DebugLevel [ASlice args]"

definition la_Debugf :: "(string \<Rightarrow> arg list \<Rightarrow> string) \<Rightarrow> string \<Rightarrow> arg list \<Rightarrow> logger \<Rightarrow> outcome \<times> logger" where
  "la_Debugf F = zap_logf F DebugLevel"

definition la_Info :: "arg list \<Rightarrow> logger \<Rightarrow> outcome \<times> logger" where
  "la_Info args = zap_log InfoLevel [ASlice args]"

definition la_Infoln :: "arg list \<Rightarrow> logger \<Rightarrow> outcome \<times> logger" where
  "la_Infoln args = zap_log InfoLevel [ASlice args]"

definition la_Infof :: "(string \<Rightarrow> arg list \<Rightarrow> string) \<Rightarrow> string \<Rightarrow> arg list \<Rightarrow> logger \<Rightarrow> outcome \<times> logger" where
  "la_Infof F = zap_logf F InfoLevel"

definition la_Warning :: "arg list \<Rightarrow> logger \<Rightarrow> outcome \<times> logger" where
  "la_Warning = zap_log WarnLevel"

definition la_Warningln :: "arg list \<Rightarrow> logger \<Rightarrow> outcome \<times> logger" where
  "la_Warningln = zap_log WarnLevel"

definition la_Warningf :: "(string \<Rightarrow> arg list \<Rightarrow> string) \<Rightarrow> string \<Rightarrow> arg list \<Rightarrow> logger \<Rightarrow> outcome \<times> logger" where
  "la_Warningf F = zap_logf F WarnLevel"

definition la_Error :: "arg list \<Rightarrow> logger \<Rightarrow> outcome \<times> logger" where
  "la_Error = zap_log ErrorLevel"

definition la_Errorln :: "arg list \<Rightarrow> logger \<Rightarrow> outcome \<times> logger" where
  "la_Errorln = zap_log ErrorLevel"

definition la_Errorf :: "(string \<Rightarrow> arg list \<Rightarrow> string) \<Rightarrow> string \<Rightarrow> arg list \<Rightarrow> logger \<Rightarrow> outcome \<times> logger" where
  "la_Errorf F = zap_logf F ErrorLevel"

definition la_Fatal :: "arg list \<Rightarrow> logger \<Rightarrow> outcome \<times> logger" where
  "la_Fatal = zap_log FatalLevel"

definition la_Fatalln :: "arg list \<Rightarrow> logger \<Rightarrow> outcome \<times> logger" where
  "la_Fatalln = zap_log FatalLevel"

definition la_Fatalf :: "(string \<Rightarrow> arg list \<Rightarrow> string) \<Rightarrow> string \<Rightarrow> arg list \<Rightarrow> logger \<Rightarrow> outcome \<times> logger" where
  "la_Fatalf F = zap_logf F FatalLevel"

definition la_V :: "int \<Rightarrow> bool" where
  "la_V l = True"

definition la_Panic :: "arg list \<Rightarrow> logger \<Rightarrow> outcome \<times> logger" where
  "la_Panic = zap_log PanicLevel"

definition la_Panicf :: "(string \<Rightarrow> arg list \<Rightarrow> string) \<Rightarrow> string \<Rightarrow> arg list \<Rightarrow> logger \<Rightarrow> outcome \<times> logger" where
  "la_Panicf F = zap_logf F PanicLevel"

lemmas la_defs = la_Debug_def la_Debugf_def la_Info_def la_Infoln_def la_Infof_def la_Warning_def la_Warningln_def
  la_Warningf_def la_Error_def la_Errorln_def la_Errorf_def la_Fatal_def la_Fatalln_def la_Fatalf_def la_Panic_def
  la_Panicf_def zap_log_def zap_logf_def write_log_def

section \<open>What is logged\<close>

lemma spaced_Cons: "as \<noteq> [] \<Longrightarrow> spaced (x # as) = x @ '' '' @ spaced as"
  by (cases as) simp_all

lemma Sprint_length: "length (Sprint as) \<le> length (spaced (map fmt_v as))"
  by (induction as rule: Sprint.induct) (auto simp: spaced_Cons)

lemma Sprint_spaced: "\<forall>a \<in> set as. \<not> is_string a \<Longrightarrow> Sprint as = spaced (map fmt_v as)"
  by (induction as rule: Sprint.induct) (auto simp: spaced_Cons)

text \<open>
  The adapter's messages: \<open>Warning\<close>, \<open>Error\<close>, \<open>Fatal\<close> and \<open>Panic\<close> log their operands in the manner of \<open>fmt.Print\<close>, as
  documented, but \<open>Fatal\<close> and \<open>Panic\<close> at levels of their own and not to return; \<open>Debug\<close> and \<open>Info\<close> never log them so:
  the line is the operands with brackets around them and a space between any two. The \<open>ln\<close> variants never log
  what \<open>fmt.Println\<close> prints.
\<close>

theorem logger_adapter_messages:
  "la_Warning args l = (Continues, l\<lparr>log_lines := log_lines l @ [(WarnLevel, Sprint args)]\<rparr>)
   \<and> la_Error args l = (Continues, l\<lparr>log_lines := log_lines l @ [(ErrorLevel, Sprint args)]\<rparr>)
   \<and> la_Fatal args l = (Exits, l\<lparr>log_lines := log_lines l @ [(FatalLevel, Sprint args)]\<rparr>)
   \<and> la_Panic args l = (Panics (Sprint args), l\<lparr>log_lines := log_lines l @ [(PanicLevel, Sprint args)]\<rparr>)
   \<and> (\<exists>m. la_Debug args l = (Continues, l\<lparr>log_lines := log_lines l @ [(DebugLevel, m)]\<rparr>)
       \<and> la_Info args l = (Continues, l\<lparr>log_lines := log_lines l @ [(InfoLevel, m)]\<rparr>)
       \<and> m = ''['' @ spaced (map fmt_v args) @ '']'' \<and> m \<noteq> Sprint args)
   \<and> log_lines (snd (la_Infoln args l)) \<noteq> log_lines l @ [(InfoLevel, Sprintln args)]
   \<and> log_lines (snd (la_Warningln args l)) \<noteq> log_lines l @ [(WarnLevel, Sprintln args)]"
proof -
  let ?m = "''['' @ spaced (map fmt_v args) @ '']''"
  have "length (Sprint args) < length ?m" using Sprint_length [of args] by simp
  then have "?m \<noteq> Sprint args" by (metis less_irrefl)
  moreover have "Sprint args \<noteq> Sprintln args"
    using Sprint_length [of args] by (metis Sprintln_def length_append_singleton not_less_eq_eq order_refl)
  moreover have "?m \<noteq> Sprintln args"
    by (auto simp: Sprintln_def dest: arg_cong [where f = last])
  ultimately show ?thesis by (auto simp: la_defs)
qed

end
