(* ===== verification/Certificates.thy ===== *)
theory Certificates
  imports Raft_Types
begin

text \<open>
  Certificates: \<open>internal/insecure/create_cert.go\<close> (a self-signed certificate for a server's own key) and the
  initialisation of \<open>internal/insecure/insecure.go\<close>. Parsing, the random source and X.509 are parameters.
\<close>

section \<open>Keys and templates\<close>

text \<open>The dynamic types the type switch of \<open>publicKey\<close> distinguishes, with the public half where it has one.\<close>

datatype 'pub private_key = RSAKey 'pub | ECDSAKey 'pub | Ed25519Key 'pub | OtherKey

datatype key_usage = DigitalSignature | KeyEncipherment | CertSign
datatype ext_key_usage = ServerAuth

text \<open>Times are nanoseconds.\<close>

record cert_template =
  SerialNumber :: nat
  KeyUsage :: "key_usage list"
  ExtKeyUsage :: "ext_key_usage list"
  BasicConstraintsValid :: bool
  IsCA :: bool
  NotBefore :: int
  NotAfter :: int
  DNSNames :: "string list"

record 'pub tls_certificate =
  tc_Certificate :: "bytes list"
  tc_PrivateKey :: "'pub private_key"

record 'pub cert_lib =
  rand_Int :: "nat \<Rightarrow> goerr + nat"
  ParseRawPrivateKey :: "bytes \<Rightarrow> goerr + 'pub private_key"
  CreateCertificate :: "cert_template \<Rightarrow> cert_template \<Rightarrow> 'pub option \<Rightarrow> 'pub private_key \<Rightarrow> goerr + bytes"

section \<open>Creating a certificate\<close>

fun publicKey :: "'pub private_key \<Rightarrow> 'pub option" where
  "publicKey (RSAKey p) = Some p"
| "publicKey (ECDSAKey p) = Some p"
| "publicKey (Ed25519Key p) = Some p"
| "publicKey OtherKey = None"

definition hour :: int where
  "hour = 3600 * 10 ^ 9"

text \<open>\<open>time.Now()\<close> is called twice, at \<open>t1\<close> and then at \<open>t2\<close>.\<close>

definition cert_template_for :: "int \<Rightarrow> int \<Rightarrow> nat \<Rightarrow> string \<Rightarrow> cert_template" where
  "cert_template_for t1 t2 serial serverName = \<lparr>SerialNumber = serial,
     KeyUsage = [DigitalSignature, KeyEncipherment, CertSign], ExtKeyUsage = [ServerAuth],
     BasicConstraintsValid = True, IsCA = True, NotBefore = t1, NotAfter = t2 + 5 * 365 * 24 * hour,
     DNSNames = [serverName]\<rparr>"

definition CreateSelfSignedCertificate ::
  "'pub cert_lib \<Rightarrow> int \<Rightarrow> int \<Rightarrow> bytes \<Rightarrow> string \<Rightarrow> goerr + 'pub tls_certificate" where
  "CreateSelfSignedCertificate L t1 t2 privateKey serverName =
     (case rand_Int L (push_bit 128 1) of
        Inl e \<Rightarrow> Inl (EWrap e ''generating serial number'')
      | Inr serial \<Rightarrow> (case ParseRawPrivateKey L privateKey of
          Inl e \<Rightarrow> Inl (EWrap e ''parsing private key'')
        | Inr parsedKey \<Rightarrow>
            (let template = cert_template_for t1 t2 serial serverName in
             case CreateCertificate L template template (publicKey parsedKey) parsedKey of
               Inl e \<Rightarrow> Inl (EWrap e ''creating certificate'')
             | Inr der \<Rightarrow> Inr \<lparr>tc_Certificate = [der], tc_PrivateKey = parsedKey\<rparr>)))"

text \<open>
  \<open>init\<close> of the package: the embedded key pair is parsed and the certificate put into a pool; \<open>None\<close> is
  \<open>log.Fatalln\<close>, which ends the process.
\<close>

definition insecure_init ::
  "(bytes \<Rightarrow> bytes \<Rightarrow> goerr + bytes list) \<Rightarrow> (bytes \<Rightarrow> goerr + 'x509) \<Rightarrow> bytes \<Rightarrow> bytes \<Rightarrow> (bytes list \<times> 'x509 \<times> 'x509 list) option" where
  "insecure_init X509KeyPair ParseCertificate certPEM keyPEM = (case X509KeyPair certPEM keyPEM of
      Inl e \<Rightarrow> None
    | Inr chain \<Rightarrow> (case ParseCertificate (hd chain) of Inl e \<Rightarrow> None | Inr leaf \<Rightarrow> Some (chain, leaf, [leaf])))"

section \<open>What a created certificate says\<close>

lemma hour_duration: "5 * 365 * 24 * hour < 2 ^ 63"
  by (simp add: hour_def)

text \<open>
  A certificate is created exactly if the random source, the parser and X.509 succeed, and then it is one certificate
  for the parsed key, signed by that key itself (template and parent are the same), for the server's name only, with a
  serial number below \<open>2 ^ 128\<close> if the random source keeps its bound, and valid for at least five years of 365 days from the
  time of the call on; a duration of that length does not overflow. A key of a type the switch does not know is
  signed with no public key.
\<close>

theorem self_signed_certificate:
  assumes "\<And>n k. rand_Int L n = Inr k \<Longrightarrow> k < n" and "t1 \<le> t2"
  shows "CreateSelfSignedCertificate L t1 t2 privateKey serverName = Inr cert \<longleftrightarrow>
    (\<exists>serial key tmpl der. rand_Int L (2 ^ 128) = Inr serial \<and> serial < 2 ^ 128
      \<and> ParseRawPrivateKey L privateKey = Inr key \<and> (publicKey key = None \<longleftrightarrow> key = OtherKey)
      \<and> tmpl = cert_template_for t1 t2 serial serverName \<and> SerialNumber tmpl = serial \<and> DNSNames tmpl = [serverName]
      \<and> t1 + 157680000 * 10 ^ 9 \<le> NotAfter tmpl \<and> NotBefore tmpl = t1
      \<and> CreateCertificate L tmpl tmpl (publicKey key) key = Inr der
      \<and> cert = \<lparr>tc_Certificate = [der], tc_PrivateKey = key\<rparr>)"
proof -
  have pk: "publicKey k = None \<longleftrightarrow> k = OtherKey" for k :: "'a private_key" by (cases k) simp_all
  have fields: "SerialNumber (cert_template_for t1 t2 n serverName) = n"
    "DNSNames (cert_template_for t1 t2 n serverName) = [serverName]"
    "t1 + 157680000000000000 \<le> NotAfter (cert_template_for t1 t2 n serverName)"
    "NotBefore (cert_template_for t1 t2 n serverName) = t1" for n
    using assms(2) by (simp_all add: cert_template_for_def hour_def)
  have two: "push_bit 128 (1 :: nat) = 2 ^ 128" by (simp add: push_bit_eq_mult)
  show ?thesis unfolding CreateSelfSignedCertificate_def Let_def two
    using assms(1) by (auto simp: pk fields split: sum.splits)
qed

end
