(* ===== verification/Db_Storage.thy ===== *)
theory Db_Storage
  imports Raft_Types
begin

text \<open>
  \<open>internal/storage/storage.go\<close>: a Raft storage that no other package uses. It keeps a backend and calls none of its
  operations.
\<close>

section \<open>Operations\<close>

record 'b dbstorage =
  ds_backend :: 'b

definition NewDBStorage :: "'b \<Rightarrow> 'b dbstorage" where
  "NewDBStorage b = \<lparr>ds_backend = b\<rparr>"

definition ds_InitialState :: "('b dbstorage, hard_state \<times> conf_state) op" where
  "ds_InitialState = op_ret (zero_hard_state, zero_conf_state)"

definition ds_SetHardState :: "hard_state \<Rightarrow> ('b dbstorage, unit) op" where
  "ds_SetHardState st = op_ret ()"

definition ds_Entries :: "u64 \<Rightarrow> u64 \<Rightarrow> u64 \<Rightarrow> ('b dbstorage, entry list) op" where
  "ds_Entries lo hi maxSize = op_ret []"

definition ds_Term :: "u64 \<Rightarrow> ('b dbstorage, u64) op" where
  "ds_Term i = op_ret 0"

definition ds_LastIndex :: "('b dbstorage, u64) op" where
  "ds_LastIndex = op_ret 0"

definition ds_FirstIndex :: "('b dbstorage, u64) op" where
  "ds_FirstIndex = op_ret 0"

definition ds_Snapshot :: "('b dbstorage, snapshot) op" where
  "ds_Snapshot = op_ret zero_snapshot"

definition ds_ApplySnapshot :: "snapshot \<Rightarrow> ('b dbstorage, unit) op" where
  "ds_ApplySnapshot snap = op_ret ()"

definition ds_CreateSnapshot :: "u64 \<Rightarrow> conf_state option \<Rightarrow> bytes \<Rightarrow> ('b dbstorage, snapshot) op" where
  "ds_CreateSnapshot i cs data = op_ret zero_snapshot"

definition ds_Append :: "entry list \<Rightarrow> ('b dbstorage, unit) op" where
  "ds_Append entries = op_ret ()"

section \<open>It is no log\<close>

text \<open>
  The storage does not keep the contract of a Raft storage: whatever abstract log is read into its state, appending
  entries to an empty log and reading them back returns none of them, with no error.
\<close>

theorem dbstorage_is_no_log:
  assumes "es \<noteq> []" and "Index (last es) \<noteq> 0"
  shows "\<not> (\<exists>abs :: 'b dbstorage \<Rightarrow> entry list.
    (\<forall>s. abs (snd (ds_Append es s)) = log_append (abs s) es)
    \<and> (\<forall>s. abs s \<noteq> [] \<longrightarrow> fst (ds_LastIndex s) = Ok (Index (last (abs s)))))"
proof
  assume "\<exists>abs :: 'b dbstorage \<Rightarrow> entry list. (\<forall>s. abs (snd (ds_Append es s)) = log_append (abs s) es)
    \<and> (\<forall>s. abs s \<noteq> [] \<longrightarrow> fst (ds_LastIndex s) = Ok (Index (last (abs s))))"
  then obtain abs :: "'b dbstorage \<Rightarrow> entry list" where abs: "\<And>s. abs s = log_append (abs s) es"
    "\<And>s. abs s \<noteq> [] \<Longrightarrow> fst (ds_LastIndex s) = Ok (Index (last (abs s)))"
    unfolding ds_Append_def op_ret_def snd_conv by metis
  define s where "s = NewDBStorage (undefined :: 'b)"
  obtain e es' where es: "es = e # es'" using assms(1) by (cases es) simp_all
  have "\<exists>us. abs s = us @ es" using abs(1) [of s] unfolding log_append_def es list.case by (rule exI)
  then have "abs s \<noteq> []" "last (abs s) = last es" using assms(1) by auto
  then show False using abs(2) [of s] assms(2) by (simp add: ds_LastIndex_def op_ret_def)
qed

end
