(* ===== verification/Spec2Isabelle.thy ===== *)
theory Spec2Isabelle
  imports Sqlite_Storage Mysql_Storage Write_Handover Cluster Bootstrap Server Controller Kube_Helper
    Ssh_Server Logging Certificates Db_Storage
begin

text \<open>
  Deeb: a replicated SQL database. Each process keeps a SQLite or MySQL database and a Raft log in it, the
  etcd Raft library decides the order of the writes, and every node executes the committed ones.

  \<^bold>\<open>The parts and their theories.\<close> Paths are relative to \<open>src/internal\<close> unless they start with \<open>cmd\<close>.

  \<^item> \<open>Deeb_Prelude\<close>: Go results (value, error, panic), the error values, state passing (\<open>op\<close>), the
    fault schedule (\<open>faults\<close>: any call of the environment can fail before or after its effect), and the rules
    \<open>keeps_intros\<close> and \<open>leaves_intros\<close> that carry preservation proofs through an operation. \<open>Raft_Types\<close>: entries,
    states, snapshots and messages of \<open>raftpb\<close>, and the specification of the log (\<open>contig\<close>, \<open>log_append\<close>,
    \<open>log_retain\<close>). \<open>Sql_Tables\<close>: the three tables and the embedded statements.

  \<^item> \<open>Backend_Interface\<close> (\<open>backend/interface.go\<close>): \<open>DBBackend\<close> as a record of operations, and the contracts as
    locales: \<open>entry_appender\<close> and \<open>entry_store\<close> (storing one entry, from which the whole append follows),
    \<open>sql_backend\<close> (executing committed statements) and, extending it, \<open>snapshot_backend\<close> (a snapshot carries the data
    of the backend that took it). Both backends interpret all four.

  \<^item> \<open>Sqlite_Backend\<close>, \<open>Sqlite_Storage\<close> (\<open>backend/sqlite\<close>) and \<open>Mysql_Backend\<close>, \<open>Mysql_Snapshot\<close>, \<open>Mysql_Storage\<close>
    (\<open>backend/mysql\<close>, \<open>lib/ssh.go\<close>), with \<open>Log_Reads\<close> for the reading loop they share. The object is a record
    over the tables; its database handles are nil, open or closed. Shown: a started backend refines the abstract log,
    the log stays consecutive whatever fails, appended entries are read back, retention, the round trips of the
    Raft state, of peers and of snapshots, and for MySQL the order of the steps of a snapshot, the bounds of
    the waits and what ends the endless ones.

  \<^item> \<open>Channel_Pool\<close> (\<open>lib/channelpool.go\<close>) and \<open>Write_Handover\<close> (the rendezvous between \<open>WriteQuery\<close> and the main
    loop, as an interleaving step relation): no caller misses its result, a result can be delivered while its
    caller waits, and the main loop blocks for ever when a caller gives up at the wrong moment.

  \<^item> \<open>Transport\<close> (\<open>transport\<close>): destinations, the peer map, the gRPC client, and the in-process network, in which a message
    is shown to reach the callback its destination registered.

  \<^item> \<open>Node\<close> (\<open>node/node.go\<close>, \<open>node/conf_change.go\<close>): every function, the Raft library and the codecs as parameters.
    \<open>Node_Apply\<close>: for any backend that keeps the contract, the main loop is the replicated state machine \<open>sm_run\<close>.
    \<open>Node_Control\<close>: releasing callers, retries, start, membership, snapshots, failures. \<open>Node_Recovery\<close>: a
    process that ends and comes back: \<open>Restart\<close> executes every committed write exactly once, \<open>Start\<close> and a crash between
    executing and recording do not. \<open>Node_Write\<close>: a write from its call to its own answer. \<open>Node_Snapshot\<close>: a
    node that installs a snapshot and goes on with the entries behind it holds what executing the whole log gives, for
    MySQL (this theory) also when the data streamed is newer than the snapshot's index.

  \<^item> \<open>Cluster\<close>: any number of nodes, over any backend that keeps the contract (the theorem is
    stated for SQLite), serving requests, Raft messages, snapshots of each other's backends and committed entries in
    any order; any two of them hold the state of initial parts of one log, and the one behind reaches the other by the
    entries it is behind. A statement that fails has to leave the data alone: it does not move the applied index, so
    behind a snapshot it can be executed again.

  \<^item> \<open>Bootstrap\<close> (\<open>bootstrap\<close>, and \<open>parsePeers\<close> of \<open>cmd/controller/main.go\<close>): node IDs and peers. \<open>Controller\<close>
    (\<open>cmd/controller/main.go\<close>): the flags, what is assembled from them, and how the process
    ends on a signal.

  \<^item> \<open>Server\<close> (\<open>server\<close>): the Raft and control services, conversion of query results and its types, the life cycle
    and the routes of the HTTP server.

  \<^item> Support: \<open>Kube_Helper\<close> (\<open>lib/kubehelper.go\<close>, \<open>lib/port_forward.go\<close>), \<open>Ssh_Server\<close> (\<open>SSHRespondingServer\<close> of \<open>lib/ssh.go\<close>,
    its goroutines as a step relation), \<open>Logging\<close> (\<open>lib/logger_adapter.go\<close>, \<open>lib/utils.go\<close>), \<open>Certificates\<close> (\<open>insecure\<close>),
    \<open>Db_Storage\<close> (\<open>storage/storage.go\<close>).

  \<^item> This theory: what spans components, the interchangeability of the backends, the agreement of replicas on
    different backends and catching up over MySQL.

  \<^bold>\<open>Correspondence.\<close> A Go object is a record, a method an operation of type \<open>op\<close> on it (state to result and
  state) with the method's name, prefixed where two objects share one. A formatted error message is represented by
  its format string; logging is left out. Deferred calls are written where they run. Concurrency is explicit where the
  code depends on it: the hand-over is a step relation, and a health check takes the order of the answers as an
  argument. Elsewhere a mutex makes the operation one step.

  \<^bold>\<open>Bounds and loops.\<close> Loops over data and loops with a number of attempts are structural recursions, so that their
  termination is part of their definition; the bound is the code's own (10 attempts to start a backend, 3 to
  find an ID, 30, 60 and 360 seconds of waiting). The two loops without a bound, \<open>FirstIndex\<close> and \<open>LastIndex\<close> of MySQL, are
  \<open>partial_function\<close>s: not returning is \<open>None\<close>, and when they return is a theorem. The main loop runs over a
  finite sequence of events, any prefix of what a process sees. No fuel is used.

  \<^bold>\<open>Parameters.\<close> The Raft library, the marshallers, the SQL engines on the application's statements, the archive
  format, the MySQL pod (what its shell commands do) and the generated gRPC stubs are arguments. What a theorem needs of
  them is a hypothesis of it, met in its witness by a concrete instance.

  \<^bold>\<open>Not modelled.\<close> Generated code (\<open>api\<close>, \<open>transport/mock_client.go\<close>), embedded data (\<open>statik\<close>, the key pair of \<open>insecure\<close>, the
  Kubernetes descriptions of the tests), the order in which fx calls the constructors of the controller command,
  and the internals of the Raft library, in particular elections and the safety of the log
  across nodes: agreement is shown from the committed entries on.
\<close>

section \<open>The two backends\<close>

lemma int32_small: "int32 v \<Longrightarrow> small v"
  by (simp add: int32_def small_def)

lemma my_storable_storable: "my_storable e \<Longrightarrow> storable e"
  by (simp add: my_storable_def storable_def int32_small)

lemma my_storable_all: "list_all my_storable es \<Longrightarrow> list_all storable es"
  by (auto simp: list_all_iff my_storable_storable)

text \<open>
  C10. The two backends are interchangeable for the Raft library: a started SQLite backend and a started
  MySQL backend that hold the same log answer \<open>Entries\<close>, \<open>Term\<close>, \<open>FirstIndex\<close> and \<open>LastIndex\<close> alike, errors
  included, for indices below \<open>2 ^ 63\<close>; and when they retain as many entries, they hold the same
  log again after either accepted the same entries, if these fit MySQL's columns.
\<close>

theorem backends_agree:
  assumes "sq_ready s" and "my_ready X m" and "entries_tbl s = Some t" and "entries_tbl m = Some t"
    and "small lo" and "small hi" and "mx = maxUint64 \<or> small mx"
  shows "fst (mysql_Entries X lo hi mx m) = fst (sqlite_Entries lo hi mx s)
    \<and> (lo \<noteq> 0 \<longrightarrow> map_option fst (mysql_Term X lo m) = Some (fst (sqlite_Term lo s)))
    \<and> map_option fst (mysql_FirstIndex X m) = Some (fst (sqlite_FirstIndex s))
    \<and> map_option fst (mysql_LastIndex X m) = Some (fst (sqlite_LastIndex s))
    \<and> (contig t \<and> fits_log t es \<and> es \<noteq> [] \<and> list_all my_storable es \<and> small (entriesToRetain s)
        \<and> my_entriesToRetain m = entriesToRetain s \<longrightarrow>
       fst (sqlite_AppendEntries es s) = Ok () \<and> fst (mysql_AppendEntries X es m) = Ok ()
       \<and> entries_tbl (snd (mysql_AppendEntries X es m)) = entries_tbl (snd (sqlite_AppendEntries es s)))"
proof (intro conjI impI)
  show "fst (mysql_Entries X lo hi mx m) = fst (sqlite_Entries lo hi mx s)"
    unfolding my_ready_Entries [OF assms(2,4)] ready_select_range [OF assms(1,3,5-7)]
    by (simp add: Let_def split: prod.split)
  assume a: "contig t \<and> fits_log t es \<and> es \<noteq> [] \<and> list_all my_storable es \<and> small (entriesToRetain s)
        \<and> my_entriesToRetain m = entriesToRetain s"
  then have s: "sqlite_AppendEntries es s = (Ok (),
      s\<lparr>entries_tbl := Some (log_retain (entriesToRetain s) (Index (last es)) (log_append t es))\<rparr>)"
    using assms(1,3) by (intro sqlite_AppendEntries_eq my_storable_all) simp_all
  have m: "mysql_AppendEntries X es m = (Ok (),
      m\<lparr>entries_tbl := Some (log_retain (my_entriesToRetain m) (Index (last es)) (log_append t es))\<rparr>)"
    using a assms(2,4) by (intro mysql_AppendEntries_eq) (simp_all add: small_def)
  show "fst (sqlite_AppendEntries es s) = Ok ()" "fst (mysql_AppendEntries X es m) = Ok ()"
    "entries_tbl (snd (mysql_AppendEntries X es m)) = entries_tbl (snd (sqlite_AppendEntries es s))"
    using s m a by simp_all
qed (simp_all add: ready_bounds [OF assms(1,3)] my_ready_bounds [OF assms(2,4)]
    ready_Term [OF assms(1,3,5)] my_ready_Term [OF assms(2,4)])

lemma backends_agree_witness:
  "let t = [demo_entry 1 4 ''a'', demo_entry 1 5 ''b'']; s = demo_sqlite 2 t []; m = demo_mysql 2 t [] True;
       es = [demo_entry 2 5 ''c'', demo_entry 2 6 ''d''] in
   fst (mysql_Entries demo_my 4 6 maxUint64 m) = fst (sqlite_Entries 4 6 maxUint64 s)
   \<and> entries_tbl (snd (mysql_AppendEntries demo_my es m)) = entries_tbl (snd (sqlite_AppendEntries es s))"
proof -
  let ?t = "[demo_entry 1 4 ''a'', demo_entry 1 5 ''b'']"
  let ?es = "[demo_entry 2 5 ''c'', demo_entry 2 6 ''d'']"
  have "sq_ready (demo_sqlite 2 ?t [])" "my_ready demo_my (demo_mysql 2 ?t [] True)"
    by (simp_all add: demo_sqlite_ready demo_my_ready demo_entry_def)
  from backends_agree [OF this, of ?t 4 6 maxUint64 ?es] show ?thesis
    by (simp add: demo_entry_def fits_log_def my_storable_def int32_def blob_max_def small_def Let_def
        del: One_nat_def)
qed

section \<open>The replicated state machine over both backends\<close>

lemma mysql_main_loop:
  fixes s :: "(('u, 'p) mysql, 'r, grpc_client) node"
  assumes "my_ready X (backend s)" and "raftNode s \<noteq> None" and "list_all (plain_event R int32) evs"
    and "\<forall>q u e u'. user_exec X q u = (Some e, u') \<longrightarrow> is_mysql_error e"
  shows "\<exists>s'. runMainLoop R (mysql_backend X) (grpc_iface N) evs s = (Ok (), s')
    \<and> my_ready X (backend s') \<and> raftNode s' \<noteq> None
    \<and> (user_db (backend s'), sq_applied (backend s')) =
        sm_run (wq_Unmarshal R) (user_exec X) (indexAfterAppliedSnapshot s) (concat (map committed_of evs))
          (user_db (backend s), sq_applied (backend s))"
  using sql_backend.main_loop_run [OF mysql_sql.sql_backend_axioms quiet_grpc _ assms(3,4), of s N] assms(1,2)
  by (auto simp: sql_backend.node_up_def [OF mysql_sql.sql_backend_axioms]
      sql_backend.node_view_def [OF mysql_sql.sql_backend_axioms])

lemma sm_run_cong:
  assumes "\<And>q u. (fst (ex1 q u) = None) = (fst (ex2 q u) = None)" and "\<And>q u. snd (ex1 q u) = snd (ex2 q u)"
  shows "sm_run unm ex1 snap es x = sm_run unm ex2 snap es x"
proof -
  have "sm_step unm ex1 snap e y = sm_step unm ex2 snap e y" for e y
    using assms by (auto simp: sm_step_def split: sum.splits prod.splits option.splits) (metis fst_conv snd_conv option.discI)+
  then have "sm_step unm ex1 snap = sm_step unm ex2 snap" by (intro ext)
  then show ?thesis by (simp add: sm_run_def)
qed

text \<open>
  C2. Replicas agree across engines: a node with a SQLite backend and a node with a MySQL backend
  that start from the same data, applied index and snapshot index and are handed the same committed
  entries hold the same data and the same applied index afterwards, however the entries were split into
  steps and whatever else the two runs contained. The two engines must accept the same statements
  with the same effect, and indices and terms must fit MySQL's columns.
\<close>

theorem mixed_replicas_agree:
  fixes s :: "('u sqlite, 'r, grpc_client) node" and m :: "(('u, 'p) mysql, 'r2, grpc_client) node"
  assumes "sq_ready (backend s)" and "raftNode s \<noteq> None" and "list_all (plain_event R1 small) evs1"
    and "\<forall>q u e u'. user_exec X q u = (Some e, u') \<longrightarrow> is_sqlite_error e"
    and "my_ready Y (backend m)" and "raftNode m \<noteq> None" and "list_all (plain_event R2 int32) evs2"
    and "\<forall>q u e u'. user_exec Y q u = (Some e, u') \<longrightarrow> is_mysql_error e"
    and "\<forall>q u. (fst (user_exec X q u) = None) = (fst (user_exec Y q u) = None)
        \<and> snd (user_exec X q u) = snd (user_exec Y q u)"
    and "wq_Unmarshal R1 = wq_Unmarshal R2"
    and "indexAfterAppliedSnapshot s = indexAfterAppliedSnapshot m"
    and "user_db (backend s) = user_db (backend m)" and "sq_applied (backend s) = sq_applied (backend m)"
    and "concat (map committed_of evs1) = concat (map committed_of evs2)"
  shows "\<exists>s' m'. runMainLoop R1 (sqlite_backend X) (grpc_iface N1) evs1 s = (Ok (), s')
    \<and> runMainLoop R2 (mysql_backend Y) (grpc_iface N2) evs2 m = (Ok (), m')
    \<and> user_db (backend s') = user_db (backend m') \<and> sq_applied (backend s') = sq_applied (backend m')"
proof -
  have cong: "sm_run (wq_Unmarshal R2) (user_exec X) k es x = sm_run (wq_Unmarshal R2) (user_exec Y) k es x" for k es x
    using assms(9) by (intro sm_run_cong) simp_all
  obtain s' where s': "runMainLoop R1 (sqlite_backend X) (grpc_iface N1) evs1 s = (Ok (), s')"
    "(user_db (backend s'), sq_applied (backend s')) = sm_run (wq_Unmarshal R2) (user_exec Y)
       (indexAfterAppliedSnapshot m) (concat (map committed_of evs2)) (user_db (backend m), sq_applied (backend m))"
    using sqlite_main_loop [OF assms(1-4), of N1] assms(10-14) cong by auto
  obtain m' where m': "runMainLoop R2 (mysql_backend Y) (grpc_iface N2) evs2 m = (Ok (), m')"
    "(user_db (backend m'), sq_applied (backend m')) = sm_run (wq_Unmarshal R2) (user_exec Y)
       (indexAfterAppliedSnapshot m) (concat (map committed_of evs2)) (user_db (backend m), sq_applied (backend m))"
    using mysql_main_loop [OF assms(5-8), of N2] by auto
  from s'(2) m'(2) have "user_db (backend s') = user_db (backend m') \<and> sq_applied (backend s') = sq_applied (backend m')"
    by (metis Pair_inject)
  with s'(1) m'(1) show ?thesis by blast
qed

text \<open>A MySQL engine that refuses the statement \<open>bad\<close>, as the strict SQLite engine does, with an error of its own.\<close>

definition strict_my :: "(string list, nat, bool) mysql_engine" where
  "strict_my = demo_my\<lparr>user_exec := (\<lambda>q u. if q = ''bad'' then (Some (EMySQL 1064), u) else (None, u @ [q]))\<rparr>"

definition demo_my_node :: "'p \<Rightarrow> ((string list, 'p) mysql, nat, grpc_client) node" where
  "demo_my_node p = (node_New \<lparr>np_NodeID = 2, np_AddrPort = \<lparr>ni_Addr = ''b'', ni_Port = ''10''\<rparr>,
     np_IsNewCluster = False, np_PotentialPeers = []\<rparr> demo_transport (demo_mysql 0 [] [] p))\<lparr>raftNode := Some 0\<rparr>"

definition demo_my_raft :: "((string list, 'p) mysql, nat) raft_lib" where
  "demo_my_raft = \<lparr>StartNode = (\<lambda>c ps b. 0), RestartNode = (\<lambda>c b. 0), rn_Tick = Suc, rn_Propose = (\<lambda>d r. (None, r)),
     rn_ProposeConfChange = (\<lambda>c r. (None, r)), rn_ApplyConfChange = (\<lambda>c r. (zero_conf_state, r)),
     rn_Step = (\<lambda>m r. (None, r)), rn_ReportUnreachable = (\<lambda>i r. r), rn_ReportSnapshot = (\<lambda>i b r. r),
     rn_Advance = (\<lambda>r. r), rn_Stop = (\<lambda>r. r), rn_Status = (\<lambda>r. zero_status),
     IsEmptySnap = (\<lambda>s. SMIndex (Metadata s) = 0), IsEmptyHardState = (\<lambda>h. True),
     cc_Unmarshal = (\<lambda>b. \<lparr>ccID = 2, ccType = ConfChangeAddNode, ccNodeID = 2, ccContext = b\<rparr>),
     wq_Marshal = (\<lambda>q. Inr (wq_Sql q)), wq_Unmarshal = wq_Unmarshal demo_raft,
     json_Marshal = (\<lambda>i. Inr (ni_Addr i)), json_Unmarshal = (\<lambda>b. Inr \<lparr>ni_Addr = b, ni_Port = ''10''\<rparr>),
     driver_text = (\<lambda>_. [])\<rparr>"

lemma mixed_replicas_agree_witness:
  "\<exists>s' m'. runMainLoop demo_raft (sqlite_backend strict_engine) (grpc_iface demo_stubs)
        [Ready (demo_ready [demo_entry 1 1 ''x'', demo_entry 1 2 ''bad''])] demo_node = (Ok (), s')
    \<and> runMainLoop demo_my_raft (mysql_backend strict_my) (grpc_iface demo_stubs)
        [Ready (demo_ready [demo_entry 1 1 ''x'']), Tick, Ready (demo_ready [demo_entry 1 2 ''bad''])] (demo_my_node True) = (Ok (), m')
    \<and> user_db (backend s') = user_db (backend m')"
proof -
  let ?a = "[Ready (demo_ready [demo_entry 1 1 ''x'', demo_entry 1 2 ''bad''])]"
  let ?b = "[Ready (demo_ready [demo_entry 1 1 ''x'']), Tick, Ready (demo_ready [demo_entry 1 2 ''bad''])]"
  have evs: "list_all (plain_event demo_raft small) ?a" "list_all (plain_event demo_my_raft int32) ?b"
    "concat (map committed_of ?a) = concat (map committed_of ?b)"
    by (simp_all add: demo_ready_def zero_snapshot_def demo_entry_def small_def int32_def demo_my_raft_def)
  have m: "my_ready strict_my (backend (demo_my_node True))" "raftNode (demo_my_node True) \<noteq> None"
    by (simp_all add: demo_my_node_def node_New_def strict_my_def demo_my_def demo_mysql_ready)
  have errs: "\<forall>q u e u'. user_exec strict_my q u = (Some e, u') \<longrightarrow> is_mysql_error e"
    by (auto simp: strict_my_def is_mysql_error_def)
  have same: "\<forall>q u. (fst (user_exec strict_engine q u) = None) = (fst (user_exec strict_my q u) = None)
        \<and> snd (user_exec strict_engine q u) = snd (user_exec strict_my q u)"
    by (simp add: strict_engine_def strict_my_def)
  have start: "wq_Unmarshal demo_raft = wq_Unmarshal demo_my_raft"
    "indexAfterAppliedSnapshot demo_node = indexAfterAppliedSnapshot (demo_my_node True)"
    "user_db (backend demo_node) = user_db (backend (demo_my_node True))"
    "sq_applied (backend demo_node) = sq_applied (backend (demo_my_node True))"
    by (simp_all add: demo_my_raft_def demo_my_node_def node_New_def sq_applied_def)
  from mixed_replicas_agree [OF demo_node_ready evs(1) strict_engine_errs m evs(2) errs same start evs(3)]
  show ?thesis by blast
qed

section \<open>Catching up over MySQL\<close>

text \<open>
  C5. A MySQL snapshot newer than its index does no harm: the data is streamed when the snapshot is applied, by a server that may
  meanwhile have executed entries behind the index in the metadata. A node that applies it and is then handed these and
  the following entries skips what the streamed data contains and executes the rest: it holds the data and applied index of
  executing, entry by entry, the log as far as it was handed or as far as the data reached, whichever is longer.
  (A statement that fails must leave the data alone.)
\<close>

theorem mysql_snapshot_catches_up:
  fixes s :: "(('u, 'p) mysql, 'r, grpc_client) node"
  assumes "my_restorable X (backend s)" and "raftNode s \<noteq> None" and "\<not> IsEmptySnap R (rd_Snapshot rd)"
    and "my_restorable X src" and "mysql_carries X restored unpack src (rd_Snapshot rd)"
    and "(user_db src, sq_applied src) = sm_run (wq_Unmarshal R) (user_exec X) 0 es x" and "prefix es log"
    and "log_from (snd x) log" and "atomic_exec (user_exec X)"
    and "\<forall>q u e u'. user_exec X q u = (Some e, u') \<longrightarrow> is_mysql_error e"
    and "list_all (\<lambda>e. int32 (Term e) \<and> int32 (Index e)) (rd_CommittedEntries rd)" and "list_all (plain_event R int32) evs"
    and "target = upto_index (SMIndex (Metadata (rd_Snapshot rd))) log @ concat (map committed_of (Ready rd # evs))"
    and "prefix target log"
  shows "\<exists>s'. runMainLoop R (mysql_backend X) (grpc_iface N) (Ready rd # evs) s = (Ok (), s') \<and> my_ready X (backend s')
    \<and> (user_db (backend s'), sq_applied (backend s')) = sm_run (wq_Unmarshal R) (user_exec X) 0
        (if length (upto_index (sq_applied src) log) \<le> length target then target else upto_index (sq_applied src) log) x"
proof -
  have up: "sql_backend.node_up (my_restorable X) s"
    using assms(1,2) by (simp add: sql_backend.node_up_def [OF mysql_snap.sql_backend_axioms])
  from snapshot_backend.caught_up [OF mysql_snap.snapshot_backend_axioms quiet_grpc up assms(3-9,11,12) assms(14) [unfolded assms(13)] assms(10), of N]
  show ?thesis unfolding assms(13) executed_def
    by (auto simp: sql_backend.node_up_def [OF mysql_snap.sql_backend_axioms]
        sql_backend.node_view_def [OF mysql_snap.sql_backend_axioms] dest: my_restorable_ready simp del: runMainLoop.simps)
qed

text \<open>
  A pod whose server streams what it holds after the statements \<open>x\<close> and \<open>pod-0\<close>; the snapshot was taken after the first.
\<close>

definition strict_podx :: "(string list, nat, demo_pod) mysql_engine" where
  "strict_podx = demo_podx\<lparr>user_exec := user_exec strict_my\<rparr>"

definition demo_my_source :: "(string list, demo_pod) mysql" where
  "demo_my_source = put_datadir (demo_dir [''x'', ''pod-0'']) (demo_mysql 0 [] [] demo_pod0)"

definition demo_ref_snap :: snapshot where
  "demo_ref_snap = \<lparr>SData = ''pod-0'', Metadata = \<lparr>SMConfState = zero_conf_state, SMIndex = 1, SMTerm = 1\<rparr>\<rparr>"

lemma strict_podx_ready: "my_restorable strict_podx demo_my_source" "my_restorable strict_podx (demo_mysql 0 [] [] demo_pod0)"
  by (auto simp: my_restorable_def my_ready_def strict_podx_def demo_podx_def demo_pod0_def demo_my_source_def put_datadir_def
      demo_dir_def calm_def tables_ok_def first_row_def)

lemma demo_my_source_carries:
  "mysql_carries strict_podx restore_dir (\<lambda>b. demo_dir [''x'', b]) demo_my_source demo_ref_snap"
proof -
  have "pod_restores strict_podx restore_dir (\<lambda>b. demo_dir [''x'', b])"
    using demo_pod_restores by (simp add: strict_podx_def pod_restores_def pod_stops_def)
  moreover have "sq_applied demo_my_source = 2" by (simp add: demo_my_source_def sq_applied_def put_datadir_def demo_dir_def)
  ultimately show ?thesis
    by (simp add: mysql_carries_def demo_ref_snap_def strict_podx_def demo_podx_def demo_my_source_def word_le_nat_alt)
qed

lemma mysql_snapshot_catches_up_witness:
  "\<exists>s'. runMainLoop demo_my_raft (mysql_backend strict_podx) (grpc_iface demo_stubs)
      [Ready ((demo_ready [demo_entry 1 2 ''pod-0''])\<lparr>rd_Snapshot := demo_ref_snap\<rparr>), Ready (demo_ready [demo_entry 1 3 ''y''])]
      (demo_my_node demo_pod0) = (Ok (), s')
    \<and> user_db (backend s') = [''x'', ''pod-0'', ''y''] \<and> sq_applied (backend s') = 3"
proof -
  let ?R = "demo_my_raft :: ((string list, demo_pod) mysql, nat) raft_lib"
  let ?log = "[demo_entry 1 1 ''x'', demo_entry 1 2 ''pod-0'', demo_entry 1 3 ''y'']"
  let ?rd = "(demo_ready [demo_entry 1 2 ''pod-0''])\<lparr>rd_Snapshot := demo_ref_snap\<rparr>"
  let ?evs = "[Ready (demo_ready [demo_entry 1 3 ''y''])]"
  have node: "my_restorable strict_podx (backend (demo_my_node demo_pod0))" "raftNode (demo_my_node demo_pod0) \<noteq> None"
    using strict_podx_ready(2) by (simp_all add: demo_my_node_def node_New_def)
  have unm: "wq_Unmarshal ?R = wq_Unmarshal demo_raft" by (simp add: demo_my_raft_def)
  have exec: "user_exec strict_podx = (\<lambda>q u. if q = ''bad'' then (Some (EMySQL 1064), u) else (None, u @ [q]))"
    by (simp add: strict_podx_def strict_my_def)
  then have ex: "atomic_exec (user_exec strict_podx)" "\<forall>q u e u'. user_exec strict_podx q u = (Some e, u') \<longrightarrow> is_mysql_error e"
    by (auto simp: atomic_exec_def is_mysql_error_def)
  have applied: "sq_applied demo_my_source = 2" by (simp add: demo_my_source_def sq_applied_def put_datadir_def demo_dir_def)
  have src: "(user_db demo_my_source, sq_applied demo_my_source) =
      sm_run (wq_Unmarshal ?R) (user_exec strict_podx) 0 (take 2 ?log) ([], 0)"
    unfolding unm exec applied
    by (simp add: demo_my_source_def put_datadir_def demo_dir_def sm_run_def sm_step_def demo_entry_def)
  have run: "sm_run (wq_Unmarshal ?R) (user_exec strict_podx) 0 ?log ([], 0) = ([''x'', ''pod-0'', ''y''], 3)"
    unfolding unm exec by (simp add: sm_run_def sm_step_def demo_entry_def)
  have log: "log_from (snd ([] :: string list, 0)) ?log" by (simp add: log_from_def demo_entry_def)
  have target: "?log = upto_index (SMIndex (Metadata (rd_Snapshot ?rd))) ?log @ concat (map committed_of (Ready ?rd # ?evs))"
    by (simp add: upto_index_def demo_entry_def demo_ref_snap_def demo_ready_def word_le_nat_alt)
  have carried: "mysql_carries strict_podx restore_dir (\<lambda>b. demo_dir [''x'', b]) demo_my_source (rd_Snapshot ?rd)"
    using demo_my_source_carries by simp
  have ev: "list_all (\<lambda>e. int32 (Term e) \<and> int32 (Index e)) (rd_CommittedEntries ?rd)"
    "list_all (plain_event ?R int32) ?evs" "\<not> IsEmptySnap ?R (rd_Snapshot ?rd)"
    by (simp_all add: demo_ready_def demo_entry_def int32_def demo_ref_snap_def zero_snapshot_def demo_my_raft_def)
  have len: "length (upto_index (sq_applied demo_my_source) ?log) \<le> length ?log"
    unfolding upto_index_def by (rule length_filter_le)
  from mysql_snapshot_catches_up [OF node ev(3) strict_podx_ready(1) carried src _ log ex ev(1,2) target, of demo_stubs] run len
  show ?thesis by (auto simp: prefix_def simp del: runMainLoop.simps)
qed

end
